theory Spec2Isabelle
  imports Main "HOL-Library.AList"
begin

section \<open>Process supervisor: data model\<close>

text \<open>
  The orchestrator keeps three module-level registries: \<open>activeProcesses\<close>,
  \<open>processLogs\<close> and \<open>workflowStates\<close> (JavaScript \<open>Map\<close>s, which keep insertion
  order and overwrite a present key in place). They are association lists here, read with
  \<open>map_of\<close> and written with \<open>AList.update\<close> and \<open>AList.delete\<close>.
\<close>

datatype process_state =
  IDLE | INITIALIZING | RUNNING | PAUSED | STOPPING | ERROR | COMPLETED

type_synonym parameters = "(string \<times> string) list"

text \<open>
  One entry of \<open>activeProcesses\<close>. The properties \<open>endTime\<close> and \<open>error\<close> are absent
  from the object until first assigned (\<open>None\<close>); \<open>pid\<close> starts as \<open>null\<close>.
\<close>

record process_info =
  ptype :: string
  parameters :: parameters
  state :: process_state
  startTime :: int
  updateTime :: int
  progress :: int
  pid :: "nat option"
  endTime :: "int option"
  error :: "string option"

text \<open>
  A log line is \<open>[<ISO timestamp>] <message>\<close>; the pair keeps the clock reading and the
  message, the rendering of the date is left out.
\<close>

type_synonym log_entry = "int \<times> string"

text \<open>
  The supervisor's state: the two registries, the pending \<open>setTimeout\<close> callbacks of
  \<open>stopProcess\<close> (due time and the process id to delete), the signals delivered through
  \<open>process.kill\<close> (pid and signal name), the clock read by \<open>Date.now()\<close>, and the
  configured \<open>maxConcurrent\<close>.
\<close>

record sup =
  activeProcesses :: "(string \<times> process_info) list"
  processLogs :: "(string \<times> log_entry list) list"
  timers :: "(int \<times> string) list"
  signals :: "(nat \<times> string) list"
  now :: int
  maxConcurrent :: nat

text \<open>\<open>config.systemConfig.maxConcurrentProcesses || 5\<close>: absent or zero gives 5.\<close>

definition configuredMaxConcurrent :: "nat option \<Rightarrow> nat" where
  "configuredMaxConcurrent c = (case c of None \<Rightarrow> 5 | Some n \<Rightarrow> if n = 0 then 5 else n)"

definition initial :: "nat option \<Rightarrow> int \<Rightarrow> sup" where
  "initial c t = \<lparr>activeProcesses = [], processLogs = [], timers = [], signals = [],
     now = t, maxConcurrent = configuredMaxConcurrent c\<rparr>"

subsection \<open>Rendering numbers in messages\<close>

fun showNat :: "nat \<Rightarrow> string" where
  "showNat n = (if n < 10 then [''0123456789'' ! n]
                else showNat (n div 10) @ [''0123456789'' ! (n mod 10)])"

declare showNat.simps [simp del]

definition showInt :: "int \<Rightarrow> string" where
  "showInt i = (if i < 0 then CHR ''-'' # showNat (nat (- i)) else showNat (nat i))"

text \<open>Template rendering of a value that may be \<open>null\<close>.\<close>

definition showCode :: "int option \<Rightarrow> string" where
  "showCode c = (case c of None \<Rightarrow> ''null'' | Some i \<Rightarrow> showInt i)"

definition showSignal :: "string option \<Rightarrow> string" where
  "showSignal g = (case g of None \<Rightarrow> ''null'' | Some n \<Rightarrow> n)"

subsection \<open>Registry access\<close>

definition getProcess :: "sup \<Rightarrow> string \<Rightarrow> process_info option" where
  "getProcess s processId = map_of (activeProcesses s) processId"

definition setProcess :: "string \<Rightarrow> process_info \<Rightarrow> sup \<Rightarrow> sup" where
  "setProcess processId processInfo s =
     s\<lparr>activeProcesses := AList.update processId processInfo (activeProcesses s)\<rparr>"

definition deleteProcess :: "string \<Rightarrow> sup \<Rightarrow> sup" where
  "deleteProcess processId s =
     s\<lparr>activeProcesses := AList.delete processId (activeProcesses s)\<rparr>"

definition logsOf :: "sup \<Rightarrow> string \<Rightarrow> log_entry list" where
  "logsOf s processId = (case map_of (processLogs s) processId of None \<Rightarrow> [] | Some l \<Rightarrow> l)"

text \<open>
  A pid is used under \<open>if (processInfo.pid)\<close>: \<open>null\<close>, \<open>undefined\<close> and 0 are falsy.
\<close>

definition pidTruthy :: "nat option \<Rightarrow> bool" where
  "pidTruthy p = (case p of None \<Rightarrow> False | Some n \<Rightarrow> n \<noteq> 0)"

definition sendSignal :: "nat option \<Rightarrow> string \<Rightarrow> sup \<Rightarrow> sup" where
  "sendSignal p sig s =
     (case p of None \<Rightarrow> s | Some n \<Rightarrow> s\<lparr>signals := signals s @ [(n, sig)]\<rparr>)"

text \<open>\<open>processLogs.set(processId, [])\<close>\<close>

definition resetLogs :: "string \<Rightarrow> sup \<Rightarrow> sup" where
  "resetLogs processId s = s\<lparr>processLogs := AList.update processId [] (processLogs s)\<rparr>"

text \<open>
  \<open>setTimeout(() => { activeProcesses.delete(processId); }, delay)\<close>: the callback is
  due \<open>delay\<close> milliseconds from now.
\<close>

definition setTimeoutDelete :: "int \<Rightarrow> string \<Rightarrow> sup \<Rightarrow> sup" where
  "setTimeoutDelete delay processId s = s\<lparr>timers := timers s @ [(now s + delay, processId)]\<rparr>"

subsection \<open>The capped log buffer\<close>

text \<open>
  \<open>logs.push(logEntry); if (logs.length > 1000) logs.shift();\<close>
\<close>

definition pushLog :: "log_entry \<Rightarrow> log_entry list \<Rightarrow> log_entry list" where
  "pushLog logEntry logs =
     (let logs' = logs @ [logEntry] in if length logs' > 1000 then tl logs' else logs')"

text \<open>\<open>_logProcess\<close>: a missing buffer is created empty first.\<close>

definition logProcess :: "string \<Rightarrow> string \<Rightarrow> sup \<Rightarrow> sup" where
  "logProcess processId message s =
     s\<lparr>processLogs :=
         AList.update processId (pushLog (now s, message) (logsOf s processId)) (processLogs s)\<rparr>"

section \<open>Process supervisor: operations\<close>

text \<open>
  Every operation runs to completion between two events of the host's event loop (the
  \<open>await\<close>s inside them only wait for functions that never suspend), so each is one
  atomic function on the supervisor's state. What the environment decides is passed in:
  the random part of a fresh id, the pid of the spawned child, whether \<open>process.kill\<close>
  throws.
\<close>

definition CapacityExceeded :: string where
  "CapacityExceeded = ''Maximum concurrent processes reached''"

definition newProcessId :: "string \<Rightarrow> int \<Rightarrow> string \<Rightarrow> string" where
  "newProcessId processType t rnd = processType @ ''-'' @ showInt t @ ''-'' @ rnd"

text \<open>
  The \<open>switch\<close> of \<open>startProcess\<close> on the process type: each known type has a starter
  that writes one log line and spawns the worker; any other type throws.
\<close>

definition starterMessage :: "string \<Rightarrow> string option" where
  "starterMessage processType =
     (if processType = ''disk-imaging'' then Some ''Initializing disk imaging process''
      else if processType = ''memory-dump'' then Some ''Initializing memory dump process''
      else if processType = ''network-capture'' then Some ''Initializing network capture process''
      else if processType = ''log-analysis'' then Some ''Initializing log analysis process''
      else if processType = ''malware-scan'' then Some ''Initializing malware scan process''
      else None)"

definition showPid :: "nat option \<Rightarrow> string" where
  "showPid p = (case p of None \<Rightarrow> ''undefined'' | Some n \<Rightarrow> showNat n)"

definition startProcess ::
  "string \<Rightarrow> parameters \<Rightarrow> string \<Rightarrow> nat option \<Rightarrow> sup \<Rightarrow> (string + string) \<times> sup" where
  "startProcess processType params rnd childPid s =
     (if length (activeProcesses s) \<ge> maxConcurrent s then (Inl CapacityExceeded, s)
      else
        let processId = newProcessId processType (now s) rnd;
            s1 = setProcess processId
                   \<lparr>ptype = processType, parameters = params, state = INITIALIZING,
                    startTime = now s, updateTime = now s, progress = 0, pid = None,
                    endTime = None, error = None\<rparr> s;
            s2 = resetLogs processId s1;
            s3 = logProcess processId ''Process initialization started'' s2
        in case starterMessage processType of
             None \<Rightarrow> (Inl (''Unknown process type: '' @ processType), s3)
           | Some m \<Rightarrow>
               let s4 = logProcess processId m s3;
                   s5 = (case getProcess s4 processId of
                           None \<Rightarrow> s4
                         | Some processInfo \<Rightarrow>
                             setProcess processId
                               (processInfo\<lparr>state := RUNNING, pid := childPid,
                                  updateTime := now s\<rparr>) s4);
                   s6 = logProcess processId (''Process started with PID '' @ showPid childPid) s5
               in (Inr processId, s6))"

text \<open>
  \<open>_cleanupProcess\<close>: log lines by process type. Its statements only write log lines;
  \<open>failure\<close> stands for a condition raised by a cleanup task (the case the \<open>catch\<close>
  block of \<open>stopProcess\<close> is written for), raised after the first line.
\<close>

definition cleanupMessages :: "string \<Rightarrow> string list" where
  "cleanupMessages processType =
     (if processType = ''disk-imaging''
        then [''Verifying disk image integrity'', ''Cleaning up temporary files'']
      else if processType = ''network-capture''
        then [''Finalizing network capture file'', ''Generating capture summary'']
      else if processType = ''memory-dump'' then [''Verifying memory dump integrity'']
      else if processType = ''log-analysis'' then [''Finalizing analysis reports'']
      else if processType = ''malware-scan'' then [''Generating malware scan report'']
      else [])"

definition cleanupProcess :: "string \<Rightarrow> string \<Rightarrow> string option \<Rightarrow> sup \<Rightarrow> string option \<times> sup" where
  "cleanupProcess processId processType failure s =
     (let s1 = logProcess processId ''Running process cleanup'' s
      in case failure of
           Some e \<Rightarrow> (Some e, s1)
         | None \<Rightarrow>
             (None, logProcess processId ''Cleanup completed''
                      (fold (logProcess processId) (cleanupMessages processType) s1)))"

text \<open>The retention delay of \<open>stopProcess\<close>, in milliseconds.\<close>

definition retentionMs :: int where
  "retentionMs = 3600000"

text \<open>
  \<open>stopProcess\<close>. \<open>killError\<close> is the message of the exception \<open>process.kill\<close> throws,
  if it throws; the inner \<open>try\<close> logs it and goes on. An exception anywhere else in the
  outer \<open>try\<close> reaches the \<open>catch\<close>, which marks the record (if present) as ERROR.
\<close>

definition stopProcess ::
  "string \<Rightarrow> string option \<Rightarrow> string option \<Rightarrow> sup \<Rightarrow> bool \<times> sup" where
  "stopProcess processId killError cleanupFailure s =
     (case getProcess s processId of
        None \<Rightarrow> (False, s)
      | Some processInfo \<Rightarrow>
          let p1 = processInfo\<lparr>state := STOPPING, updateTime := now s\<rparr>;
              s1 = logProcess processId ''Process stopping initiated'' (setProcess processId p1 s);
              s2 = (if pidTruthy (pid p1) then
                      (case killError of
                         None \<Rightarrow>
                           logProcess processId (''Process '' @ showPid (pid p1) @ '' terminated'')
                             (sendSignal (pid p1) ''SIGTERM'' s1)
                       | Some e \<Rightarrow> logProcess processId (''Error terminating process: '' @ e) s1)
                    else s1)
          in case cleanupProcess processId (ptype p1) cleanupFailure s2 of
               (None, s3) \<Rightarrow>
                 let p2 = p1\<lparr>state := COMPLETED, updateTime := now s, endTime := Some (now s),
                             progress := 100\<rparr>;
                     s4 = logProcess processId ''Process cleanup completed'' (setProcess processId p2 s3)
                 in (True, setTimeoutDelete retentionMs processId s4)
             | (Some e, s3) \<Rightarrow>
                 (case getProcess s3 processId of
                    None \<Rightarrow> (False, s3)
                  | Some p \<Rightarrow>
                      (False, logProcess processId (''Process error: '' @ e)
                                (setProcess processId
                                   (p\<lparr>state := ERROR, error := Some e, updateTime := now s\<rparr>) s3))))"

definition pausableProcesses :: "string list" where
  "pausableProcesses = [''disk-imaging'', ''network-capture'', ''log-analysis'']"

definition pauseProcess :: "string \<Rightarrow> string option \<Rightarrow> sup \<Rightarrow> bool \<times> sup" where
  "pauseProcess processId killError s =
     (case getProcess s processId of
        None \<Rightarrow> (False, s)
      | Some processInfo \<Rightarrow>
          if state processInfo \<noteq> RUNNING then (False, s)
          else if ptype processInfo \<notin> set pausableProcesses then (False, s)
          else if pidTruthy (pid processInfo) then
            (case killError of
               Some e \<Rightarrow> (False, s)
             | None \<Rightarrow>
                 (True, logProcess processId ''Process paused''
                          (setProcess processId
                             (processInfo\<lparr>state := PAUSED, updateTime := now s\<rparr>)
                             (sendSignal (pid processInfo) ''SIGSTOP'' s))))
          else (False, s))"

definition resumeProcess :: "string \<Rightarrow> string option \<Rightarrow> sup \<Rightarrow> bool \<times> sup" where
  "resumeProcess processId killError s =
     (case getProcess s processId of
        None \<Rightarrow> (False, s)
      | Some processInfo \<Rightarrow>
          if state processInfo \<noteq> PAUSED then (False, s)
          else if pidTruthy (pid processInfo) then
            (case killError of
               Some e \<Rightarrow> (False, s)
             | None \<Rightarrow>
                 (True, logProcess processId ''Process resumed''
                          (setProcess processId
                             (processInfo\<lparr>state := RUNNING, updateTime := now s\<rparr>)
                             (sendSignal (pid processInfo) ''SIGCONT'' s))))
          else (False, s))"

text \<open>
  \<open>getProcessStatus\<close>: \<open>None\<close> is \<open>{ exists: false }\<close>; otherwise the record, the
  runtime and the logs. The runtime ends at \<open>endTime\<close> when that is truthy (present and
  not 0).
\<close>

definition getProcessStatus :: "sup \<Rightarrow> string \<Rightarrow> (process_info \<times> int \<times> log_entry list) option" where
  "getProcessStatus s processId =
     (case getProcess s processId of
        None \<Rightarrow> None
      | Some processInfo \<Rightarrow>
          Some (processInfo,
                (case endTime processInfo of
                   Some e \<Rightarrow>
                     if e \<noteq> 0 then e - startTime processInfo else now s - startTime processInfo
                 | None \<Rightarrow> now s - startTime processInfo),
                logsOf s processId))"

definition updateProcessProgress :: "string \<Rightarrow> int \<Rightarrow> sup \<Rightarrow> sup" where
  "updateProcessProgress processId prog s =
     (case getProcess s processId of
        None \<Rightarrow> s
      | Some processInfo \<Rightarrow>
          let s1 = setProcess processId
                     (processInfo\<lparr>progress := min (max prog 0) 100, updateTime := now s\<rparr>) s
          in if prog mod 25 = 0
             then logProcess processId (''Progress: '' @ showInt prog @ ''%'') s1
             else s1)"

subsection \<open>Monitoring callbacks\<close>

text \<open>
  The handlers \<open>_monitorProcess\<close> attaches to the child. \<open>marker\<close> is the number
  captured by \<open>/progress:\s*(\d+)/i\<close> in the output, if the output matches.
\<close>

definition onStdout :: "string \<Rightarrow> string \<Rightarrow> nat option \<Rightarrow> sup \<Rightarrow> sup" where
  "onStdout processId output marker s =
     (let s1 = logProcess processId output s
      in case marker of None \<Rightarrow> s1 | Some n \<Rightarrow> updateProcessProgress processId (int n) s1)"

definition onStderr :: "string \<Rightarrow> string \<Rightarrow> sup \<Rightarrow> sup" where
  "onStderr processId err s = logProcess processId (''ERROR: '' @ err) s"

definition exitError :: "int option \<Rightarrow> string option \<Rightarrow> string" where
  "exitError code signal =
     ''Process exited with code '' @ showCode code @ '' (signal: '' @ showSignal signal @ '')''"

definition onExit :: "string \<Rightarrow> int option \<Rightarrow> string option \<Rightarrow> sup \<Rightarrow> sup" where
  "onExit processId code signal s =
     (case getProcess s processId of
        None \<Rightarrow> s
      | Some processInfo \<Rightarrow>
          if code = Some 0 then
            setProcess processId
              (processInfo\<lparr>state := COMPLETED, progress := 100, updateTime := now s,
                 endTime := Some (now s)\<rparr>)
              (logProcess processId ''Process completed successfully'' s)
          else
            setProcess processId
              (processInfo\<lparr>state := ERROR, error := Some (exitError code signal),
                 updateTime := now s, endTime := Some (now s)\<rparr>)
              (logProcess processId
                 (''Process failed: Exit code '' @ showCode code @ '', Signal '' @ showSignal signal) s))"

definition onError :: "string \<Rightarrow> string \<Rightarrow> sup \<Rightarrow> sup" where
  "onError processId message s =
     logProcess processId (''Process error: '' @ message)
       (case getProcess s processId of
          None \<Rightarrow> s
        | Some processInfo \<Rightarrow>
            setProcess processId
              (processInfo\<lparr>state := ERROR, error := Some message, updateTime := now s\<rparr>) s)"

subsection \<open>The clock and the retention timers\<close>

text \<open>
  Time passes by \<open>tick\<close>: the clock advances and every pending \<open>setTimeout\<close> callback
  that has come due leaves the pending list and runs, \<open>activeProcesses.delete(processId)\<close>.
\<close>

definition fireTimers :: "sup \<Rightarrow> sup" where
  "fireTimers s =
     fold (\<lambda>(t, p). deleteProcess p) (filter (\<lambda>(t, p). t \<le> now s) (timers s))
       (s\<lparr>timers := filter (\<lambda>(t, p). \<not> t \<le> now s) (timers s)\<rparr>)"

definition tick :: "nat \<Rightarrow> sup \<Rightarrow> sup" where
  "tick d s = fireTimers (s\<lparr>now := now s + int d\<rparr>)"

subsection \<open>Everything that can happen to the supervisor\<close>

datatype event =
    StartProcess string parameters string "nat option"
  | StopProcess string "string option" "string option"
  | PauseProcess string "string option"
  | ResumeProcess string "string option"
  | UpdateProgress string int
  | Stdout string string "nat option"
  | Stderr string string
  | Exit string "int option" "string option"
  | ChildError string string
  | Tick nat

fun apply_event :: "event \<Rightarrow> sup \<Rightarrow> sup" where
  "apply_event (StartProcess t ps rnd cp) s = snd (startProcess t ps rnd cp s)"
| "apply_event (StopProcess p k c) s = snd (stopProcess p k c s)"
| "apply_event (PauseProcess p k) s = snd (pauseProcess p k s)"
| "apply_event (ResumeProcess p k) s = snd (resumeProcess p k s)"
| "apply_event (UpdateProgress p n) s = updateProcessProgress p n s"
| "apply_event (Stdout p out m) s = onStdout p out m s"
| "apply_event (Stderr p e) s = onStderr p e s"
| "apply_event (Exit p c g) s = onExit p c g s"
| "apply_event (ChildError p m) s = onError p m s"
| "apply_event (Tick d) s = tick d s"

inductive reachable :: "sup \<Rightarrow> bool" where
  reachable_initial: "reachable (initial c t)"
| reachable_event: "reachable s \<Longrightarrow> reachable (apply_event e s)"

text \<open>A record is terminal in COMPLETED and in ERROR.\<close>

definition terminal :: "process_state \<Rightarrow> bool" where
  "terminal st = (st = COMPLETED \<or> st = ERROR)"

definition nonTerminalCount :: "sup \<Rightarrow> nat" where
  "nonTerminalCount s = length (filter (\<lambda>(p, i). \<not> terminal (state i)) (activeProcesses s))"

text \<open>The bound every log buffer is kept under.\<close>

definition logs_bounded :: "sup \<Rightarrow> bool" where
  "logs_bounded s = (\<forall>p. length (logsOf s p) \<le> 1000)"

text \<open>
  The registry as a \<open>Map\<close>: no id occurs twice, so that the length of the list is the
  \<open>size\<close> of the map.
\<close>

definition keys_distinct :: "sup \<Rightarrow> bool" where
  "keys_distinct s = distinct (map fst (activeProcesses s))"

text \<open>A record is PAUSED only if its type can be paused.\<close>

definition paused_ok :: "sup \<Rightarrow> bool" where
  "paused_ok s =
     (\<forall>p i. getProcess s p = Some i \<longrightarrow> state i = PAUSED \<longrightarrow> ptype i \<in> set pausableProcesses)"

subsection \<open>Concrete runs\<close>

text \<open>
  A supervisor configured for one concurrent process, in which a log-analysis worker has
  been started; the same with the worker paused, exited with code 2, and exited with
  code 0; and a supervisor running a malware scan.
\<close>

definition example_id :: string where
  "example_id = ''log-analysis-0-k3x9q2m1z''"

definition example_running :: sup where
  "example_running =
     snd (startProcess ''log-analysis'' [] ''k3x9q2m1z'' (Some 4242) (initial (Some 1) 0))"

definition example_paused :: sup where
  "example_paused = snd (pauseProcess example_id None example_running)"

definition example_failed :: sup where
  "example_failed = onExit example_id (Some 2) None example_running"

definition example_completed :: sup where
  "example_completed = onExit example_id (Some 0) None example_running"

definition example_scan_id :: string where
  "example_scan_id = ''malware-scan-0-w7c1d5r8t''"

definition example_scan :: sup where
  "example_scan =
     snd (startProcess ''malware-scan'' [] ''w7c1d5r8t'' (Some 4243) (initial (Some 1) 0))"

section \<open>Workflow engine\<close>

text \<open>
  A step of a workflow definition is an object with a \<open>name\<close>, a \<open>type\<close> and the
  fields of that type; the dispatcher of \<open>_executeWorkflowStep\<close> knows the types
  process, decision, delay and parallel and throws on any other. A branch of a decision
  step has a name, an action and an optional \<open>skipCount\<close>, a count of steps: a
  natural number, absent when the branch does not give one.
\<close>

record branch =
  bname :: string
  action :: string
  skipCount :: "nat option"

datatype step =
    ProcessStep string string parameters
  | DecisionStep string string "branch list"
  | DelayStep string nat
  | ParallelStep string "step list"
  | UnknownStep string string

datatype workflow_state = Created | Running | Completed | Failed | Stopping | Stopped

text \<open>
  One entry of \<open>workflowStates\<close>. \<open>steps\<close> is \<open>definition.steps\<close>, \<open>processes\<close> the
  ids of the processes the workflow has started. The log lines of the workflow (written by
  \<open>_logWorkflow\<close>, whose body is not in the source files) are left out.
\<close>

record workflow =
  wid :: string
  wtype :: string
  wparameters :: parameters
  steps :: "step list"
  currentStep :: int
  wstate :: workflow_state
  processes :: "string list"
  wstartTime :: int
  wupdateTime :: int
  wendTime :: "int option"
  werror :: "string option"

text \<open>The whole orchestrator: the supervisor and the registry of workflows.\<close>

record sys =
  supervisor :: sup
  workflowStates :: "(string \<times> workflow) list"

definition getWorkflow :: "sys \<Rightarrow> string \<Rightarrow> workflow option" where
  "getWorkflow s workflowId = map_of (workflowStates s) workflowId"

definition setWorkflow :: "string \<Rightarrow> workflow \<Rightarrow> sys \<Rightarrow> sys" where
  "setWorkflow workflowId w s =
     s\<lparr>workflowStates := AList.update workflowId w (workflowStates s)\<rparr>"

text \<open>
  \<open>createWorkflow\<close>. The three builders of step lists (\<open>_createIncidentResponseWorkflow\<close>
  and its siblings) are not in the source files and are the parameter \<open>template\<close>.
\<close>

definition newWorkflowId :: "string \<Rightarrow> int \<Rightarrow> string \<Rightarrow> string" where
  "newWorkflowId workflowType t rnd = workflowType @ ''-'' @ showInt t @ ''-'' @ rnd"

definition knownWorkflowTypes :: "string list" where
  "knownWorkflowTypes = [''incident-response'', ''evidence-collection'', ''malware-investigation'']"

definition createWorkflow ::
  "(string \<Rightarrow> parameters \<Rightarrow> step list) \<Rightarrow> string \<Rightarrow> parameters \<Rightarrow> string \<Rightarrow> sys
     \<Rightarrow> (string + string) \<times> sys" where
  "createWorkflow template workflowType params rnd s =
     (let workflowId = newWorkflowId workflowType (now (supervisor s)) rnd
      in if workflowType \<in> set knownWorkflowTypes then
           (Inr workflowId,
            setWorkflow workflowId
              \<lparr>wid = workflowId, wtype = workflowType, wparameters = params,
               steps = template workflowType params, currentStep = 0, wstate = Created,
               processes = [], wstartTime = now (supervisor s),
               wupdateTime = now (supervisor s), wendTime = None, werror = None\<rparr> s)
         else (Inl (''Unknown workflow type: '' @ workflowType), s))"

subsection \<open>What happens while a step waits\<close>

text \<open>
  \<open>stopWorkflow\<close>: refused for an unknown, completed or failed workflow; otherwise every
  process of the workflow is stopped (\<open>stopProcess\<close> reports failure by its result and
  never throws) and the workflow ends \<open>stopped\<close>.
\<close>

definition stopWorkflow :: "string \<Rightarrow> string option \<Rightarrow> string option \<Rightarrow> sys \<Rightarrow> bool \<times> sys" where
  "stopWorkflow workflowId killError cleanupFailure s =
     (case getWorkflow s workflowId of
        None \<Rightarrow> (False, s)
      | Some w \<Rightarrow>
          if wstate w = Completed \<or> wstate w = Failed then (False, s)
          else
            let t = now (supervisor s);
                s1 = setWorkflow workflowId (w\<lparr>wstate := Stopping, wupdateTime := t\<rparr>) s;
                s2 = s1\<lparr>supervisor :=
                        fold (\<lambda>processId u. snd (stopProcess processId killError cleanupFailure u))
                          (processes w) (supervisor s1)\<rparr>
            in (True,
                setWorkflow workflowId
                  (w\<lparr>wstate := Stopped, wupdateTime := t, wendTime := Some t\<rparr>) s2))"

datatype wf_event =
    Supervisor event
  | StopWorkflow string "string option" "string option"

fun apply_wf_event :: "wf_event \<Rightarrow> sys \<Rightarrow> sys" where
  "apply_wf_event (Supervisor e) s = s\<lparr>supervisor := apply_event e (supervisor s)\<rparr>"
| "apply_wf_event (StopWorkflow w k c) s = snd (stopWorkflow w k c s)"

text \<open>
  What the environment contributes to one step: the random part of the process id, the
  pid of the spawned child, and, for each poll of \<open>_executeProcessStep\<close>, the events that
  happen before that poll.
\<close>

datatype step_env = StepEnv (envRnd: string) (envPid: "nat option") (envRounds: "wf_event list list")

datatype step_result = Resolved | Rejected string | Pending

subsection \<open>Process steps\<close>

text \<open>
  One run of the interval callback of \<open>_executeProcessStep\<close>. Once the promise is
  settled for a COMPLETED or ERROR process, the later check of the workflow has no effect.
\<close>

definition pollProcess :: "string \<Rightarrow> string \<Rightarrow> sys \<Rightarrow> step_result" where
  "pollProcess workflowId processId s =
     (case getProcessStatus (supervisor s) processId of
        None \<Rightarrow> Rejected (''Process '' @ processId @ '' no longer exists'')
      | Some (processStatus, runtime, logs) \<Rightarrow>
          if state processStatus = COMPLETED then Resolved
          else if state processStatus = ERROR then
            Rejected (''Process '' @ processId @ '' failed: '' @
              (case error processStatus of
                 None \<Rightarrow> ''Unknown error''
               | Some e \<Rightarrow> if e = [] then ''Unknown error'' else e))
          else
            (case getWorkflow s workflowId of
               None \<Rightarrow> Pending
             | Some currentWorkflow \<Rightarrow>
                 if wstate currentWorkflow \<noteq> Running
                 then Rejected ''Workflow execution was interrupted''
                 else Pending))"

text \<open>
  The wait for the process: poll after poll, each preceded by the events of its round.
  When the rounds run out with the process still going, the step is still waiting.
\<close>

fun waitForProcess :: "string \<Rightarrow> string \<Rightarrow> wf_event list list \<Rightarrow> sys \<Rightarrow> step_result \<times> sys" where
  "waitForProcess workflowId processId [] s = (Pending, s)"
| "waitForProcess workflowId processId (events # rounds) s =
     (let s1 = fold apply_wf_event events s
      in case pollProcess workflowId processId s1 of
           Pending \<Rightarrow> waitForProcess workflowId processId rounds s1
         | r \<Rightarrow> (r, s1))"

definition executeProcessStep ::
  "string \<Rightarrow> string \<Rightarrow> parameters \<Rightarrow> step_env \<Rightarrow> sys \<Rightarrow> step_result \<times> sys" where
  "executeProcessStep workflowId processType params env s =
     (case startProcess processType params (envRnd env) (envPid env) (supervisor s) of
        (Inl e, u) \<Rightarrow> (Rejected e, s\<lparr>supervisor := u\<rparr>)
      | (Inr processId, u) \<Rightarrow>
          let s1 = s\<lparr>supervisor := u\<rparr>;
              s2 = (case getWorkflow s1 workflowId of
                      None \<Rightarrow> s1
                    | Some w \<Rightarrow> setWorkflow workflowId (w\<lparr>processes := processes w @ [processId]\<rparr>) s1)
          in waitForProcess workflowId processId (envRounds env) s2)"

subsection \<open>Decision steps\<close>

text \<open>\<open>branch.skipCount || 1\<close>: an absent count and a count of 0 give 1.\<close>

definition effectiveSkip :: "branch \<Rightarrow> nat" where
  "effectiveSkip b = (case skipCount b of None \<Rightarrow> 1 | Some n \<Rightarrow> if n = 0 then 1 else n)"

text \<open>
  \<open>_executeDecisionStep\<close> takes \<open>step.branches[0]\<close>; with no branch, reading
  \<open>branch.name\<close> throws the TypeError whose message is \<open>undefinedName\<close>.
\<close>

definition undefinedName :: string where
  "undefinedName = ''Cannot read properties of undefined (reading 'name')''"

definition executeDecisionStep :: "string \<Rightarrow> branch list \<Rightarrow> sys \<Rightarrow> step_result \<times> sys" where
  "executeDecisionStep workflowId branches s =
     (case branches of
        [] \<Rightarrow> (Rejected undefinedName, s)
      | b # rest \<Rightarrow>
          (case getWorkflow s workflowId of
             None \<Rightarrow> (Resolved, s)
           | Some w \<Rightarrow>
               (Resolved,
                setWorkflow workflowId
                  (if action b = ''skip''
                   then w\<lparr>currentStep := currentStep w + int (effectiveSkip b)\<rparr>
                   else if action b = ''execute'' then w\<lparr>currentStep := currentStep w + 1\<rparr>
                   else w) s)))"

subsection \<open>The step loop\<close>

text \<open>
  The dispatcher. The executors of delay and parallel steps are not in the source files
  and are the parameters \<open>delayStep\<close> and \<open>parallelStep\<close>.
\<close>

type_synonym executor = "string \<Rightarrow> step \<Rightarrow> step_env \<Rightarrow> sys \<Rightarrow> step_result \<times> sys"

fun executeStep :: "executor \<Rightarrow> executor \<Rightarrow> string \<Rightarrow> step \<Rightarrow> step_env \<Rightarrow> sys \<Rightarrow> step_result \<times> sys" where
  "executeStep delayStep parallelStep w (ProcessStep n t ps) env s = executeProcessStep w t ps env s"
| "executeStep delayStep parallelStep w (DecisionStep n c bs) env s = executeDecisionStep w bs s"
| "executeStep delayStep parallelStep w (DelayStep n d) env s = delayStep w (DelayStep n d) env s"
| "executeStep delayStep parallelStep w (ParallelStep n subs) env s =
     parallelStep w (ParallelStep n subs) env s"
| "executeStep delayStep parallelStep w (UnknownStep n t) env s =
     (Rejected (''Unknown step type: '' @ t), s)"

text \<open>
  How one call of \<open>_executeWorkflowStep\<close> ends: it has scheduled the next call
  (\<open>setImmediate\<close>), it has returned without scheduling one, it is still waiting for
  its step, or it has thrown.
\<close>

datatype call_result = Scheduled | Returned | Waiting | Thrown string

text \<open>
  One call of \<open>_executeWorkflowStep\<close>. After the step the workflow object is the one
  the step may have changed. A negative index reads \<open>undefined\<close> from the step list, and
  the call throws on \<open>currentStep.name\<close> before its \<open>try\<close>.
\<close>

definition executeWorkflowStep ::
  "executor \<Rightarrow> executor \<Rightarrow> string \<Rightarrow> step_env \<Rightarrow> sys \<Rightarrow> call_result \<times> sys" where
  "executeWorkflowStep delayStep parallelStep workflowId env s =
     (case getWorkflow s workflowId of
        None \<Rightarrow> (Returned, s)
      | Some w \<Rightarrow>
          if wstate w \<noteq> Running then (Returned, s)
          else if currentStep w \<ge> int (length (steps w)) then
            (Returned,
             setWorkflow workflowId
               (w\<lparr>wstate := Completed, wupdateTime := now (supervisor s),
                   wendTime := Some (now (supervisor s))\<rparr>) s)
          else if currentStep w < 0 then (Thrown undefinedName, s)
          else
            (case executeStep delayStep parallelStep workflowId (steps w ! nat (currentStep w)) env s of
               (Resolved, s1) \<Rightarrow>
                 (case getWorkflow s1 workflowId of
                    None \<Rightarrow> (Returned, s1)
                  | Some w1 \<Rightarrow>
                      (Scheduled,
                       setWorkflow workflowId
                         (w1\<lparr>currentStep := currentStep w1 + 1,
                             wupdateTime := now (supervisor s1)\<rparr>) s1))
             | (Rejected e, s1) \<Rightarrow>
                 (case getWorkflow s1 workflowId of
                    None \<Rightarrow> (Returned, s1)
                  | Some w1 \<Rightarrow>
                      (Returned,
                       setWorkflow workflowId
                         (w1\<lparr>wstate := Failed, werror := Some e,
                             wupdateTime := now (supervisor s1),
                             wendTime := Some (now (supervisor s1))\<rparr>) s1))
             | (Pending, s1) \<Rightarrow> (Waiting, s1)))"

text \<open>
  The calls of the step loop that follow one another for as long as each schedules the
  next, one environment per call.
\<close>

fun runWorkflow :: "executor \<Rightarrow> executor \<Rightarrow> string \<Rightarrow> step_env list \<Rightarrow> sys \<Rightarrow> sys" where
  "runWorkflow delayStep parallelStep workflowId [] s = s"
| "runWorkflow delayStep parallelStep workflowId (env # envs) s =
     (case executeWorkflowStep delayStep parallelStep workflowId env s of
        (Scheduled, s1) \<Rightarrow> runWorkflow delayStep parallelStep workflowId envs s1
      | (r, s1) \<Rightarrow> s1)"

text \<open>
  \<open>startWorkflow\<close> marks a created workflow as running and awaits the first call of the
  step loop: it returns true when that call returns, false when it throws, and has not
  returned (\<open>None\<close>) while the call waits for its step. The calls after the first run
  on their own. With no environment at all the state is the one the first call starts
  from.
\<close>

definition startWorkflow ::
  "executor \<Rightarrow> executor \<Rightarrow> string \<Rightarrow> step_env list \<Rightarrow> sys \<Rightarrow> bool option \<times> sys" where
  "startWorkflow delayStep parallelStep workflowId envs s =
     (case getWorkflow s workflowId of
        None \<Rightarrow> (Some False, s)
      | Some w \<Rightarrow>
          if wstate w \<noteq> Created then (Some False, s)
          else
            let s1 = setWorkflow workflowId
                       (w\<lparr>wstate := Running, wupdateTime := now (supervisor s)\<rparr>) s
            in case envs of
                 [] \<Rightarrow> (None, s1)
               | env # rest \<Rightarrow>
                   (case executeWorkflowStep delayStep parallelStep workflowId env s1 of
                      (Scheduled, s2) \<Rightarrow>
                        (Some True, runWorkflow delayStep parallelStep workflowId rest s2)
                    | (Returned, s2) \<Rightarrow> (Some True, s2)
                    | (Waiting, s2) \<Rightarrow> (None, s2)
                    | (Thrown e, s2) \<Rightarrow> (Some False, s2)))"

subsection \<open>Events that leave a waiting step waiting\<close>

text \<open>
  While a process step polls, time passes and the worker writes output: the passing of
  time, the output callbacks and progress updates are the quiet events. \<open>elapsed\<close> is
  the time that passes in a list of events.
\<close>

fun quiet :: "wf_event \<Rightarrow> bool" where
  "quiet (Supervisor (Tick d)) = True"
| "quiet (Supervisor (Stdout p out m)) = True"
| "quiet (Supervisor (Stderr p e)) = True"
| "quiet (Supervisor (UpdateProgress p n)) = True"
| "quiet e = False"

fun elapsed :: "wf_event list \<Rightarrow> int" where
  "elapsed [] = 0"
| "elapsed (Supervisor (Tick d) # es) = int d + elapsed es"
| "elapsed (e # es) = elapsed es"

text \<open>What a poll reads of a process record: its state and its error.\<close>

definition lifecycle :: "process_info \<Rightarrow> process_state \<times> string option" where
  "lifecycle i = (state i, error i)"

text \<open>
  The second orchestrator state differs from the first in nothing a poll, the capacity
  check or a signal count can see; no removal is pending in it.
\<close>

definition undisturbed :: "sys \<Rightarrow> sys \<Rightarrow> bool" where
  "undisturbed s s' =
     (workflowStates s' = workflowStates s
      \<and> timers (supervisor s') = []
      \<and> signals (supervisor s') = signals (supervisor s)
      \<and> maxConcurrent (supervisor s') = maxConcurrent (supervisor s)
      \<and> length (activeProcesses (supervisor s')) = length (activeProcesses (supervisor s))
      \<and> (\<forall>q. map_option lifecycle (getProcess (supervisor s') q)
               = map_option lifecycle (getProcess (supervisor s) q)))"

section \<open>Rule evaluator\<close>

text \<open>
  An extracted-artifact record. \<open>timestamp\<close> is the time value of
  \<open>new Date(a.timestamp)\<close>, in milliseconds since the epoch, and \<open>None\<close> when the
  string is not a date (the time value NaN).
\<close>

record artifact =
  artifact_type :: string
  timestamp :: "int option"
  snapshot_id :: string

definition WORK_HOUR_START :: int where
  "WORK_HOUR_START = 8"

definition WORK_HOUR_END :: int where
  "WORK_HOUR_END = 18"

text \<open>\<open>getUTCHours\<close>: the hour of the day of a time value.\<close>

definition getHour :: "int option \<Rightarrow> int option" where
  "getHour isoTimestamp = map_option (\<lambda>t. (t div 3600000) mod 24) isoTimestamp"

definition offHoursAlert :: "int \<Rightarrow> string \<Rightarrow> string" where
  "offHoursAlert h snapshot =
     ''[Alert] Key extracted at off-hours ('' @ showInt h @ ''h): snapshot='' @ snapshot"

text \<open>
  \<open>ruleOffHourKeyExtraction\<close>: the warnings written, in order. Every comparison with
  NaN is false, so a record without a valid date gives no warning.
\<close>

definition ruleOffHourKeyExtraction :: "artifact list \<Rightarrow> string list" where
  "ruleOffHourKeyExtraction artifacts =
     concat (map (\<lambda>a.
       if artifact_type a = ''serpent_xts_key'' then
         (case getHour (timestamp a) of
            None \<Rightarrow> []
          | Some h \<Rightarrow>
              if h < WORK_HOUR_START \<or> h \<ge> WORK_HOUR_END
              then [offHoursAlert h (snapshot_id a)] else [])
       else []) artifacts)"

text \<open>
  Artifacts of 15 January 2024: keys taken at 03:30, 10:00 and 18:00 UTC, and an artifact of
  another type.
\<close>

definition example_night_key :: artifact where
  "example_night_key =
     \<lparr>artifact_type = ''serpent_xts_key'', timestamp = Some 1705289400000, snapshot_id = ''snap-0042''\<rparr>"

definition example_day_key :: artifact where
  "example_day_key =
     \<lparr>artifact_type = ''serpent_xts_key'', timestamp = Some 1705312800000, snapshot_id = ''snap-0043''\<rparr>"

definition example_evening_key :: artifact where
  "example_evening_key =
     \<lparr>artifact_type = ''serpent_xts_key'', timestamp = Some 1705341600000, snapshot_id = ''snap-0044''\<rparr>"

definition example_other :: artifact where
  "example_other =
     \<lparr>artifact_type = ''bitlocker_recovery'', timestamp = Some 1705289400000, snapshot_id = ''snap-0045''\<rparr>"

text \<open>An executor for runs without delay and parallel steps.\<close>

definition noExecutor :: executor where
  "noExecutor w st env s = (Rejected ''not available'', s)"

text \<open>
  Step lists for the three workflow types. Evidence collection images the disk and scans
  for malware. Incident response starts with a decision whose first branch skips two
  steps and has, at index 3, a decision whose branch has the action \<open>execute\<close>.
  Malware investigation starts with a decision that skips without a count and has, at
  index 2, one whose count is 0.
\<close>

definition example_template :: "string \<Rightarrow> parameters \<Rightarrow> step list" where
  "example_template workflowType params =
     (if workflowType = ''evidence-collection'' then
        [ProcessStep ''Image the disk'' ''disk-imaging'' params,
         ProcessStep ''Scan for malware'' ''malware-scan'' params]
      else if workflowType = ''incident-response'' then
        [DecisionStep ''Triage'' ''severity''
           [\<lparr>bname = ''routine'', action = ''skip'', skipCount = Some 2\<rparr>,
            \<lparr>bname = ''urgent'', action = ''execute'', skipCount = None\<rparr>],
         ProcessStep ''Dump memory'' ''memory-dump'' params,
         ProcessStep ''Capture traffic'' ''network-capture'' params,
         DecisionStep ''Escalate'' ''confirmed''
           [\<lparr>bname = ''escalate'', action = ''execute'', skipCount = None\<rparr>],
         ProcessStep ''Analyse logs'' ''log-analysis'' params,
         ProcessStep ''Scan for malware'' ''malware-scan'' params]
      else
        [DecisionStep ''Shortcut'' ''known sample''
           [\<lparr>bname = ''known'', action = ''skip'', skipCount = None\<rparr>],
         ProcessStep ''Analyse logs'' ''log-analysis'' params,
         DecisionStep ''Recheck'' ''clean''
           [\<lparr>bname = ''clean'', action = ''skip'', skipCount = Some 0\<rparr>],
         ProcessStep ''Scan for malware'' ''malware-scan'' params,
         ProcessStep ''Dump memory'' ''memory-dump'' params])"

text \<open>
  A fresh orchestrator with the default cap of five, and one workflow of each type
  created in it. The incident response and the malware investigation are also taken as
  they are when marked as running, before the first call of the step loop, and after
  that call.
\<close>

definition example_fresh :: sys where
  "example_fresh = \<lparr>supervisor = initial None 0, workflowStates = []\<rparr>"

definition example_collection_id :: string where
  "example_collection_id = ''evidence-collection-0-e5f6g7h8i''"

definition example_collection :: sys where
  "example_collection =
     snd (createWorkflow example_template ''evidence-collection'' [] ''e5f6g7h8i'' example_fresh)"

definition example_response_id :: string where
  "example_response_id = ''incident-response-0-r2s3t4u5v''"

definition example_response :: sys where
  "example_response =
     snd (createWorkflow example_template ''incident-response'' [] ''r2s3t4u5v'' example_fresh)"

definition example_response_running :: sys where
  "example_response_running =
     snd (startWorkflow noExecutor noExecutor example_response_id [] example_response)"

definition example_response_triaged :: sys where
  "example_response_triaged =
     snd (executeWorkflowStep noExecutor noExecutor example_response_id (StepEnv [] None [])
            example_response_running)"

definition example_investigation_id :: string where
  "example_investigation_id = ''malware-investigation-0-j1k2l3m4n''"

definition example_investigation :: sys where
  "example_investigation =
     snd (createWorkflow example_template ''malware-investigation'' [] ''j1k2l3m4n'' example_fresh)"

definition example_investigation_running :: sys where
  "example_investigation_running =
     snd (startWorkflow noExecutor noExecutor example_investigation_id [] example_investigation)"

definition example_investigation_rechecking :: sys where
  "example_investigation_rechecking =
     snd (executeWorkflowStep noExecutor noExecutor example_investigation_id (StepEnv [] None [])
            example_investigation_running)"

text \<open>
  An orchestrator capped at one process whose only slot is taken by the running
  log-analysis worker, with an evidence collection created and marked as running.
\<close>

definition example_busy :: sys where
  "example_busy =
     snd (startWorkflow noExecutor noExecutor example_collection_id []
       (snd (createWorkflow example_template ''evidence-collection'' [] ''e5f6g7h8i''
          \<lparr>supervisor = example_running, workflowStates = []\<rparr>)))"

text \<open>
  What happens around the two workers of the evidence collection. The imaging worker is
  polled twice while it runs, reports progress in between, and exits with code 0 in the
  third second; the scanner, started at 3000, is polled once while it runs, writes a
  warning, and exits with code 2 in its second second.
\<close>

definition example_imaging_id :: string where
  "example_imaging_id = ''disk-imaging-0-a1b2c3d4e''"

definition example_scanner_id :: string where
  "example_scanner_id = ''malware-scan-3000-f5g6h7i8j''"

definition example_imaging_env :: step_env where
  "example_imaging_env =
     StepEnv ''a1b2c3d4e'' (Some 5001)
       [[Supervisor (Tick 1000)],
        [Supervisor (Stdout example_imaging_id ''Progress: 40%'' (Some 40)),
         Supervisor (Tick 1000)],
        [Supervisor (Tick 400), Supervisor (Exit example_imaging_id (Some 0) None),
         Supervisor (Tick 600)]]"

definition example_scanner_env :: step_env where
  "example_scanner_env =
     StepEnv ''f5g6h7i8j'' (Some 5002)
       [[Supervisor (Stderr example_scanner_id ''signature database is old''),
         Supervisor (Tick 1000)],
        [Supervisor (Tick 250), Supervisor (Exit example_scanner_id (Some 2) None),
         Supervisor (Tick 750)],
        [Supervisor (Tick 1000)]]"


section \<open>Properties of the log buffer\<close>

lemma logsOf_logProcess:
  "logsOf (logProcess p m s) p = pushLog (now s, m) (logsOf s p)"
  by (simp add: logsOf_def logProcess_def update_conv')

lemma now_logProcess: "now (logProcess p m s) = now s"
  by (simp add: logProcess_def)

lemma pushLog_eq:
  "length logs \<le> 1000 \<Longrightarrow> pushLog e logs = drop (length (logs @ [e]) - 1000) (logs @ [e])"
proof (cases "length logs = 1000")
  case True
  then obtain x xs where "logs = x # xs" by (cases logs) auto
  with True show ?thesis by (simp add: pushLog_def)
next
  case False
  assume "length logs \<le> 1000"
  with False have "length logs < 1000" by simp
  then show ?thesis by (simp add: pushLog_def)
qed

lemma length_pushLog: "length logs \<le> 1000 \<Longrightarrow> length (pushLog e logs) \<le> 1000"
  by (auto simp: pushLog_def Let_def)

lemma pushLog_full: "length logs = 1000 \<Longrightarrow> pushLog e logs = tl logs @ [e]"
  by (cases logs) (auto simp: pushLog_def Let_def)

lemma fold_pushLog:
  "length logs \<le> 1000 \<Longrightarrow>
   fold pushLog es logs = drop (length (logs @ es) - 1000) (logs @ es)
   \<and> length (fold pushLog es logs) \<le> 1000"
proof (induction es arbitrary: logs)
  case Nil
  then show ?case by simp
next
  case (Cons e es)
  have len: "length (pushLog e logs) \<le> 1000"
    using Cons.prems by (rule length_pushLog)
  have eq: "pushLog e logs = drop (length logs + 1 - 1000) (logs @ [e])"
    using pushLog_eq [OF Cons.prems, of e] by simp
  have "fold pushLog (e # es) logs = fold pushLog es (pushLog e logs)" by simp
  also have "\<dots> = drop (length (pushLog e logs @ es) - 1000) (pushLog e logs @ es)"
    using Cons.IH [OF len] by simp
  also have "\<dots> = drop (length (logs @ e # es) - 1000) (logs @ e # es)"
  proof (cases "length logs = 1000")
    case True
    then obtain x xs where l: "logs = x # xs" by (cases logs) auto
    with True eq have "pushLog e logs = xs @ [e]" by simp
    with True l show ?thesis by (simp add: drop_Suc)
  next
    case False
    with Cons.prems have "length logs < 1000" by simp
    with eq have "pushLog e logs = logs @ [e]" by simp
    then show ?thesis by simp
  qed
  finally show ?case using Cons.IH [OF len] by simp
qed

lemma logsOf_fold_logProcess:
  "logsOf (fold (logProcess p) ms s) p = fold pushLog (map (Pair (now s)) ms) (logsOf s p)"
proof (induction ms arbitrary: s)
  case Nil
  then show ?case by simp
next
  case (Cons m ms)
  show ?case
    using Cons.IH [of "logProcess p m s"]
    by (simp add: logsOf_logProcess now_logProcess)
qed

named_theorems frame

lemma logsOf_setProcess [frame]: "logsOf (setProcess p i s) q = logsOf s q"
  by (simp add: logsOf_def setProcess_def)
lemma logsOf_deleteProcess [frame]: "logsOf (deleteProcess p s) q = logsOf s q"
  by (simp add: logsOf_def deleteProcess_def)
lemma logsOf_sendSignal [frame]: "logsOf (sendSignal n g s) q = logsOf s q"
  by (simp add: logsOf_def sendSignal_def split: option.splits)
lemma logsOf_setTimeoutDelete [frame]: "logsOf (setTimeoutDelete d p s) q = logsOf s q"
  by (simp add: logsOf_def setTimeoutDelete_def)
lemma logsOf_resetLogs [frame]: "logsOf (resetLogs p s) q = (if q = p then [] else logsOf s q)"
  by (simp add: logsOf_def resetLogs_def update_conv')
lemma logsOf_logProcess_other: "q \<noteq> p \<Longrightarrow> logsOf (logProcess p m s) q = logsOf s q"
  by (simp add: logsOf_def logProcess_def update_conv')

lemma logs_bounded_logProcess [simp]: "logs_bounded s \<Longrightarrow> logs_bounded (logProcess p m s)"
  unfolding logs_bounded_def
  by (metis logsOf_logProcess logsOf_logProcess_other length_pushLog)

lemma logs_bounded_setProcess [simp]: "logs_bounded (setProcess p i s) = logs_bounded s"
  by (simp add: logs_bounded_def frame)
lemma logs_bounded_sendSignal [simp]: "logs_bounded (sendSignal p i s) = logs_bounded s"
  by (simp add: logs_bounded_def frame)
lemma logs_bounded_setTimeoutDelete [simp]: "logs_bounded (setTimeoutDelete d p s) = logs_bounded s"
  by (simp add: logs_bounded_def frame)
lemma logs_bounded_deleteProcess [simp]: "logs_bounded (deleteProcess p s) = logs_bounded s"
  by (simp add: logs_bounded_def frame)
lemma logs_bounded_resetLogs [simp]: "logs_bounded s \<Longrightarrow> logs_bounded (resetLogs p s)"
  by (simp add: logs_bounded_def frame)

lemma logs_bounded_fold_logProcess [simp]:
  "logs_bounded s \<Longrightarrow> logs_bounded (fold (logProcess p) ms s)"
  by (induction ms arbitrary: s) auto

lemma logs_bounded_fold_delete [simp]:
  "logs_bounded (fold (\<lambda>(t, p). deleteProcess p) xs s) = logs_bounded s"
  by (induction xs arbitrary: s) (auto split: prod.splits)

lemma logs_bounded_startProcess: "logs_bounded s \<Longrightarrow> logs_bounded (snd (startProcess t ps r c s))"
  by (simp add: startProcess_def Let_def split: option.splits)

lemma logs_bounded_cleanup: "logs_bounded s \<Longrightarrow> logs_bounded (snd (cleanupProcess p t f s))"
  by (simp add: cleanupProcess_def Let_def split: option.splits)

lemma logs_bounded_stopProcess: "logs_bounded s \<Longrightarrow> logs_bounded (snd (stopProcess p k c s))"
  by (simp add: stopProcess_def cleanupProcess_def Let_def split: option.splits prod.splits)

lemma logs_bounded_pauseProcess: "logs_bounded s \<Longrightarrow> logs_bounded (snd (pauseProcess p k s))"
  by (simp add: pauseProcess_def Let_def split: option.splits)

lemma logs_bounded_resumeProcess: "logs_bounded s \<Longrightarrow> logs_bounded (snd (resumeProcess p k s))"
  by (simp add: resumeProcess_def Let_def split: option.splits)

lemma logs_bounded_updateProcessProgress [simp]:
  "logs_bounded s \<Longrightarrow> logs_bounded (updateProcessProgress p n s)"
  by (simp add: updateProcessProgress_def Let_def split: option.splits)

lemma processLogs_fold_delete:
  "processLogs (fold (\<lambda>(t, p). deleteProcess p) xs s) = processLogs s"
  by (induction xs arbitrary: s) (auto simp: deleteProcess_def)

lemma logs_bounded_tick: "logs_bounded s \<Longrightarrow> logs_bounded (tick d s)"
  by (simp add: tick_def fireTimers_def logs_bounded_def logsOf_def processLogs_fold_delete)

lemma logs_bounded_event: "logs_bounded s \<Longrightarrow> logs_bounded (apply_event e s)"
  by (cases e)
     (simp_all add: logs_bounded_startProcess logs_bounded_stopProcess logs_bounded_pauseProcess
        logs_bounded_resumeProcess logs_bounded_tick onStdout_def onStderr_def onExit_def onError_def Let_def
        split: option.splits)

lemma logs_bounded_initial: "logs_bounded (initial c t)"
  by (simp add: logs_bounded_def logsOf_def initial_def)

lemma logs_bounded_reachable: "reachable s \<Longrightarrow> logs_bounded s"
  by (induction rule: reachable.induct) (simp_all add: logs_bounded_event logs_bounded_initial)


lemma now_fold_logProcess: "now (fold (logProcess p) ms s) = now s"
  by (induction ms arbitrary: s) (simp_all add: now_logProcess)

lemma reachable_fold: "reachable s \<Longrightarrow> reachable (fold apply_event es s)"
  by (induction es arbitrary: s) (simp_all add: reachable_event)

lemma fold_Stderr:
  "fold apply_event (replicate n (Stderr p e)) s = fold (logProcess p) (replicate n (''ERROR: '' @ e)) s"
  by (induction n arbitrary: s) (simp_all add: onStderr_def)

text \<open>
  Claim C9. In every reachable state a process log buffer holds at most 1000 entries; an
  append to a full buffer drops exactly the oldest entry and puts the new one last; and
  after 1500 appends the buffer holds exactly the last 1000 appended entries, in the
  order they were appended (for \<open>_logProcess\<close> at a fixed clock, and for the
  buffer's push-and-shift on arbitrary entries).
\<close>

theorem log_buffer_fifo:
  "reachable s \<Longrightarrow>
     length (logsOf s p) \<le> 1000
     \<and> (length (logsOf s p) = 1000 \<longrightarrow>
          logsOf (logProcess p m s) p = tl (logsOf s p) @ [(now s, m)])
     \<and> (length ms = 1500 \<longrightarrow>
          logsOf (fold (logProcess p) ms s) p = map (Pair (now s)) (drop 500 ms))
     \<and> (length es = 1500 \<longrightarrow> fold pushLog es (logsOf s p) = drop 500 es)"
proof -
  assume "reachable s"
  then have b: "length (logsOf s p) \<le> 1000"
    using logs_bounded_reachable by (simp add: logs_bounded_def)
  have full: "length (logsOf s p) = 1000 \<longrightarrow>
      logsOf (logProcess p m s) p = tl (logsOf s p) @ [(now s, m)]"
    by (simp add: logsOf_logProcess pushLog_full)
  have many: "fold pushLog xs (logsOf s p) = drop 500 xs" if "length xs = 1500" for xs
  proof -
    have "fold pushLog xs (logsOf s p)
        = drop (length (logsOf s p) + 500) (logsOf s p @ xs)"
      using fold_pushLog [OF b, of xs] that by simp
    then show ?thesis by simp
  qed
  have "length ms = 1500 \<longrightarrow>
      logsOf (fold (logProcess p) ms s) p = map (Pair (now s)) (drop 500 ms)"
    by (simp add: logsOf_fold_logProcess many drop_map)
  with b full many show ?thesis by blast
qed

theorem log_buffer_fifo_witness:
  "reachable (fold apply_event (replicate 1000 (Stderr ''p'' ''x'')) (initial None 0))
   \<and> length (logsOf (fold apply_event (replicate 1000 (Stderr ''p'' ''x'')) (initial None 0)) ''p'') = 1000
   \<and> length (replicate 1500 ''m'') = 1500
   \<and> length (replicate 1500 (7::int, ''m'')) = 1500
   \<and> logsOf (logProcess ''p'' ''m''
         (fold apply_event (replicate 1000 (Stderr ''p'' ''x'')) (initial None 0))) ''p''
       = replicate 999 (0, ''ERROR: x'') @ [(0, ''m'')]
   \<and> logsOf (fold (logProcess ''p'') (replicate 1500 ''m'')
         (fold apply_event (replicate 1000 (Stderr ''p'' ''x'')) (initial None 0))) ''p''
       = replicate 1000 (0, ''m'')
   \<and> fold pushLog (replicate 1500 (7, ''m''))
         (logsOf (fold apply_event (replicate 1000 (Stderr ''p'' ''x'')) (initial None 0)) ''p'')
       = replicate 1000 (7, ''m'')"
proof -
  let ?S = "fold apply_event (replicate 1000 (Stderr ''p'' ''x'')) (initial None 0)"
  have r: "reachable ?S"
    by (rule reachable_fold) (rule reachable_initial)
  have S: "?S = fold (logProcess ''p'') (replicate 1000 ''ERROR: x'') (initial None 0)"
    by (simp only: fold_Stderr append.simps)
  have n: "now ?S = 0"
    by (simp only: S now_fold_logProcess) (simp add: initial_def)
  have e: "logsOf (initial None 0) ''p'' = []"
    by (simp add: initial_def logsOf_def)
  have l: "logsOf ?S ''p'' = replicate 1000 (0, ''ERROR: x'')"
    using fold_pushLog [of "[]" "replicate 1000 (0::int, ''ERROR: x'')"]
    by (simp only: S logsOf_fold_logProcess e) (simp add: initial_def)
  have t: "tl (replicate 1000 (0::int, ''ERROR: x'')) = replicate 999 (0, ''ERROR: x'')"
    by (simp add: tl_replicate)
  from log_buffer_fifo [OF r, of "''p''" "''m''" "replicate 1500 ''m''" "replicate 1500 (7, ''m'')"]
  show ?thesis using r by (simp only: n l t) simp
qed

section \<open>Properties of the process supervisor\<close>



lemma getProcess_setProcess [frame]:
  "getProcess (setProcess p i s) q = (if q = p then Some i else getProcess s q)"
  by (simp add: getProcess_def setProcess_def update_conv')
lemma getProcess_deleteProcess [frame]:
  "getProcess (deleteProcess p s) q = (if q = p then None else getProcess s q)"
  by (simp add: getProcess_def deleteProcess_def delete_conv')
lemma getProcess_logProcess [frame]: "getProcess (logProcess p m s) q = getProcess s q"
  by (simp add: getProcess_def logProcess_def)
lemma getProcess_resetLogs [frame]: "getProcess (resetLogs p s) q = getProcess s q"
  by (simp add: getProcess_def resetLogs_def)
lemma getProcess_sendSignal [frame]: "getProcess (sendSignal n g s) q = getProcess s q"
  by (simp add: getProcess_def sendSignal_def split: option.splits)
lemma getProcess_setTimeoutDelete [frame]: "getProcess (setTimeoutDelete d p s) q = getProcess s q"
  by (simp add: getProcess_def setTimeoutDelete_def)
lemma getProcess_fold_logProcess [frame]: "getProcess (fold (logProcess p) ms s) q = getProcess s q"
  by (induction ms arbitrary: s) (simp_all add: getProcess_logProcess)

lemma now_setProcess [frame]: "now (setProcess p i s) = now s"
  by (simp add: setProcess_def)
lemma now_resetLogs [frame]: "now (resetLogs p s) = now s"
  by (simp add: resetLogs_def)
lemma now_sendSignal [frame]: "now (sendSignal n g s) = now s"
  by (simp add: sendSignal_def split: option.splits)
lemma now_setTimeoutDelete [frame]: "now (setTimeoutDelete d p s) = now s"
  by (simp add: setTimeoutDelete_def)
lemmas now_log [frame] = now_logProcess now_fold_logProcess

lemma signals_setProcess [frame]: "signals (setProcess p i s) = signals s"
  by (simp add: setProcess_def)
lemma signals_logProcess [frame]: "signals (logProcess p m s) = signals s"
  by (simp add: logProcess_def)
lemma signals_sendSignal [frame]:
  "signals (sendSignal n g s) = (case n of None \<Rightarrow> signals s | Some k \<Rightarrow> signals s @ [(k, g)])"
  by (simp add: sendSignal_def split: option.splits)

lemma timers_setProcess [frame]: "timers (setProcess p i s) = timers s"
  by (simp add: setProcess_def)
lemma timers_logProcess [frame]: "timers (logProcess p m s) = timers s"
  by (simp add: logProcess_def)
lemma timers_sendSignal [frame]: "timers (sendSignal n g s) = timers s"
  by (simp add: sendSignal_def split: option.splits)
lemma timers_fold_logProcess [frame]: "timers (fold (logProcess p) ms s) = timers s"
  by (induction ms arbitrary: s) (simp_all add: timers_logProcess)
lemma timers_setTimeoutDelete [frame]:
  "timers (setTimeoutDelete d p s) = timers s @ [(now s + d, p)]"
  by (simp add: setTimeoutDelete_def)


text \<open>
  Claim C4. When the exit event of a supervised worker fires and its record is in the
  registry, the record gets the end timestamp; with exit code 0 it becomes COMPLETED with
  progress 100, with any other code (or none, when a signal ended the worker) it becomes
  ERROR and its error is the message that carries the exit code and the signal.
\<close>

theorem exit_handler_outcome:
  "getProcess s p = Some i \<Longrightarrow>
     (\<exists>i'. getProcess (onExit p code sig s) p = Some i'
        \<and> endTime i' = Some (now s)
        \<and> (code = Some 0 \<longrightarrow> state i' = COMPLETED \<and> progress i' = 100)
        \<and> (code \<noteq> Some 0 \<longrightarrow> state i' = ERROR
              \<and> error i' = Some (''Process exited with code '' @ showCode code
                                   @ '' (signal: '' @ showSignal sig @ '')'')))"
  by (simp add: onExit_def exitError_def frame)


lemma getProcess_fold_delete:
  "getProcess (fold (\<lambda>(t, p). deleteProcess p) xs s) q
     = (if q \<in> snd ` set xs then None else getProcess s q)"
  by (induction xs arbitrary: s) (auto simp: getProcess_deleteProcess)

lemma getProcess_tick:
  "getProcess (tick d s) q
     = (if q \<in> snd ` {x \<in> set (timers s). fst x \<le> now s + int d} then None else getProcess s q)"
proof -
  have "set (filter (\<lambda>(t, p). t \<le> now s + int d) (timers s))
      = {x \<in> set (timers s). fst x \<le> now s + int d}"
    by auto
  then show ?thesis
    by (simp add: tick_def fireTimers_def getProcess_fold_delete) (simp add: getProcess_def)
qed

lemma paused_ok_startProcess: "paused_ok s \<Longrightarrow> paused_ok (snd (startProcess t ps r c s))"
  by (simp add: paused_ok_def startProcess_def Let_def frame split: option.splits)

lemma paused_ok_stopProcess: "paused_ok s \<Longrightarrow> paused_ok (snd (stopProcess p k c s))"
  by (simp add: paused_ok_def stopProcess_def cleanupProcess_def Let_def frame
      split: option.splits prod.splits)

lemma paused_ok_pauseProcess: "paused_ok s \<Longrightarrow> paused_ok (snd (pauseProcess p k s))"
  by (simp add: paused_ok_def pauseProcess_def frame split: option.splits)

lemma paused_ok_resumeProcess: "paused_ok s \<Longrightarrow> paused_ok (snd (resumeProcess p k s))"
  by (simp add: paused_ok_def resumeProcess_def frame split: option.splits)

lemma paused_ok_updateProcessProgress:
  "paused_ok s \<Longrightarrow> paused_ok (updateProcessProgress p n s)"
  by (simp add: paused_ok_def updateProcessProgress_def Let_def frame split: option.splits)

lemma paused_ok_logProcess: "paused_ok (logProcess p m s) = paused_ok s"
  by (simp add: paused_ok_def frame)

lemma paused_ok_event: "paused_ok s \<Longrightarrow> paused_ok (apply_event e s)"
proof (cases e)
  case (Stdout p out m)
  assume "paused_ok s"
  then show ?thesis
    by (simp add: Stdout onStdout_def Let_def paused_ok_updateProcessProgress paused_ok_logProcess
        split: option.splits)
next
  case (Exit p c g)
  assume "paused_ok s"
  then show ?thesis
    by (simp add: Exit paused_ok_def onExit_def frame split: option.splits)
next
  case (ChildError p m)
  assume "paused_ok s"
  then show ?thesis
    by (simp add: ChildError paused_ok_def onError_def frame split: option.splits)
next
  case (Tick d)
  assume "paused_ok s"
  then show ?thesis
    by (simp add: Tick paused_ok_def getProcess_tick)
qed (simp_all add: paused_ok_startProcess paused_ok_stopProcess paused_ok_pauseProcess
       paused_ok_resumeProcess paused_ok_updateProcessProgress onStderr_def paused_ok_logProcess)

lemma paused_ok_reachable: "reachable s \<Longrightarrow> paused_ok s"
proof (induction rule: reachable.induct)
  case (reachable_initial c t)
  show ?case by (simp add: paused_ok_def getProcess_def initial_def)
next
  case (reachable_event s e)
  then show ?case by (simp add: paused_ok_event)
qed


named_theorems on_literal

lemma getProcess_literal [on_literal]:
  "getProcess \<lparr>activeProcesses = a, processLogs = l, timers = t, signals = g, now = n,
      maxConcurrent = c\<rparr> p = map_of a p"
  by (simp add: getProcess_def)

lemma setProcess_literal [on_literal]:
  "setProcess p i \<lparr>activeProcesses = a, processLogs = l, timers = t, signals = g, now = n,
      maxConcurrent = c\<rparr>
   = \<lparr>activeProcesses = AList.update p i a, processLogs = l, timers = t, signals = g, now = n,
      maxConcurrent = c\<rparr>"
  by (simp add: setProcess_def)

lemma deleteProcess_literal [on_literal]:
  "deleteProcess p \<lparr>activeProcesses = a, processLogs = l, timers = t, signals = g, now = n,
      maxConcurrent = c\<rparr>
   = \<lparr>activeProcesses = AList.delete p a, processLogs = l, timers = t, signals = g, now = n,
      maxConcurrent = c\<rparr>"
  by (simp add: deleteProcess_def)

lemma logsOf_literal [on_literal]:
  "logsOf \<lparr>activeProcesses = a, processLogs = l, timers = t, signals = g, now = n,
      maxConcurrent = c\<rparr> p = (case map_of l p of None \<Rightarrow> [] | Some x \<Rightarrow> x)"
  by (simp add: logsOf_def)

lemma logProcess_literal [on_literal]:
  "logProcess p m \<lparr>activeProcesses = a, processLogs = l, timers = t, signals = g, now = n,
      maxConcurrent = c\<rparr>
   = \<lparr>activeProcesses = a,
      processLogs = AList.update p (pushLog (n, m) (case map_of l p of None \<Rightarrow> [] | Some x \<Rightarrow> x)) l,
      timers = t, signals = g, now = n, maxConcurrent = c\<rparr>"
  by (simp add: logProcess_def logsOf_def)

lemma resetLogs_literal [on_literal]:
  "resetLogs p \<lparr>activeProcesses = a, processLogs = l, timers = t, signals = g, now = n,
      maxConcurrent = c\<rparr>
   = \<lparr>activeProcesses = a, processLogs = AList.update p [] l, timers = t, signals = g, now = n,
      maxConcurrent = c\<rparr>"
  by (simp add: resetLogs_def)

lemma setTimeoutDelete_literal [on_literal]:
  "setTimeoutDelete d p \<lparr>activeProcesses = a, processLogs = l, timers = t, signals = g, now = n,
      maxConcurrent = c\<rparr>
   = \<lparr>activeProcesses = a, processLogs = l, timers = t @ [(n + d, p)], signals = g, now = n,
      maxConcurrent = c\<rparr>"
  by (simp add: setTimeoutDelete_def)

lemma sendSignal_literal [on_literal]:
  "sendSignal (Some k) sg \<lparr>activeProcesses = a, processLogs = l, timers = t, signals = g, now = n,
      maxConcurrent = c\<rparr>
   = \<lparr>activeProcesses = a, processLogs = l, timers = t, signals = g @ [(k, sg)], now = n,
      maxConcurrent = c\<rparr>"
  "sendSignal None sg s = s"
  by (simp_all add: sendSignal_def)

lemma tick_literal [on_literal]:
  "tick d \<lparr>activeProcesses = a, processLogs = l, timers = t, signals = g, now = n,
      maxConcurrent = c\<rparr>
   = fold (\<lambda>(t, p). deleteProcess p) (filter (\<lambda>(t, p). t \<le> n + int d) t)
       \<lparr>activeProcesses = a, processLogs = l, timers = filter (\<lambda>(t, p). \<not> t \<le> n + int d) t,
        signals = g, now = n + int d, maxConcurrent = c\<rparr>"
  by (simp add: tick_def fireTimers_def)

lemma showNat_numeral [on_literal]:
  "showNat (numeral k) = (if (numeral k :: nat) < 10 then [''0123456789'' ! numeral k]
                else showNat (numeral k div 10) @ [''0123456789'' ! (numeral k mod 10)])"
  "showNat 0 = ''0''" "showNat 1 = ''1''"
  by (subst showNat.simps, simp)+

lemmas eval_ops = startProcess_def pauseProcess_def resumeProcess_def stopProcess_def cleanupProcess_def
  cleanupMessages_def onExit_def onError_def exitError_def pausableProcesses_def
  retentionMs_def terminal_def nonTerminalCount_def CapacityExceeded_def
  initial_def configuredMaxConcurrent_def newProcessId_def
  showInt_def showPid_def showCode_def showSignal_def starterMessage_def
  pushLog_def Let_def pidTruthy_def updateProcessProgress_def onStdout_def onStderr_def

lemma example_running_reachable: "reachable example_running"
  unfolding example_running_def
  using reachable_event [OF reachable_initial,
      of "StartProcess ''log-analysis'' [] ''k3x9q2m1z'' (Some 4242)" "Some 1" 0]
  by simp


lemma example_running_eq:
  "example_running = \<lparr>activeProcesses =
    [(example_id,
      \<lparr>ptype = ''log-analysis'', parameters = [], state = RUNNING,
         startTime = 0, updateTime = 0, progress = 0, pid = Some 4242,
         endTime = None, error = None\<rparr>)],
    processLogs =
      [(example_id,
        [(0, ''Process initialization started''),
         (0, ''Initializing log analysis process''),
         (0, ''Process started with PID 4242'')])],
    timers = [], signals = [], now = 0, maxConcurrent = 1\<rparr>"
  by (simp add: example_running_def example_id_def eval_ops on_literal)

lemma example_paused_eq:
  "example_paused = \<lparr>activeProcesses =
    [(example_id,
      \<lparr>ptype = ''log-analysis'', parameters = [], state = PAUSED,
         startTime = 0, updateTime = 0, progress = 0, pid = Some 4242,
         endTime = None, error = None\<rparr>)],
    processLogs =
      [(example_id,
        [(0, ''Process initialization started''),
         (0, ''Initializing log analysis process''),
         (0, ''Process started with PID 4242''),
         (0, ''Process paused'')])],
    timers = [], signals = [(4242, ''SIGSTOP'')], now = 0, maxConcurrent = 1\<rparr>"
  by (simp add: example_paused_def example_running_eq eval_ops on_literal)

lemma example_scan_eq:
  "example_scan = \<lparr>activeProcesses =
    [(example_scan_id,
      \<lparr>ptype = ''malware-scan'', parameters = [], state = RUNNING,
         startTime = 0, updateTime = 0, progress = 0, pid = Some 4243,
         endTime = None, error = None\<rparr>)],
    processLogs =
      [(example_scan_id,
        [(0, ''Process initialization started''),
         (0, ''Initializing malware scan process''),
         (0, ''Process started with PID 4243'')])],
    timers = [], signals = [], now = 0, maxConcurrent = 1\<rparr>"
  by (simp add: example_scan_def example_scan_id_def eval_ops on_literal)

lemma example_failed_eq:
  "example_failed = \<lparr>activeProcesses =
    [(example_id,
      \<lparr>ptype = ''log-analysis'', parameters = [], state = ERROR,
         startTime = 0, updateTime = 0, progress = 0, pid = Some 4242,
         endTime = Some 0, error = Some ''Process exited with code 2 (signal: null)''\<rparr>)],
    processLogs =
      [(example_id,
        [(0, ''Process initialization started''),
         (0, ''Initializing log analysis process''),
         (0, ''Process started with PID 4242''),
         (0, ''Process failed: Exit code 2, Signal null'')])],
    timers = [], signals = [], now = 0, maxConcurrent = 1\<rparr>"
  by (simp add: example_failed_def example_running_eq eval_ops on_literal)

lemma example_completed_eq:
  "example_completed = \<lparr>activeProcesses =
    [(example_id,
      \<lparr>ptype = ''log-analysis'', parameters = [], state = COMPLETED,
         startTime = 0, updateTime = 0, progress = 100, pid = Some 4242,
         endTime = Some 0, error = None\<rparr>)],
    processLogs =
      [(example_id,
        [(0, ''Process initialization started''),
         (0, ''Initializing log analysis process''),
         (0, ''Process started with PID 4242''),
         (0, ''Process completed successfully'')])],
    timers = [], signals = [], now = 0, maxConcurrent = 1\<rparr>"
  by (simp add: example_completed_def example_running_eq eval_ops on_literal)

lemma example_paused_reachable: "reachable example_paused"
  unfolding example_paused_def
  using reachable_event [OF example_running_reachable, of "PauseProcess example_id None"]
  by simp

lemma example_scan_reachable: "reachable example_scan"
  unfolding example_scan_def
  using reachable_event [OF reachable_initial,
      of "StartProcess ''malware-scan'' [] ''w7c1d5r8t'' (Some 4243)" "Some 1" 0]
  by simp


lemma pauseProcess_fails:
  "map_option state (getProcess s p) \<noteq> Some RUNNING \<Longrightarrow> pauseProcess p k s = (False, s)"
  by (auto simp: pauseProcess_def split: option.splits)

lemma resumeProcess_fails:
  "map_option state (getProcess s p) \<noteq> Some PAUSED \<Longrightarrow> resumeProcess p k s = (False, s)"
  by (auto simp: resumeProcess_def split: option.splits)

lemma pauseProcess_unsupported:
  "getProcess s p = Some i \<Longrightarrow> ptype i \<notin> set pausableProcesses \<Longrightarrow>
   pauseProcess p k s = (False, s)"
  by (simp add: pauseProcess_def)

lemma resumeProcess_unsupported:
  assumes "reachable s" and "getProcess s p = Some i" and "ptype i \<notin> set pausableProcesses"
  shows "resumeProcess p k s = (False, s)"
proof -
  from assms(1) have "paused_ok s" by (rule paused_ok_reachable)
  with assms(2,3) have "state i \<noteq> PAUSED" by (auto simp: paused_ok_def)
  with assms(2) show ?thesis by (simp add: resumeProcess_def)
qed

lemma pauseProcess_success:
  assumes "fst (pauseProcess p k s)"
  shows "\<exists>i n. getProcess s p = Some i \<and> state i = RUNNING \<and> ptype i \<in> set pausableProcesses
           \<and> pid i = Some n
           \<and> signals (snd (pauseProcess p k s)) = signals s @ [(n, ''SIGSTOP'')]
           \<and> map_option state (getProcess (snd (pauseProcess p k s)) p) = Some PAUSED"
  using assms
  by (auto simp: pauseProcess_def pidTruthy_def frame split: option.splits if_splits)

lemma resumeProcess_success:
  assumes "fst (resumeProcess p k s)"
  shows "\<exists>i n. getProcess s p = Some i \<and> state i = PAUSED
           \<and> pid i = Some n
           \<and> signals (snd (resumeProcess p k s)) = signals s @ [(n, ''SIGCONT'')]
           \<and> map_option state (getProcess (snd (resumeProcess p k s)) p) = Some RUNNING"
  using assms
  by (auto simp: resumeProcess_def pidTruthy_def frame split: option.splits if_splits)

lemma paused_only_from_running:
  assumes "getProcess (apply_event e s) q = Some i'" and "state i' = PAUSED"
  shows "\<exists>i. getProcess s q = Some i \<and> ptype i = ptype i'
           \<and> (state i = PAUSED \<or> state i = RUNNING \<and> ptype i \<in> set pausableProcesses)"
proof (cases e)
  case (StartProcess t ps r c)
  with assms show ?thesis
    by (auto simp: startProcess_def Let_def frame split: option.splits if_splits)
next
  case (StopProcess p k c)
  with assms show ?thesis
    by (auto simp: stopProcess_def cleanupProcess_def Let_def frame
        split: option.splits if_splits prod.splits)
next
  case (PauseProcess p k)
  with assms show ?thesis
    by (auto simp: pauseProcess_def frame split: option.splits if_splits)
next
  case (ResumeProcess p k)
  with assms show ?thesis
    by (auto simp: resumeProcess_def frame split: option.splits if_splits)
next
  case (UpdateProgress p n)
  with assms show ?thesis
    by (auto simp: updateProcessProgress_def Let_def frame split: option.splits if_splits)
next
  case (Stdout p out m)
  with assms show ?thesis
    by (auto simp: onStdout_def updateProcessProgress_def Let_def frame
        split: option.splits if_splits)
next
  case (Stderr p m)
  with assms show ?thesis by (simp add: onStderr_def frame)
next
  case (Exit p c g)
  with assms show ?thesis
    by (auto simp: onExit_def frame split: option.splits if_splits)
next
  case (ChildError p m)
  with assms show ?thesis
    by (auto simp: onError_def frame split: option.splits if_splits)
next
  case (Tick d)
  with assms show ?thesis
    by (auto simp: getProcess_tick split: if_splits)
qed

text \<open>
  Claim C6. In every reachable state of the supervisor: \<open>pauseProcess\<close> fails (returns
  false, nothing changes) unless the record exists in state RUNNING, \<open>resumeProcess\<close>
  fails unless it exists in state PAUSED, and both fail for a record whose type is not
  one of disk-imaging, network-capture, log-analysis. When either succeeds the signal
  (SIGSTOP, SIGCONT) has been sent to the record's pid and the state is PAUSED, RUNNING.
  No event makes a record PAUSED unless it was PAUSED or RUNNING before and its type is
  pausable.
\<close>

theorem pause_resume_guards:
  "reachable s \<Longrightarrow>
     (map_option state (getProcess s p) \<noteq> Some RUNNING \<longrightarrow> pauseProcess p k s = (False, s))
   \<and> (map_option state (getProcess s p) \<noteq> Some PAUSED \<longrightarrow> resumeProcess p k s = (False, s))
   \<and> (\<forall>i. getProcess s p = Some i \<and> ptype i \<notin> set pausableProcesses \<longrightarrow>
          pauseProcess p k s = (False, s) \<and> resumeProcess p k s = (False, s))
   \<and> (fst (pauseProcess p k s) \<longrightarrow>
        (\<exists>i n. getProcess s p = Some i \<and> state i = RUNNING \<and> ptype i \<in> set pausableProcesses
           \<and> pid i = Some n
           \<and> signals (snd (pauseProcess p k s)) = signals s @ [(n, ''SIGSTOP'')]
           \<and> map_option state (getProcess (snd (pauseProcess p k s)) p) = Some PAUSED))
   \<and> (fst (resumeProcess p k s) \<longrightarrow>
        (\<exists>i n. getProcess s p = Some i \<and> state i = PAUSED \<and> ptype i \<in> set pausableProcesses
           \<and> pid i = Some n
           \<and> signals (snd (resumeProcess p k s)) = signals s @ [(n, ''SIGCONT'')]
           \<and> map_option state (getProcess (snd (resumeProcess p k s)) p) = Some RUNNING))
   \<and> (\<forall>i'. getProcess (apply_event e s) p = Some i' \<and> state i' = PAUSED \<longrightarrow>
        (\<exists>i. getProcess s p = Some i \<and> ptype i = ptype i' \<and> ptype i \<in> set pausableProcesses
           \<and> (state i = PAUSED \<or> state i = RUNNING)))"
proof -
  assume r: "reachable s"
  have c3: "\<forall>i. getProcess s p = Some i \<and> ptype i \<notin> set pausableProcesses \<longrightarrow>
          pauseProcess p k s = (False, s) \<and> resumeProcess p k s = (False, s)"
    using pauseProcess_unsupported resumeProcess_unsupported [OF r] by blast
  have c5: "fst (resumeProcess p k s) \<longrightarrow>
        (\<exists>i n. getProcess s p = Some i \<and> state i = PAUSED \<and> ptype i \<in> set pausableProcesses
           \<and> pid i = Some n
           \<and> signals (snd (resumeProcess p k s)) = signals s @ [(n, ''SIGCONT'')]
           \<and> map_option state (getProcess (snd (resumeProcess p k s)) p) = Some RUNNING)"
  proof
    assume "fst (resumeProcess p k s)"
    from resumeProcess_success [OF this] obtain i n where
      h: "getProcess s p = Some i" "state i = PAUSED" "pid i = Some n"
         "signals (snd (resumeProcess p k s)) = signals s @ [(n, ''SIGCONT'')]"
         "map_option state (getProcess (snd (resumeProcess p k s)) p) = Some RUNNING"
      by blast
    from paused_ok_reachable [OF r] h(1,2) have "ptype i \<in> set pausableProcesses"
      by (auto simp: paused_ok_def)
    with h show "\<exists>i n. getProcess s p = Some i \<and> state i = PAUSED
           \<and> ptype i \<in> set pausableProcesses \<and> pid i = Some n
           \<and> signals (snd (resumeProcess p k s)) = signals s @ [(n, ''SIGCONT'')]
           \<and> map_option state (getProcess (snd (resumeProcess p k s)) p) = Some RUNNING"
      by blast
  qed
  have c6: "\<forall>i'. getProcess (apply_event e s) p = Some i' \<and> state i' = PAUSED \<longrightarrow>
        (\<exists>i. getProcess s p = Some i \<and> ptype i = ptype i' \<and> ptype i \<in> set pausableProcesses
           \<and> (state i = PAUSED \<or> state i = RUNNING))"
  proof (intro allI impI)
    fix i' assume a: "getProcess (apply_event e s) p = Some i' \<and> state i' = PAUSED"
    then obtain i where
      h: "getProcess s p = Some i" "ptype i = ptype i'"
         "state i = PAUSED \<or> state i = RUNNING \<and> ptype i \<in> set pausableProcesses"
      using paused_only_from_running by blast
    from paused_ok_reachable [OF r] h(1) have "state i = PAUSED \<longrightarrow> ptype i \<in> set pausableProcesses"
      by (auto simp: paused_ok_def)
    with h show "\<exists>i. getProcess s p = Some i \<and> ptype i = ptype i'
        \<and> ptype i \<in> set pausableProcesses \<and> (state i = PAUSED \<or> state i = RUNNING)"
      by blast
  qed
  show ?thesis
    using pauseProcess_fails [of s p k] resumeProcess_fails [of s p k] c3
      pauseProcess_success [of p k s] c5 c6
    by blast
qed




text \<open>
  Pause and resume on the log-analysis worker, and both refused on the malware scan.
\<close>

theorem pause_resume_guards_witness:
  "reachable example_running
   \<and> fst (pauseProcess example_id None example_running)
   \<and> signals (snd (pauseProcess example_id None example_running)) = [(4242, ''SIGSTOP'')]
   \<and> map_option state (getProcess (snd (pauseProcess example_id None example_running)) example_id)
       = Some PAUSED
   \<and> resumeProcess example_id None example_running = (False, example_running)
   \<and> reachable example_paused
   \<and> fst (resumeProcess example_id None example_paused)
   \<and> signals (snd (resumeProcess example_id None example_paused))
       = [(4242, ''SIGSTOP''), (4242, ''SIGCONT'')]
   \<and> map_option state (getProcess (snd (resumeProcess example_id None example_paused)) example_id)
       = Some RUNNING
   \<and> pauseProcess example_id None example_paused = (False, example_paused)
   \<and> reachable example_scan
   \<and> pauseProcess example_scan_id None example_scan = (False, example_scan)
   \<and> resumeProcess example_scan_id None example_scan = (False, example_scan)"
proof -
  have a: "fst (pauseProcess example_id None example_running)"
    by (simp add: example_running_eq eval_ops on_literal)
  have b: "fst (resumeProcess example_id None example_paused)"
    by (simp add: example_paused_eq eval_ops on_literal)
  have g: "getProcess example_running example_id = Some
      \<lparr>ptype = ''log-analysis'', parameters = [], state = RUNNING,
         startTime = 0, updateTime = 0, progress = 0, pid = Some 4242,
         endTime = None, error = None\<rparr>"
    and gs: "signals example_running = []"
    by (simp_all add: example_running_eq on_literal)
  have h: "getProcess example_paused example_id = Some
      \<lparr>ptype = ''log-analysis'', parameters = [], state = PAUSED,
         startTime = 0, updateTime = 0, progress = 0, pid = Some 4242,
         endTime = None, error = None\<rparr>"
    and hs: "signals example_paused = [(4242, ''SIGSTOP'')]"
    by (simp_all add: example_paused_eq on_literal)
  have e: "getProcess example_scan example_scan_id = Some
      \<lparr>ptype = ''malware-scan'', parameters = [], state = RUNNING,
         startTime = 0, updateTime = 0, progress = 0, pid = Some 4243,
         endTime = None, error = None\<rparr>"
    by (simp add: example_scan_eq on_literal)
  have f: "''malware-scan'' \<notin> set pausableProcesses"
    by (simp add: pausableProcesses_def)
  note T1 = pause_resume_guards [OF example_running_reachable, of example_id None "Tick 0"]
  note T2 = pause_resume_guards [OF example_paused_reachable, of example_id None "Tick 0"]
  note T3 = pause_resume_guards [OF example_scan_reachable, of example_scan_id None "Tick 0"]
  from T1 [THEN conjunct2, THEN conjunct2, THEN conjunct2, THEN conjunct1, rule_format, OF a]
  obtain i n where "getProcess example_running example_id = Some i" "pid i = Some n"
      "signals (snd (pauseProcess example_id None example_running))
          = signals example_running @ [(n, ''SIGSTOP'')]"
      "map_option state (getProcess (snd (pauseProcess example_id None example_running)) example_id)
          = Some PAUSED"
    by blast
  with g gs have p1: "signals (snd (pauseProcess example_id None example_running))
          = [(4242, ''SIGSTOP'')]"
      "map_option state (getProcess (snd (pauseProcess example_id None example_running)) example_id)
          = Some PAUSED"
    by auto
  have p2: "resumeProcess example_id None example_running = (False, example_running)"
    by (rule T1 [THEN conjunct2, THEN conjunct1, rule_format]) (simp add: g)
  from T2 [THEN conjunct2, THEN conjunct2, THEN conjunct2, THEN conjunct2, THEN conjunct1,
      rule_format, OF b]
  obtain i n where "getProcess example_paused example_id = Some i" "pid i = Some n"
      "signals (snd (resumeProcess example_id None example_paused))
          = signals example_paused @ [(n, ''SIGCONT'')]"
      "map_option state (getProcess (snd (resumeProcess example_id None example_paused)) example_id)
          = Some RUNNING"
    by blast
  with h hs have p3: "signals (snd (resumeProcess example_id None example_paused))
          = [(4242, ''SIGSTOP''), (4242, ''SIGCONT'')]"
      "map_option state (getProcess (snd (resumeProcess example_id None example_paused)) example_id)
          = Some RUNNING"
    by auto
  have p4: "pauseProcess example_id None example_paused = (False, example_paused)"
    by (rule T2 [THEN conjunct1, rule_format]) (simp add: h)
  have p5: "pauseProcess example_scan_id None example_scan = (False, example_scan)
      \<and> resumeProcess example_scan_id None example_scan = (False, example_scan)"
    using T3 [THEN conjunct2, THEN conjunct2, THEN conjunct1, THEN spec,
        of "\<lparr>ptype = ''malware-scan'', parameters = [], state = RUNNING,
         startTime = 0, updateTime = 0, progress = 0, pid = Some 4243,
         endTime = None, error = None\<rparr>"] e f
    by simp
  show ?thesis
    by (intro conjI example_running_reachable example_paused_reachable example_scan_reachable
        a b p1 p2 p3 p4 p5 [THEN conjunct1] p5 [THEN conjunct2])
qed

lemma state_after_pauseProcess:
  "getProcess s p = Some i \<Longrightarrow> terminal (state i) \<Longrightarrow>
   map_option state (getProcess (snd (pauseProcess q k s)) p) = Some (state i)"
  by (auto simp: pauseProcess_def terminal_def frame split: option.splits)

lemma state_after_resumeProcess:
  "getProcess s p = Some i \<Longrightarrow> terminal (state i) \<Longrightarrow>
   map_option state (getProcess (snd (resumeProcess q k s)) p) = Some (state i)"
  by (auto simp: resumeProcess_def terminal_def frame split: option.splits)

lemma state_after_updateProcessProgress:
  "getProcess s p = Some i \<Longrightarrow>
   map_option state (getProcess (updateProcessProgress q n s) p) = Some (state i)"
  by (auto simp: updateProcessProgress_def Let_def frame split: option.splits)

lemma state_after_onStdout:
  assumes "getProcess s p = Some i"
  shows "map_option state (getProcess (onStdout q out m s) p) = Some (state i)"
proof -
  have "getProcess (logProcess q out s) p = Some i"
    using assms by (simp add: frame)
  from state_after_updateProcessProgress [OF this] show ?thesis
    using assms by (cases m) (simp_all add: onStdout_def Let_def frame)
qed

text \<open>
  The guarded operations. For a record in a terminal state, \<open>pauseProcess\<close> and
  \<open>resumeProcess\<close> (on it or on any other id), \<open>updateProcessProgress\<close> and the
  output-stream callbacks of the monitor leave its lifecycle state as it is.
\<close>

theorem terminal_state_kept:
  "getProcess s p = Some i \<Longrightarrow> terminal (state i) \<Longrightarrow>
     pauseProcess p k s = (False, s)
   \<and> resumeProcess p k s = (False, s)
   \<and> map_option state (getProcess (snd (pauseProcess q k s)) p) = Some (state i)
   \<and> map_option state (getProcess (snd (resumeProcess q k s)) p) = Some (state i)
   \<and> map_option state (getProcess (updateProcessProgress q n s) p) = Some (state i)
   \<and> map_option state (getProcess (onStdout q out m s) p) = Some (state i)
   \<and> map_option state (getProcess (onStderr q err s) p) = Some (state i)"
proof -
  assume a: "getProcess s p = Some i" and t: "terminal (state i)"
  from a t have "map_option state (getProcess s p) \<noteq> Some RUNNING"
    and "map_option state (getProcess s p) \<noteq> Some PAUSED"
    by (auto simp: terminal_def)
  then have "pauseProcess p k s = (False, s)" and "resumeProcess p k s = (False, s)"
    by (simp_all add: pauseProcess_fails resumeProcess_fails)
  moreover have "map_option state (getProcess (onStderr q err s) p) = Some (state i)"
    using a by (simp add: onStderr_def frame)
  ultimately show ?thesis
    using state_after_pauseProcess [OF a t] state_after_resumeProcess [OF a t]
      state_after_updateProcessProgress [OF a] state_after_onStdout [OF a]
    by simp
qed






text \<open>
  The failed log-analysis record keeps ERROR under these operations.
\<close>

theorem terminal_state_kept_witness:
  "getProcess example_failed example_id = Some
      \<lparr>ptype = ''log-analysis'', parameters = [], state = ERROR,
         startTime = 0, updateTime = 0, progress = 0, pid = Some 4242,
         endTime = Some 0, error = Some ''Process exited with code 2 (signal: null)''\<rparr>
   \<and> terminal ERROR
   \<and> pauseProcess example_id None example_failed = (False, example_failed)
   \<and> resumeProcess example_id None example_failed = (False, example_failed)
   \<and> map_option state
        (getProcess (updateProcessProgress example_id 50 example_failed) example_id) = Some ERROR
   \<and> map_option state
        (getProcess (onStdout example_id ''progress: 50'' (Some 50) example_failed) example_id)
       = Some ERROR
   \<and> map_option state (getProcess (onStderr example_id ''late'' example_failed) example_id)
       = Some ERROR"
proof -
  have g: "getProcess example_failed example_id = Some
      \<lparr>ptype = ''log-analysis'', parameters = [], state = ERROR,
         startTime = 0, updateTime = 0, progress = 0, pid = Some 4242,
         endTime = Some 0, error = Some ''Process exited with code 2 (signal: null)''\<rparr>"
    by (simp add: example_failed_eq on_literal)
  have st: "state \<lparr>ptype = ''log-analysis'', parameters = [], state = ERROR,
         startTime = 0, updateTime = 0, progress = 0, pid = Some 4242,
         endTime = Some 0, error = Some ''Process exited with code 2 (signal: null)''\<rparr> = ERROR"
    by simp
  have te: "terminal ERROR" by (simp add: terminal_def)
  have t: "terminal (state \<lparr>ptype = ''log-analysis'', parameters = [], state = ERROR,
         startTime = 0, updateTime = 0, progress = 0, pid = Some 4242,
         endTime = Some 0, error = Some ''Process exited with code 2 (signal: null)''\<rparr>)"
    by (simp only: st te)
  note T = terminal_state_kept [OF g t, of None example_id 50 "''progress: 50''" "Some 50" "''late''",
      unfolded st]
  show ?thesis
    by (intro conjI g te T [THEN conjunct1] T [THEN conjunct2, THEN conjunct1]
        T [THEN conjunct2, THEN conjunct2, THEN conjunct2, THEN conjunct2, THEN conjunct1]
        T [THEN conjunct2, THEN conjunct2, THEN conjunct2, THEN conjunct2, THEN conjunct2,
           THEN conjunct1]
        T [THEN conjunct2, THEN conjunct2, THEN conjunct2, THEN conjunct2, THEN conjunct2,
           THEN conjunct2])
qed

text \<open>
  Claim C3 at a failing input. \<open>stopProcess\<close> on the running log-analysis worker
  kills it and leaves the record COMPLETED, a terminal state; the exit event of the killed
  worker (no exit code, signal SIGTERM) then makes the same record ERROR. And
  \<open>stopProcess\<close> on the record of the worker that had exited with code 2, which is in
  ERROR, makes it COMPLETED.
\<close>

theorem terminal_state_rewritten:
  "map_option state (getProcess example_running example_id) = Some RUNNING
   \<and> fst (stopProcess example_id None None example_running)
   \<and> signals (snd (stopProcess example_id None None example_running)) = [(4242, ''SIGTERM'')]
   \<and> map_option state (getProcess (snd (stopProcess example_id None None example_running)) example_id)
       = Some COMPLETED
   \<and> map_option state
        (getProcess
           (onExit example_id None (Some ''SIGTERM'')
              (snd (stopProcess example_id None None example_running)))
           example_id)
       = Some ERROR
   \<and> map_option state (getProcess example_failed example_id) = Some ERROR
   \<and> fst (stopProcess example_id None None example_failed)
   \<and> map_option state (getProcess (snd (stopProcess example_id None None example_failed)) example_id)
       = Some COMPLETED"
  by (simp add: example_running_eq example_failed_eq eval_ops on_literal)

text \<open>
  The exit handler on the running log-analysis worker: code 0, code 2 with a signal, and
  no code.
\<close>

theorem exit_handler_outcome_witness:
  "getProcess example_running example_id = Some
      \<lparr>ptype = ''log-analysis'', parameters = [], state = RUNNING,
         startTime = 0, updateTime = 0, progress = 0, pid = Some 4242,
         endTime = None, error = None\<rparr>
   \<and> (\<exists>i'. getProcess (onExit example_id (Some 0) None example_running) example_id = Some i'
          \<and> endTime i' = Some 0 \<and> state i' = COMPLETED \<and> progress i' = 100)
   \<and> (\<exists>i'. getProcess (onExit example_id (Some 2) (Some ''SIGTERM'') example_running) example_id
            = Some i'
          \<and> endTime i' = Some 0 \<and> state i' = ERROR
          \<and> error i' = Some ''Process exited with code 2 (signal: SIGTERM)'')
   \<and> (\<exists>i'. getProcess (onExit example_id None (Some ''SIGKILL'') example_running) example_id
            = Some i'
          \<and> endTime i' = Some 0 \<and> state i' = ERROR
          \<and> error i' = Some ''Process exited with code null (signal: SIGKILL)'')"
proof -
  have g: "getProcess example_running example_id = Some
      \<lparr>ptype = ''log-analysis'', parameters = [], state = RUNNING,
         startTime = 0, updateTime = 0, progress = 0, pid = Some 4242,
         endTime = None, error = None\<rparr>"
    and n: "now example_running = 0"
    by (simp_all add: example_running_eq on_literal)
  have c: "showCode (Some 2) = ''2''" "showCode None = ''null''"
      "showSignal (Some ''SIGTERM'') = ''SIGTERM''" "showSignal (Some ''SIGKILL'') = ''SIGKILL''"
    by (simp_all add: showCode_def showSignal_def showInt_def on_literal)
  from exit_handler_outcome [OF g, of "Some 0" None]
       exit_handler_outcome [OF g, of "Some 2" "Some ''SIGTERM''"]
       exit_handler_outcome [OF g, of None "Some ''SIGKILL''"]
  show ?thesis by (simp add: g n c)
qed

text \<open>
  Claim C5 as stated fails: when terminating the worker throws, \<open>stopProcess\<close> still
  returns true and leaves the record COMPLETED, not ERROR.
\<close>

theorem stopProcess_kill_failure_counterexample:
  "getProcess example_running example_id \<noteq> None
   \<and> fst (stopProcess example_id (Some ''kill ESRCH'') None example_running)
   \<and> map_option state
        (getProcess (snd (stopProcess example_id (Some ''kill ESRCH'') None example_running))
           example_id)
       = Some COMPLETED"
  by (simp add: example_running_eq eval_ops on_literal)

lemma stopProcess_result:
  "getProcess s p = Some i \<Longrightarrow>
   getProcess (snd (stopProcess p k c s)) p
     = (case c of
          None \<Rightarrow> Some (i\<lparr>state := COMPLETED, updateTime := now s, endTime := Some (now s),
                          progress := 100\<rparr>)
        | Some e \<Rightarrow> Some (i\<lparr>state := ERROR, error := Some e, updateTime := now s\<rparr>))
   \<and> fst (stopProcess p k c s) = (c = None)"
  by (simp add: stopProcess_def cleanupProcess_def Let_def frame split: option.splits)

text \<open>
  Claim C5, amended. For an existing record, \<open>stopProcess\<close> leaves it in a terminal
  state, never in RUNNING, PAUSED or STOPPING: unless cleanup raises a condition it sets
  COMPLETED, progress 100 and the end timestamp and returns true, whether or not
  terminating the worker threw; if cleanup raises a condition it sets ERROR with the
  message captured and returns false.
\<close>

theorem stopProcess_terminal:
  "getProcess s p = Some i \<Longrightarrow>
     (\<exists>i'. getProcess (snd (stopProcess p k c s)) p = Some i'
        \<and> (c = None \<longrightarrow> fst (stopProcess p k c s) \<and> state i' = COMPLETED
              \<and> progress i' = 100 \<and> endTime i' = Some (now s))
        \<and> (\<forall>e. c = Some e \<longrightarrow> \<not> fst (stopProcess p k c s) \<and> state i' = ERROR
              \<and> error i' = Some e)
        \<and> terminal (state i')
        \<and> state i' \<noteq> RUNNING \<and> state i' \<noteq> PAUSED \<and> state i' \<noteq> STOPPING)"
  using stopProcess_result [of s p i k c]
  by (cases c) (auto simp: terminal_def)

text \<open>
  Stopping the paused log-analysis worker, once with a failing kill and once with a
  failing cleanup.
\<close>

theorem stopProcess_terminal_witness:
  "getProcess example_paused example_id = Some
      \<lparr>ptype = ''log-analysis'', parameters = [], state = PAUSED,
         startTime = 0, updateTime = 0, progress = 0, pid = Some 4242,
         endTime = None, error = None\<rparr>
   \<and> (\<exists>i'. getProcess (snd (stopProcess example_id (Some ''kill ESRCH'') None example_paused))
              example_id = Some i'
          \<and> fst (stopProcess example_id (Some ''kill ESRCH'') None example_paused)
          \<and> state i' = COMPLETED \<and> progress i' = 100 \<and> endTime i' = Some 0)
   \<and> (\<exists>i'. getProcess (snd (stopProcess example_id None (Some ''disk full'') example_paused))
              example_id = Some i'
          \<and> \<not> fst (stopProcess example_id None (Some ''disk full'') example_paused)
          \<and> state i' = ERROR \<and> error i' = Some ''disk full'')"
proof -
  have g: "getProcess example_paused example_id = Some
      \<lparr>ptype = ''log-analysis'', parameters = [], state = PAUSED,
         startTime = 0, updateTime = 0, progress = 0, pid = Some 4242,
         endTime = None, error = None\<rparr>"
    and n: "now example_paused = 0"
    by (simp_all add: example_paused_eq on_literal)
  from stopProcess_terminal [OF g, of "Some ''kill ESRCH''" None]
       stopProcess_terminal [OF g, of None "Some ''disk full''"]
  show ?thesis by (simp add: g n) blast
qed

lemma keys_distinct_setProcess: "keys_distinct s \<Longrightarrow> keys_distinct (setProcess p i s)"
  by (simp add: keys_distinct_def setProcess_def distinct_update)

lemma keys_distinct_deleteProcess: "keys_distinct s \<Longrightarrow> keys_distinct (deleteProcess p s)"
  by (simp add: keys_distinct_def deleteProcess_def distinct_delete)

lemma keys_distinct_logProcess: "keys_distinct (logProcess p m s) = keys_distinct s"
  by (simp add: keys_distinct_def logProcess_def)

lemma keys_distinct_fold_logProcess: "keys_distinct (fold (logProcess p) ms s) = keys_distinct s"
  by (induction ms arbitrary: s) (simp_all add: keys_distinct_logProcess)

lemma keys_distinct_resetLogs: "keys_distinct (resetLogs p s) = keys_distinct s"
  by (simp add: keys_distinct_def resetLogs_def)

lemma keys_distinct_sendSignal: "keys_distinct (sendSignal n g s) = keys_distinct s"
  by (simp add: keys_distinct_def sendSignal_def split: option.splits)

lemma keys_distinct_setTimeoutDelete: "keys_distinct (setTimeoutDelete d p s) = keys_distinct s"
  by (simp add: keys_distinct_def setTimeoutDelete_def)

lemma keys_distinct_fold_delete:
  "keys_distinct s \<Longrightarrow> keys_distinct (fold (\<lambda>(t, p). deleteProcess p) xs s)"
  by (induction xs arbitrary: s) (auto simp: keys_distinct_deleteProcess)

lemmas keys_distinct_frame = keys_distinct_setProcess keys_distinct_deleteProcess
  keys_distinct_logProcess keys_distinct_fold_logProcess keys_distinct_resetLogs
  keys_distinct_sendSignal keys_distinct_setTimeoutDelete keys_distinct_fold_delete

lemma keys_distinct_event: "keys_distinct s \<Longrightarrow> keys_distinct (apply_event e s)"
proof (cases e)
  case (Tick d)
  assume "keys_distinct s"
  then have "keys_distinct (s\<lparr>now := now s + int d,
      timers := filter (\<lambda>(t, p). \<not> t \<le> now s + int d) (timers s)\<rparr>)"
    by (simp add: keys_distinct_def)
  then show ?thesis
    by (simp add: Tick tick_def fireTimers_def keys_distinct_fold_delete)
qed (simp_all add: startProcess_def stopProcess_def cleanupProcess_def pauseProcess_def
      resumeProcess_def updateProcessProgress_def onStdout_def onStderr_def onExit_def
      onError_def Let_def keys_distinct_frame split: option.splits prod.splits)

text \<open>
  In every reachable state the registry holds each id once: its length is the size of
  the map that \<open>startProcess\<close> compares with the cap.
\<close>

lemma keys_distinct_reachable: "reachable s \<Longrightarrow> keys_distinct s"
proof (induction rule: reachable.induct)
  case (reachable_initial c t)
  show ?case by (simp add: keys_distinct_def initial_def)
next
  case (reachable_event s e)
  then show ?case by (simp add: keys_distinct_event)
qed

lemma startProcess_capacity:
  "fst (startProcess t ps r c s) = Inl CapacityExceeded
     \<longleftrightarrow> maxConcurrent s \<le> length (activeProcesses s)"
  by (simp add: startProcess_def Let_def CapacityExceeded_def split: option.splits)

text \<open>
  Claim C1 at a failing input. With a cap of one concurrent process and a registry whose
  only record is COMPLETED, no record is in a non-terminal state, and \<open>startProcess\<close>
  is nevertheless refused with the capacity error: the check compares the size of the
  registry with the cap.
\<close>

theorem capacity_counts_terminal_records:
  "maxConcurrent example_completed = 1
   \<and> map_option state (getProcess example_completed example_id) = Some COMPLETED
   \<and> nonTerminalCount example_completed = 0
   \<and> startProcess ''disk-imaging'' [] ''p4v8n2b6x'' (Some 4250) example_completed
       = (Inl CapacityExceeded, example_completed)"
  by (simp add: example_completed_eq eval_ops on_literal)

text \<open>
  Claim C8 at a failing input. A record completed by the worker's exit event has no
  removal pending and is still in the registry two hours later, while the record
  completed by \<open>stopProcess\<close> has its removal pending at one hour and is gone then.
\<close>

theorem exit_schedules_no_removal:
  "map_option state (getProcess example_completed example_id) = Some COMPLETED
   \<and> timers example_completed = []
   \<and> map_option state (getProcess (tick 7200000 example_completed) example_id) = Some COMPLETED
   \<and> timers (snd (stopProcess example_id None None example_running)) = [(3600000, example_id)]
   \<and> getProcess (tick 3599999 (snd (stopProcess example_id None None example_running))) example_id
       \<noteq> None
   \<and> getProcess (tick 3600000 (snd (stopProcess example_id None None example_running))) example_id
       = None"
  by (simp add: example_completed_eq example_running_eq eval_ops on_literal)

section \<open>Properties of the rule evaluator\<close>

lemma ruleOffHourKeyExtraction_append:
  "ruleOffHourKeyExtraction (xs @ ys) = ruleOffHourKeyExtraction xs @ ruleOffHourKeyExtraction ys"
  by (simp add: ruleOffHourKeyExtraction_def)

lemma getHour_range: "getHour (Some t) = Some h \<Longrightarrow> 0 \<le> h \<and> h < 24"
  by (auto simp: getHour_def)

text \<open>
  Claim C10. For an artifact record of the key-extraction type (\<open>serpent_xts_key\<close>) with a
  valid timestamp, the off-hours rule writes exactly one alert, naming the record's
  snapshot, if the UTC hour of the timestamp is below 8 or at least 18, and none if the
  hour is from 8 to 17; the alerts of a list of records are those of its records, one
  after the other. A record of any other type gives no alert.
\<close>

theorem off_hours_rule:
  "artifact_type a = ''serpent_xts_key'' \<Longrightarrow> timestamp a = Some t \<Longrightarrow>
   h = (t div 3600000) mod 24 \<Longrightarrow>
     (h < 8 \<or> h \<ge> 18 \<longrightarrow>
        ruleOffHourKeyExtraction [a]
          = [''[Alert] Key extracted at off-hours ('' @ showInt h @ ''h): snapshot='' @ snapshot_id a])
   \<and> (8 \<le> h \<and> h < 18 \<longrightarrow> ruleOffHourKeyExtraction [a] = [])
   \<and> (length (ruleOffHourKeyExtraction [a]) = 1 \<longleftrightarrow> h < 8 \<or> h \<ge> 18)
   \<and> ruleOffHourKeyExtraction (xs @ a # ys)
       = ruleOffHourKeyExtraction xs @ ruleOffHourKeyExtraction [a] @ ruleOffHourKeyExtraction ys
   \<and> (artifact_type b \<noteq> ''serpent_xts_key'' \<longrightarrow> ruleOffHourKeyExtraction [b] = [])"
proof -
  assume a: "artifact_type a = ''serpent_xts_key''" "timestamp a = Some t"
    "h = (t div 3600000) mod 24"
  have one: "ruleOffHourKeyExtraction [a]
      = (if h < 8 \<or> h \<ge> 18 then [offHoursAlert h (snapshot_id a)] else [])"
    using a
    by (simp add: ruleOffHourKeyExtraction_def getHour_def WORK_HOUR_START_def WORK_HOUR_END_def)
  have app: "ruleOffHourKeyExtraction (xs @ a # ys)
       = ruleOffHourKeyExtraction xs @ ruleOffHourKeyExtraction [a] @ ruleOffHourKeyExtraction ys"
    using ruleOffHourKeyExtraction_append [of xs "[a] @ ys"]
      ruleOffHourKeyExtraction_append [of "[a]" ys]
    by simp
  have other: "artifact_type b \<noteq> ''serpent_xts_key'' \<longrightarrow> ruleOffHourKeyExtraction [b] = []"
    by (simp add: ruleOffHourKeyExtraction_def)
  show ?thesis
    using one app other by (auto simp: offHoursAlert_def)
qed

text \<open>The rule on keys taken at 03:30, 10:00 and 18:00 UTC, and on another artifact.\<close>

theorem off_hours_rule_witness:
  "artifact_type example_night_key = ''serpent_xts_key''
   \<and> timestamp example_night_key = Some 1705289400000
   \<and> (1705289400000 div 3600000) mod 24 = (3::int)
   \<and> ruleOffHourKeyExtraction [example_night_key]
       = [''[Alert] Key extracted at off-hours (3h): snapshot=snap-0042'']
   \<and> (1705312800000 div 3600000) mod 24 = (10::int)
   \<and> ruleOffHourKeyExtraction [example_day_key] = []
   \<and> (1705341600000 div 3600000) mod 24 = (18::int)
   \<and> ruleOffHourKeyExtraction [example_evening_key]
       = [''[Alert] Key extracted at off-hours (18h): snapshot=snap-0044'']
   \<and> ruleOffHourKeyExtraction [example_day_key, example_other, example_night_key]
       = [''[Alert] Key extracted at off-hours (3h): snapshot=snap-0042'']"
proof -
  have s: "showInt 3 = ''3''" "showInt 18 = ''18''"
    by (simp_all add: showInt_def showNat.simps)
  have n: "artifact_type example_night_key = ''serpent_xts_key''"
      "timestamp example_night_key = Some 1705289400000"
      "snapshot_id example_night_key = ''snap-0042''"
    by (simp_all add: example_night_key_def)
  have d: "artifact_type example_day_key = ''serpent_xts_key''"
      "timestamp example_day_key = Some 1705312800000"
    by (simp_all add: example_day_key_def)
  have e: "artifact_type example_evening_key = ''serpent_xts_key''"
      "timestamp example_evening_key = Some 1705341600000"
      "snapshot_id example_evening_key = ''snap-0044''"
    by (simp_all add: example_evening_key_def)
  have o: "artifact_type example_other \<noteq> ''serpent_xts_key''"
    by (simp add: example_other_def)
  have h: "(1705289400000 div 3600000) mod 24 = (3::int)"
      "(1705312800000 div 3600000) mod 24 = (10::int)"
      "(1705341600000 div 3600000) mod 24 = (18::int)"
    by simp_all
  note N = off_hours_rule [OF n(1,2) h(1) [symmetric], of "[example_day_key, example_other]" "[]" example_other]
  note D = off_hours_rule [OF d(1,2) h(2) [symmetric], of "[]" "[]" example_other]
  note E = off_hours_rule [OF e(1,2) h(3) [symmetric], of "[]" "[]" example_other]
  have n1: "ruleOffHourKeyExtraction [example_night_key]
       = [''[Alert] Key extracted at off-hours (3h): snapshot=snap-0042'']"
    using N [THEN conjunct1] by (simp add: s n)
  have d1: "ruleOffHourKeyExtraction [example_day_key] = []"
    using D [THEN conjunct2, THEN conjunct1] by simp
  have e1: "ruleOffHourKeyExtraction [example_evening_key]
       = [''[Alert] Key extracted at off-hours (18h): snapshot=snap-0044'']"
    using E [THEN conjunct1] by (simp add: s e)
  have o1: "ruleOffHourKeyExtraction [example_other] = []"
    using N [THEN conjunct2, THEN conjunct2, THEN conjunct2, THEN conjunct2] o by simp
  have "ruleOffHourKeyExtraction [example_day_key, example_other, example_night_key]
      = ruleOffHourKeyExtraction [example_day_key, example_other]
        @ ruleOffHourKeyExtraction [example_night_key] @ ruleOffHourKeyExtraction []"
    using N [THEN conjunct2, THEN conjunct2, THEN conjunct2, THEN conjunct1] by simp
  also have "ruleOffHourKeyExtraction [example_day_key, example_other] = []"
    using ruleOffHourKeyExtraction_append [of "[example_day_key]" "[example_other]"] d1 o1
    by simp
  finally have l: "ruleOffHourKeyExtraction [example_day_key, example_other, example_night_key]
       = [''[Alert] Key extracted at off-hours (3h): snapshot=snap-0042'']"
    using n1 by (simp add: ruleOffHourKeyExtraction_def)
  show ?thesis
    by (intro conjI n(1,2) h n1 d1 e1 l)
qed


section \<open>Properties of the workflow engine\<close>

subsection \<open>Decision steps\<close>

lemma getWorkflow_setWorkflow [frame]:
  "getWorkflow (setWorkflow w x s) v = (if v = w then Some x else getWorkflow s v)"
  by (simp add: getWorkflow_def setWorkflow_def update_conv')

lemma supervisor_setWorkflow [frame]: "supervisor (setWorkflow w x s) = supervisor s"
  by (simp add: setWorkflow_def)

lemma getWorkflow_supervisor_update [frame]: "getWorkflow (s\<lparr>supervisor := u\<rparr>) v = getWorkflow s v"
  by (simp add: getWorkflow_def)

lemma setWorkflow_twice [frame]: "setWorkflow w y (setWorkflow w x s) = setWorkflow w y s"
  by (simp add: setWorkflow_def update_last)

lemma supervisor_update_setWorkflow [frame]:
  "(setWorkflow w x s)\<lparr>supervisor := v\<rparr> = setWorkflow w x (s\<lparr>supervisor := v\<rparr>)"
  by (simp add: setWorkflow_def)

lemma supervisor_supervisor_update [frame]: "supervisor (s\<lparr>supervisor := u\<rparr>) = u"
  by simp

lemma executeDecisionStep_result:
  "getWorkflow s w = Some wk \<Longrightarrow>
   executeDecisionStep w (b # bs) s =
     (Resolved,
      setWorkflow w
        (wk\<lparr>currentStep := currentStep wk +
              (if action b = ''skip'' then int (effectiveSkip b)
               else if action b = ''execute'' then 1 else 0)\<rparr>) s)"
  by (simp add: executeDecisionStep_def)

lemma executeWorkflowStep_decision:
  assumes "getWorkflow s w = Some wk" and "wstate wk = Running"
    and "0 \<le> currentStep wk" and "currentStep wk < int (length (steps wk))"
    and "steps wk ! nat (currentStep wk) = DecisionStep n c (b # bs)"
  shows "executeWorkflowStep d p w env s =
     (Scheduled,
      setWorkflow w
        (wk\<lparr>currentStep := currentStep wk +
              (if action b = ''skip'' then int (effectiveSkip b)
               else if action b = ''execute'' then 1 else 0) + 1,
            wupdateTime := now (supervisor s)\<rparr>) s)"
  using assms
  by (simp add: executeWorkflowStep_def executeDecisionStep_result frame)

text \<open>
  The action \<open>execute\<close>, the only action besides \<open>skip\<close> that \<open>_executeDecisionStep\<close>
  knows: the decision adds 1 and the step loop adds 1 more, so the step after the
  decision is passed over, where the comment in the code says
  \<open>Execute the next step in the branch\<close>.
\<close>

lemma decision_execute_moves_by_two:
  assumes "getWorkflow s w = Some wk" and "wstate wk = Running"
    and "0 \<le> currentStep wk" and "currentStep wk < int (length (steps wk))"
    and "steps wk ! nat (currentStep wk) = DecisionStep n c (b # bs)"
    and "action b = ''execute''"
  shows "map_option currentStep (getWorkflow (snd (executeWorkflowStep d p w env s)) w)
           = Some (currentStep wk + 2)"
  using assms(6) by (simp add: executeWorkflowStep_decision [OF assms(1-5)] frame)

text \<open>
  Claim C2, amended. Completing a Decision step of a running workflow whose selected
  (first) branch has the action \<open>skip\<close> schedules the next call and advances
  \<open>currentStep\<close> by exactly the branch's skip count (1 when the count is absent or 0)
  plus 1: the count the decision adds and the 1 the step loop adds after every step. The
  index never advances by more than that, and completing a Decision step never decreases
  it, whatever the action.
\<close>

theorem decision_step_advance:
  "getWorkflow s w = Some wk \<Longrightarrow> wstate wk = Running \<Longrightarrow>
   0 \<le> currentStep wk \<Longrightarrow> currentStep wk < int (length (steps wk)) \<Longrightarrow>
   steps wk ! nat (currentStep wk) = DecisionStep n c (b # bs) \<Longrightarrow>
     fst (executeWorkflowStep d p w env s) = Scheduled
   \<and> (\<exists>wk'. getWorkflow (snd (executeWorkflowStep d p w env s)) w = Some wk'
        \<and> (action b = ''skip'' \<longrightarrow>
              currentStep wk' = currentStep wk + int (effectiveSkip b) + 1)
        \<and> (action b = ''skip'' \<and> skipCount b = None \<longrightarrow> currentStep wk' = currentStep wk + 2)
        \<and> (action b = ''skip'' \<and> skipCount b = Some 0 \<longrightarrow> currentStep wk' = currentStep wk + 2)
        \<and> (\<forall>k. action b = ''skip'' \<and> skipCount b = Some k \<and> k \<noteq> 0 \<longrightarrow>
               currentStep wk' = currentStep wk + int k + 1)
        \<and> (action b = ''skip'' \<longrightarrow>
              currentStep wk' \<le> currentStep wk + int (effectiveSkip b) + 1)
        \<and> currentStep wk < currentStep wk')"
proof -
  assume a: "getWorkflow s w = Some wk" "wstate wk = Running"
   "0 \<le> currentStep wk" "currentStep wk < int (length (steps wk))"
   "steps wk ! nat (currentStep wk) = DecisionStep n c (b # bs)"
  have eff: "skipCount b = None \<longrightarrow> effectiveSkip b = 1"
    "skipCount b = Some 0 \<longrightarrow> effectiveSkip b = 1"
    "\<forall>k. skipCount b = Some k \<and> k \<noteq> 0 \<longrightarrow> effectiveSkip b = k"
    by (simp_all add: effectiveSkip_def)
  show ?thesis
    using eff
    by (simp add: executeWorkflowStep_decision [OF a] frame)
qed

subsection \<open>The example workflows\<close>

lemma getWorkflow_literal [on_literal]:
  "getWorkflow \<lparr>supervisor = u, workflowStates = ws\<rparr> w = map_of ws w"
  by (simp add: getWorkflow_def)

lemma setWorkflow_literal [on_literal]:
  "setWorkflow w x \<lparr>supervisor = u, workflowStates = ws\<rparr>
     = \<lparr>supervisor = u, workflowStates = AList.update w x ws\<rparr>"
  by (simp add: setWorkflow_def)

lemmas eval_wf = createWorkflow_def newWorkflowId_def knownWorkflowTypes_def example_template_def
  startWorkflow_def executeWorkflowStep_def executeProcessStep_def executeDecisionStep_def
  effectiveSkip_def pollProcess_def getProcessStatus_def noExecutor_def example_fresh_def Let_def
  showInt_def

lemma example_collection_eq:
  "example_collection = \<lparr>supervisor = initial None 0,
    workflowStates =
      [(example_collection_id,
        \<lparr>wid = example_collection_id, wtype = ''evidence-collection'', wparameters = [],
           steps = [ProcessStep ''Image the disk'' ''disk-imaging'' [],
                    ProcessStep ''Scan for malware'' ''malware-scan'' []],
           currentStep = 0, wstate = Created, processes = [],
           wstartTime = 0, wupdateTime = 0, wendTime = None, werror = None\<rparr>)]\<rparr>"
  by (simp add: example_collection_def example_collection_id_def eval_wf on_literal
      initial_def showInt_def)

lemma example_response_eq:
  "example_response = \<lparr>supervisor = initial None 0,
    workflowStates =
      [(example_response_id,
        \<lparr>wid = example_response_id, wtype = ''incident-response'', wparameters = [],
           steps =
             [DecisionStep ''Triage'' ''severity''
                [\<lparr>bname = ''routine'', action = ''skip'', skipCount = Some 2\<rparr>,
                 \<lparr>bname = ''urgent'', action = ''execute'', skipCount = None\<rparr>],
              ProcessStep ''Dump memory'' ''memory-dump'' [],
              ProcessStep ''Capture traffic'' ''network-capture'' [],
              DecisionStep ''Escalate'' ''confirmed''
                [\<lparr>bname = ''escalate'', action = ''execute'', skipCount = None\<rparr>],
              ProcessStep ''Analyse logs'' ''log-analysis'' [],
              ProcessStep ''Scan for malware'' ''malware-scan'' []],
           currentStep = 0, wstate = Created, processes = [],
           wstartTime = 0, wupdateTime = 0, wendTime = None, werror = None\<rparr>)]\<rparr>"
  by (simp add: example_response_def example_response_id_def eval_wf on_literal
      initial_def showInt_def)

lemma example_response_running_eq:
  "example_response_running = \<lparr>supervisor = initial None 0,
    workflowStates =
      [(example_response_id,
        \<lparr>wid = example_response_id, wtype = ''incident-response'', wparameters = [],
           steps =
             [DecisionStep ''Triage'' ''severity''
                [\<lparr>bname = ''routine'', action = ''skip'', skipCount = Some 2\<rparr>,
                 \<lparr>bname = ''urgent'', action = ''execute'', skipCount = None\<rparr>],
              ProcessStep ''Dump memory'' ''memory-dump'' [],
              ProcessStep ''Capture traffic'' ''network-capture'' [],
              DecisionStep ''Escalate'' ''confirmed''
                [\<lparr>bname = ''escalate'', action = ''execute'', skipCount = None\<rparr>],
              ProcessStep ''Analyse logs'' ''log-analysis'' [],
              ProcessStep ''Scan for malware'' ''malware-scan'' []],
           currentStep = 0, wstate = Running, processes = [],
           wstartTime = 0, wupdateTime = 0, wendTime = None, werror = None\<rparr>)]\<rparr>"
  by (simp add: example_response_running_def example_response_eq startWorkflow_def on_literal
      initial_def)

lemma example_response_triaged_eq:
  "example_response_triaged = \<lparr>supervisor = initial None 0,
    workflowStates =
      [(example_response_id,
        \<lparr>wid = example_response_id, wtype = ''incident-response'', wparameters = [],
           steps =
             [DecisionStep ''Triage'' ''severity''
                [\<lparr>bname = ''routine'', action = ''skip'', skipCount = Some 2\<rparr>,
                 \<lparr>bname = ''urgent'', action = ''execute'', skipCount = None\<rparr>],
              ProcessStep ''Dump memory'' ''memory-dump'' [],
              ProcessStep ''Capture traffic'' ''network-capture'' [],
              DecisionStep ''Escalate'' ''confirmed''
                [\<lparr>bname = ''escalate'', action = ''execute'', skipCount = None\<rparr>],
              ProcessStep ''Analyse logs'' ''log-analysis'' [],
              ProcessStep ''Scan for malware'' ''malware-scan'' []],
           currentStep = 3, wstate = Running, processes = [],
           wstartTime = 0, wupdateTime = 0, wendTime = None, werror = None\<rparr>)]\<rparr>"
  by (simp add: example_response_triaged_def example_response_running_eq eval_wf on_literal
      initial_def)

lemma example_investigation_eq:
  "example_investigation = \<lparr>supervisor = initial None 0,
    workflowStates =
      [(example_investigation_id,
        \<lparr>wid = example_investigation_id, wtype = ''malware-investigation'', wparameters = [],
           steps =
             [DecisionStep ''Shortcut'' ''known sample''
                [\<lparr>bname = ''known'', action = ''skip'', skipCount = None\<rparr>],
              ProcessStep ''Analyse logs'' ''log-analysis'' [],
              DecisionStep ''Recheck'' ''clean''
                [\<lparr>bname = ''clean'', action = ''skip'', skipCount = Some 0\<rparr>],
              ProcessStep ''Scan for malware'' ''malware-scan'' [],
              ProcessStep ''Dump memory'' ''memory-dump'' []],
           currentStep = 0, wstate = Created, processes = [],
           wstartTime = 0, wupdateTime = 0, wendTime = None, werror = None\<rparr>)]\<rparr>"
  by (simp add: example_investigation_def example_investigation_id_def eval_wf on_literal
      initial_def showInt_def)

lemma example_investigation_running_eq:
  "example_investigation_running = \<lparr>supervisor = initial None 0,
    workflowStates =
      [(example_investigation_id,
        \<lparr>wid = example_investigation_id, wtype = ''malware-investigation'', wparameters = [],
           steps =
             [DecisionStep ''Shortcut'' ''known sample''
                [\<lparr>bname = ''known'', action = ''skip'', skipCount = None\<rparr>],
              ProcessStep ''Analyse logs'' ''log-analysis'' [],
              DecisionStep ''Recheck'' ''clean''
                [\<lparr>bname = ''clean'', action = ''skip'', skipCount = Some 0\<rparr>],
              ProcessStep ''Scan for malware'' ''malware-scan'' [],
              ProcessStep ''Dump memory'' ''memory-dump'' []],
           currentStep = 0, wstate = Running, processes = [],
           wstartTime = 0, wupdateTime = 0, wendTime = None, werror = None\<rparr>)]\<rparr>"
  by (simp add: example_investigation_running_def example_investigation_eq startWorkflow_def
      on_literal initial_def)

lemma example_investigation_rechecking_eq:
  "example_investigation_rechecking = \<lparr>supervisor = initial None 0,
    workflowStates =
      [(example_investigation_id,
        \<lparr>wid = example_investigation_id, wtype = ''malware-investigation'', wparameters = [],
           steps =
             [DecisionStep ''Shortcut'' ''known sample''
                [\<lparr>bname = ''known'', action = ''skip'', skipCount = None\<rparr>],
              ProcessStep ''Analyse logs'' ''log-analysis'' [],
              DecisionStep ''Recheck'' ''clean''
                [\<lparr>bname = ''clean'', action = ''skip'', skipCount = Some 0\<rparr>],
              ProcessStep ''Scan for malware'' ''malware-scan'' [],
              ProcessStep ''Dump memory'' ''memory-dump'' []],
           currentStep = 2, wstate = Running, processes = [],
           wstartTime = 0, wupdateTime = 0, wendTime = None, werror = None\<rparr>)]\<rparr>"
  by (simp add: example_investigation_rechecking_def example_investigation_running_eq eval_wf
      on_literal initial_def)

lemma example_busy_eq:
  "example_busy = \<lparr>supervisor = example_running,
    workflowStates =
      [(example_collection_id,
        \<lparr>wid = example_collection_id, wtype = ''evidence-collection'', wparameters = [],
           steps = [ProcessStep ''Image the disk'' ''disk-imaging'' [],
                    ProcessStep ''Scan for malware'' ''malware-scan'' []],
           currentStep = 0, wstate = Running, processes = [],
           wstartTime = 0, wupdateTime = 0, wendTime = None, werror = None\<rparr>)]\<rparr>"
  by (simp add: example_busy_def example_collection_id_def eval_wf on_literal
      example_running_eq showInt_def)

text \<open>
  Claim C2 as stated fails. Started with one call of the step loop, the incident response
  completes the Decision step whose branch skips 2 and stands at index 3, not 2; the
  malware investigation completes the one that skips without a count and stands at index
  2, not 1. With a second call the incident response completes the Decision step at
  index 3, whose branch has the action \<open>execute\<close>, and stands at index 5, not 4.
\<close>

theorem decision_skip_counterexample:
  "map_option currentStep
     (getWorkflow
        (snd (startWorkflow noExecutor noExecutor example_response_id [StepEnv [] None []]
                example_response))
        example_response_id) = Some 3
   \<and> map_option currentStep
     (getWorkflow
        (snd (startWorkflow noExecutor noExecutor example_investigation_id [StepEnv [] None []]
                example_investigation))
        example_investigation_id) = Some 2
   \<and> map_option currentStep
     (getWorkflow
        (snd (startWorkflow noExecutor noExecutor example_response_id
                [StepEnv [] None [], StepEnv [] None []] example_response))
        example_response_id) = Some 5"
  by (simp add: example_response_eq example_investigation_eq eval_wf on_literal initial_def)

text \<open>
  The Decision steps of the two examples: the one that skips two steps, the one that
  skips without a count, the one whose count is 0, and the one with the action
  \<open>execute\<close>, after which the index is not lower than before.
\<close>

theorem decision_step_advance_witness:
  "map_option wstate (getWorkflow example_response_running example_response_id) = Some Running
   \<and> fst (executeWorkflowStep noExecutor noExecutor example_response_id (StepEnv [] None [])
            example_response_running) = Scheduled
   \<and> map_option currentStep (getWorkflow example_response_triaged example_response_id) = Some 3
   \<and> map_option currentStep
        (getWorkflow example_investigation_rechecking example_investigation_id) = Some 2
   \<and> map_option currentStep
        (getWorkflow
           (snd (executeWorkflowStep noExecutor noExecutor example_investigation_id
                   (StepEnv [] None []) example_investigation_rechecking))
           example_investigation_id) = Some 4
   \<and> map_option (\<lambda>x. 3 < currentStep x)
        (getWorkflow
           (snd (executeWorkflowStep noExecutor noExecutor example_response_id
                   (StepEnv [] None []) example_response_triaged))
           example_response_id) = Some True"
proof -
  let ?env = "StepEnv [] None []"
  let ?rsteps = "[DecisionStep ''Triage'' ''severity''
                [\<lparr>bname = ''routine'', action = ''skip'', skipCount = Some 2\<rparr>,
                 \<lparr>bname = ''urgent'', action = ''execute'', skipCount = None\<rparr>],
              ProcessStep ''Dump memory'' ''memory-dump'' [],
              ProcessStep ''Capture traffic'' ''network-capture'' [],
              DecisionStep ''Escalate'' ''confirmed''
                [\<lparr>bname = ''escalate'', action = ''execute'', skipCount = None\<rparr>],
              ProcessStep ''Analyse logs'' ''log-analysis'' [],
              ProcessStep ''Scan for malware'' ''malware-scan'' []]"
  let ?isteps = "[DecisionStep ''Shortcut'' ''known sample''
                [\<lparr>bname = ''known'', action = ''skip'', skipCount = None\<rparr>],
              ProcessStep ''Analyse logs'' ''log-analysis'' [],
              DecisionStep ''Recheck'' ''clean''
                [\<lparr>bname = ''clean'', action = ''skip'', skipCount = Some 0\<rparr>],
              ProcessStep ''Scan for malware'' ''malware-scan'' [],
              ProcessStep ''Dump memory'' ''memory-dump'' []]"
  let ?ra = "\<lparr>wid = example_response_id, wtype = ''incident-response'', wparameters = [],
           steps = ?rsteps, currentStep = 0, wstate = Running, processes = [],
           wstartTime = 0, wupdateTime = 0, wendTime = None, werror = None\<rparr>"
  let ?rb = "\<lparr>wid = example_response_id, wtype = ''incident-response'', wparameters = [],
           steps = ?rsteps, currentStep = 3, wstate = Running, processes = [],
           wstartTime = 0, wupdateTime = 0, wendTime = None, werror = None\<rparr>"
  let ?ia = "\<lparr>wid = example_investigation_id, wtype = ''malware-investigation'',
           wparameters = [],
           steps = ?isteps, currentStep = 0, wstate = Running, processes = [],
           wstartTime = 0, wupdateTime = 0, wendTime = None, werror = None\<rparr>"
  let ?ib = "\<lparr>wid = example_investigation_id, wtype = ''malware-investigation'',
           wparameters = [],
           steps = ?isteps, currentStep = 2, wstate = Running, processes = [],
           wstartTime = 0, wupdateTime = 0, wendTime = None, werror = None\<rparr>"
  let ?skip2 = "\<lparr>bname = ''routine'', action = ''skip'', skipCount = Some 2\<rparr>"
  let ?skipd = "\<lparr>bname = ''known'', action = ''skip'', skipCount = None\<rparr>"
  let ?skip0 = "\<lparr>bname = ''clean'', action = ''skip'', skipCount = Some 0\<rparr>"
  let ?exec = "\<lparr>bname = ''escalate'', action = ''execute'', skipCount = None\<rparr>"

  have ga: "getWorkflow example_response_running example_response_id = Some ?ra"
    by (simp add: example_response_running_eq on_literal)
  have ha: "wstate ?ra = Running" "0 \<le> currentStep ?ra"
      "currentStep ?ra < int (length (steps ?ra))"
      "steps ?ra ! nat (currentStep ?ra) = DecisionStep ''Triage'' ''severity''
          (?skip2 # [\<lparr>bname = ''urgent'', action = ''execute'', skipCount = None\<rparr>])"
    by simp_all
  note Ta = decision_step_advance [OF ga ha, of noExecutor noExecutor ?env]
  from Ta [THEN conjunct2] obtain wa where
    wa: "getWorkflow (snd (executeWorkflowStep noExecutor noExecutor example_response_id
            ?env example_response_running)) example_response_id = Some wa"
    and ka: "\<forall>k. action ?skip2 = ''skip'' \<and> skipCount ?skip2 = Some k \<and> k \<noteq> 0 \<longrightarrow>
               currentStep wa = currentStep ?ra + int k + 1"
    by blast
  from ka have "currentStep wa = 3" by simp
  with wa have r1: "map_option currentStep
      (getWorkflow example_response_triaged example_response_id) = Some 3"
    by (simp add: example_response_triaged_def)
  have r0: "map_option wstate (getWorkflow example_response_running example_response_id)
      = Some Running"
    by (simp add: ga)

  have gi: "getWorkflow example_investigation_running example_investigation_id = Some ?ia"
    by (simp add: example_investigation_running_eq on_literal)
  have hi: "wstate ?ia = Running" "0 \<le> currentStep ?ia"
      "currentStep ?ia < int (length (steps ?ia))"
      "steps ?ia ! nat (currentStep ?ia) = DecisionStep ''Shortcut'' ''known sample''
          (?skipd # [])"
    by simp_all
  note Ti = decision_step_advance [OF gi hi, of noExecutor noExecutor ?env]
  from Ti [THEN conjunct2] obtain wi where
    wi: "getWorkflow (snd (executeWorkflowStep noExecutor noExecutor example_investigation_id
            ?env example_investigation_running)) example_investigation_id = Some wi"
    and ki: "action ?skipd = ''skip'' \<and> skipCount ?skipd = None \<longrightarrow>
               currentStep wi = currentStep ?ia + 2"
    by blast
  from ki have "currentStep wi = 2" by simp
  with wi have r2: "map_option currentStep
      (getWorkflow example_investigation_rechecking example_investigation_id) = Some 2"
    by (simp add: example_investigation_rechecking_def)

  have gj: "getWorkflow example_investigation_rechecking example_investigation_id = Some ?ib"
    by (simp add: example_investigation_rechecking_eq on_literal)
  have hj: "wstate ?ib = Running" "0 \<le> currentStep ?ib"
      "currentStep ?ib < int (length (steps ?ib))"
      "steps ?ib ! nat (currentStep ?ib) = DecisionStep ''Recheck'' ''clean'' (?skip0 # [])"
    by simp_all
  note Tj = decision_step_advance [OF gj hj, of noExecutor noExecutor ?env]
  from Tj [THEN conjunct2] obtain wj where
    wj: "getWorkflow (snd (executeWorkflowStep noExecutor noExecutor example_investigation_id
            ?env example_investigation_rechecking)) example_investigation_id = Some wj"
    and kj: "action ?skip0 = ''skip'' \<and> skipCount ?skip0 = Some 0 \<longrightarrow>
               currentStep wj = currentStep ?ib + 2"
    by blast
  from kj have "currentStep wj = 4" by simp
  with wj have r3: "map_option currentStep
        (getWorkflow
           (snd (executeWorkflowStep noExecutor noExecutor example_investigation_id
                   ?env example_investigation_rechecking))
           example_investigation_id) = Some 4"
    by simp

  have gb: "getWorkflow example_response_triaged example_response_id = Some ?rb"
    by (simp add: example_response_triaged_eq on_literal)
  have hb: "wstate ?rb = Running" "0 \<le> currentStep ?rb"
      "currentStep ?rb < int (length (steps ?rb))"
      "steps ?rb ! nat (currentStep ?rb) = DecisionStep ''Escalate'' ''confirmed'' (?exec # [])"
    by (simp_all add: eval_nat_numeral)
  note Tb = decision_step_advance [OF gb hb, of noExecutor noExecutor ?env]
  from Tb [THEN conjunct2] obtain wb where
    wb: "getWorkflow (snd (executeWorkflowStep noExecutor noExecutor example_response_id
            ?env example_response_triaged)) example_response_id = Some wb"
    and kb: "currentStep ?rb < currentStep wb"
    by blast
  from kb have "3 < currentStep wb" by simp
  with wb have r4: "map_option (\<lambda>x. 3 < currentStep x)
        (getWorkflow
           (snd (executeWorkflowStep noExecutor noExecutor example_response_id
                   ?env example_response_triaged))
           example_response_id) = Some True"
    by simp
  show ?thesis
    by (intro conjI r0 r1 r2 r3 r4 Ta [THEN conjunct1])
qed

subsection \<open>Quiet events\<close>

lemma length_update_present:
  "map_of al k = Some x \<Longrightarrow> length (AList.update k v al) = length al"
  by (induction al) (auto split: if_splits)

lemma length_update_le: "length (AList.update k v al) \<le> Suc (length al)"
  by (induction al) auto

lemma elapsed_Cons: "elapsed (e # es) = elapsed [e] + elapsed es"
proof (cases e)
  case (Supervisor ev)
  then show ?thesis by (cases ev) simp_all
next
  case (StopWorkflow w k c)
  then show ?thesis by simp
qed

lemma elapsed_append: "elapsed (xs @ ys) = elapsed xs + elapsed ys"
proof (induction xs)
  case Nil
  show ?case by simp
next
  case (Cons e xs)
  have "elapsed ((e # xs) @ ys) = elapsed [e] + elapsed (xs @ ys)"
    using elapsed_Cons [of e "xs @ ys"] by simp
  also have "\<dots> = elapsed [e] + elapsed xs + elapsed ys" using Cons by simp
  also have "elapsed [e] + elapsed xs = elapsed (e # xs)" using elapsed_Cons [of e xs] by simp
  finally show ?case .
qed

text \<open>What the quiet operations leave alone.\<close>

lemma logProcess_calm:
  "timers (logProcess p m u) = timers u" "signals (logProcess p m u) = signals u"
  "maxConcurrent (logProcess p m u) = maxConcurrent u"
  "activeProcesses (logProcess p m u) = activeProcesses u"
  "now (logProcess p m u) = now u"
  by (simp_all add: logProcess_def)

lemma updateProcessProgress_calm:
  "timers (updateProcessProgress p n u) = timers u"
  "signals (updateProcessProgress p n u) = signals u"
  "maxConcurrent (updateProcessProgress p n u) = maxConcurrent u"
  "length (activeProcesses (updateProcessProgress p n u)) = length (activeProcesses u)"
  "now (updateProcessProgress p n u) = now u"
  "map_option lifecycle (getProcess (updateProcessProgress p n u) q)
     = map_option lifecycle (getProcess u q)"
proof -
  show "timers (updateProcessProgress p n u) = timers u"
    by (simp add: updateProcessProgress_def Let_def logProcess_def setProcess_def
        split: option.splits)
  show "signals (updateProcessProgress p n u) = signals u"
    by (simp add: updateProcessProgress_def Let_def logProcess_def setProcess_def
        split: option.splits)
  show "maxConcurrent (updateProcessProgress p n u) = maxConcurrent u"
    by (simp add: updateProcessProgress_def Let_def logProcess_def setProcess_def
        split: option.splits)
  show "length (activeProcesses (updateProcessProgress p n u)) = length (activeProcesses u)"
    by (simp add: updateProcessProgress_def Let_def logProcess_def setProcess_def getProcess_def
        length_update_present split: option.splits)
  show "now (updateProcessProgress p n u) = now u"
    by (simp add: updateProcessProgress_def Let_def logProcess_def setProcess_def
        split: option.splits)
  show "map_option lifecycle (getProcess (updateProcessProgress p n u) q)
     = map_option lifecycle (getProcess u q)"
    by (auto simp: updateProcessProgress_def Let_def frame lifecycle_def split: option.splits)
qed

lemma tick_calm:
  assumes "timers u = []"
  shows "tick d u = u\<lparr>now := now u + int d\<rparr>"
  using assms by (simp add: tick_def fireTimers_def)

lemma undisturbed_self: "timers (supervisor s) = [] \<Longrightarrow> undisturbed s s"
  by (simp add: undisturbed_def)

lemma quiet_step:
  assumes "quiet e" and "undisturbed s0 s"
  shows "undisturbed s0 (apply_wf_event e s)"
    and "now (supervisor (apply_wf_event e s)) = now (supervisor s) + elapsed [e]"
proof -
  from assms(2) have t: "timers (supervisor s) = []" by (simp add: undisturbed_def)
  from assms(1) obtain ev where e: "e = Supervisor ev"
    by (cases e) auto
  have "undisturbed s0 (apply_wf_event e s)
      \<and> now (supervisor (apply_wf_event e s)) = now (supervisor s) + elapsed [e]"
  proof (cases ev)
    case (Tick d)
    with e assms(2) t show ?thesis
      by (simp add: tick_calm undisturbed_def getProcess_def)
  next
    case (Stdout p out m)
    with e assms(2) show ?thesis
      by (cases m)
         (simp_all add: onStdout_def Let_def undisturbed_def updateProcessProgress_calm
            logProcess_calm getProcess_logProcess)
  next
    case (Stderr p m)
    with e assms(2) show ?thesis
      by (simp add: onStderr_def undisturbed_def logProcess_calm getProcess_logProcess)
  next
    case (UpdateProgress p n)
    with e assms(2) show ?thesis
      by (simp add: undisturbed_def updateProcessProgress_calm)
  qed (use assms(1) e in simp_all)
  then show "undisturbed s0 (apply_wf_event e s)"
    and "now (supervisor (apply_wf_event e s)) = now (supervisor s) + elapsed [e]"
    by simp_all
qed

lemma quiet_fold:
  assumes "list_all quiet evs" and "undisturbed s0 s"
  shows "undisturbed s0 (fold apply_wf_event evs s)
     \<and> now (supervisor (fold apply_wf_event evs s)) = now (supervisor s) + elapsed evs"
  using assms
proof (induction evs arbitrary: s)
  case Nil
  then show ?case by simp
next
  case (Cons e evs)
  from Cons.prems have q: "quiet e" and qs: "list_all quiet evs" by simp_all
  note st = quiet_step [OF q Cons.prems(2)]
  from Cons.IH [OF qs st(1)] st(2) elapsed_Cons [of e evs]
  show ?case by simp
qed

lemma quiet_rounds:
  assumes "list_all (list_all quiet) waits" and "undisturbed s0 s"
  shows "undisturbed s0 (fold apply_wf_event (concat waits) s)
     \<and> now (supervisor (fold apply_wf_event (concat waits) s))
         = now (supervisor s) + elapsed (concat waits)"
proof -
  from assms(1) have "list_all quiet (concat waits)"
    by (induction waits) (simp_all add: list_all_append)
  from quiet_fold [OF this assms(2)] show ?thesis .
qed

subsection \<open>The wait of a process step\<close>

lemma startProcess_ok:
  assumes "length (activeProcesses u) < maxConcurrent u" and "starterMessage t = Some m"
  shows "fst (startProcess t ps r cp u) = Inr (newProcessId t (now u) r)"
    and "getProcess (snd (startProcess t ps r cp u)) (newProcessId t (now u) r)
          = Some \<lparr>ptype = t, parameters = ps, state = RUNNING, startTime = now u,
               updateTime = now u, progress = 0, pid = cp, endTime = None, error = None\<rparr>"
    and "now (snd (startProcess t ps r cp u)) = now u"
    and "maxConcurrent (snd (startProcess t ps r cp u)) = maxConcurrent u"
    and "signals (snd (startProcess t ps r cp u)) = signals u"
    and "length (activeProcesses (snd (startProcess t ps r cp u))) \<le> Suc (length (activeProcesses u))"
    and "timers (snd (startProcess t ps r cp u)) = timers u"
    and "q \<noteq> newProcessId t (now u) r \<Longrightarrow>
         getProcess (snd (startProcess t ps r cp u)) q = getProcess u q"
proof -
  let ?id = "newProcessId t (now u) r"
  let ?i = "\<lparr>ptype = t, parameters = ps, state = RUNNING, startTime = now u,
               updateTime = now u, progress = 0, pid = cp, endTime = None, error = None\<rparr>"
  have eq: "startProcess t ps r cp u =
      (Inr ?id,
       logProcess ?id (''Process started with PID '' @ showPid cp)
         (setProcess ?id ?i
           (logProcess ?id m
             (logProcess ?id ''Process initialization started''
               (resetLogs ?id
                 (setProcess ?id
                    \<lparr>ptype = t, parameters = ps, state = INITIALIZING, startTime = now u,
                     updateTime = now u, progress = 0, pid = None, endTime = None,
                     error = None\<rparr> u))))))"
    using assms by (simp add: startProcess_def Let_def frame)
  show "fst (startProcess t ps r cp u) = Inr ?id" by (simp add: eq)
  show "getProcess (snd (startProcess t ps r cp u)) ?id = Some ?i"
    by (simp add: eq frame)
  show "now (snd (startProcess t ps r cp u)) = now u"
    by (simp add: eq frame)
  show "maxConcurrent (snd (startProcess t ps r cp u)) = maxConcurrent u"
    by (simp add: eq logProcess_def setProcess_def resetLogs_def)
  show "signals (snd (startProcess t ps r cp u)) = signals u"
    by (simp add: eq logProcess_def setProcess_def resetLogs_def)
  show "length (activeProcesses (snd (startProcess t ps r cp u))) \<le> Suc (length (activeProcesses u))"
    by (simp add: eq logProcess_def setProcess_def resetLogs_def length_update_le)
  show "timers (snd (startProcess t ps r cp u)) = timers u"
    by (simp add: eq logProcess_def setProcess_def resetLogs_def)
  show "getProcess (snd (startProcess t ps r cp u)) q = getProcess u q" if "q \<noteq> ?id"
    using that by (simp add: eq frame)
qed

lemma onExit_present:
  assumes "getProcess u q = Some i"
  shows "getProcess (onExit q c g u) q
          = Some (if c = Some 0
                  then i\<lparr>state := COMPLETED, progress := 100, updateTime := now u,
                         endTime := Some (now u)\<rparr>
                  else i\<lparr>state := ERROR, error := Some (exitError c g), updateTime := now u,
                         endTime := Some (now u)\<rparr>)"
    and "now (onExit q c g u) = now u"
    and "maxConcurrent (onExit q c g u) = maxConcurrent u"
    and "signals (onExit q c g u) = signals u"
    and "length (activeProcesses (onExit q c g u)) = length (activeProcesses u)"
    and "timers (onExit q c g u) = timers u"
proof -
  from assms have m: "map_of (activeProcesses u) q = Some i" by (simp add: getProcess_def)
  show "getProcess (onExit q c g u) q
          = Some (if c = Some 0
                  then i\<lparr>state := COMPLETED, progress := 100, updateTime := now u,
                         endTime := Some (now u)\<rparr>
                  else i\<lparr>state := ERROR, error := Some (exitError c g), updateTime := now u,
                         endTime := Some (now u)\<rparr>)"
    using assms by (simp add: onExit_def frame)
  show "now (onExit q c g u) = now u"
    using assms by (simp add: onExit_def frame)
  show "maxConcurrent (onExit q c g u) = maxConcurrent u"
    using assms by (simp add: onExit_def logProcess_def setProcess_def)
  show "signals (onExit q c g u) = signals u"
    using assms by (simp add: onExit_def frame)
  show "length (activeProcesses (onExit q c g u)) = length (activeProcesses u)"
    using assms m by (simp add: onExit_def logProcess_def setProcess_def length_update_present)
  show "timers (onExit q c g u) = timers u"
    using assms by (simp add: onExit_def frame)
qed

lemma onExit_others: "q \<noteq> x \<Longrightarrow> getProcess (onExit x c g u) q = getProcess u q"
  by (simp add: onExit_def frame split: option.splits)

lemma pollProcess_settled:
  assumes "getProcess (supervisor s) q = Some i"
  shows "state i = COMPLETED \<Longrightarrow> pollProcess w q s = Resolved"
    and "state i = ERROR \<Longrightarrow> error i = Some e \<Longrightarrow> e \<noteq> [] \<Longrightarrow>
         pollProcess w q s = Rejected (''Process '' @ q @ '' failed: '' @ e)"
  using assms by (simp_all add: pollProcess_def getProcessStatus_def)

lemma pollProcess_running:
  assumes "getProcess (supervisor s) q = Some i" and "state i = RUNNING"
    and "getWorkflow s w = Some wk" and "wstate wk = Running"
  shows "pollProcess w q s = Pending"
  using assms by (simp add: pollProcess_def getProcessStatus_def)

lemma waitForProcess_step:
  "pollProcess w q (fold apply_wf_event evs s) = Pending \<Longrightarrow>
   waitForProcess w q (evs # rounds) s = waitForProcess w q rounds (fold apply_wf_event evs s)"
  "pollProcess w q (fold apply_wf_event evs s) = Resolved \<Longrightarrow>
   waitForProcess w q (evs # rounds) s = (Resolved, fold apply_wf_event evs s)"
  "pollProcess w q (fold apply_wf_event evs s) = Rejected e \<Longrightarrow>
   waitForProcess w q (evs # rounds) s = (Rejected e, fold apply_wf_event evs s)"
  by (simp_all add: Let_def)

text \<open>
  Rounds of quiet events leave a running process of a running workflow running: every
  poll finds the step pending, and the wait goes on to the next round.
\<close>

lemma undisturbed_running:
  assumes "undisturbed s0 s"
    and "map_option lifecycle (getProcess (supervisor s0) x) = Some (RUNNING, err)"
    and "getWorkflow s0 w = Some wk" and "wstate wk = Running"
  shows "pollProcess w x s = Pending"
proof -
  from assms(1,2) have "map_option lifecycle (getProcess (supervisor s) x) = Some (RUNNING, err)"
    by (simp add: undisturbed_def)
  then obtain i where i: "getProcess (supervisor s) x = Some i" "state i = RUNNING"
    by (auto simp: lifecycle_def)
  from assms(1,3) have "getWorkflow s w = Some wk"
    by (simp add: undisturbed_def getWorkflow_def)
  from pollProcess_running [OF i this assms(4)] show ?thesis .
qed

lemma waitForProcess_quiet:
  assumes "list_all (list_all quiet) waits" and "undisturbed s0 s"
    and "map_option lifecycle (getProcess (supervisor s0) x) = Some (RUNNING, err)"
    and "getWorkflow s0 w = Some wk" and "wstate wk = Running"
  shows "waitForProcess w x (waits @ rest) s
           = waitForProcess w x rest (fold apply_wf_event (concat waits) s)"
  using assms(1,2)
proof (induction waits arbitrary: s)
  case Nil
  show ?case by simp
next
  case (Cons r waits)
  from Cons.prems(1) have qr: "list_all quiet r" and qs: "list_all (list_all quiet) waits"
    by simp_all
  from quiet_fold [OF qr Cons.prems(2)]
  have u1: "undisturbed s0 (fold apply_wf_event r s)" by simp
  from undisturbed_running [OF u1 assms(3,4,5)]
  have "pollProcess w x (fold apply_wf_event r s) = Pending" .
  from waitForProcess_step(1) [OF this]
  have "waitForProcess w x ((r # waits) @ rest) s
      = waitForProcess w x (waits @ rest) (fold apply_wf_event r s)"
    by simp
  also have "\<dots> = waitForProcess w x rest (fold apply_wf_event (concat waits) (fold apply_wf_event r s))"
    by (rule Cons.IH [OF qs u1])
  finally show ?case by simp
qed

text \<open>
  The round in which the worker exits: quiet events, the exit event, later quiet events,
  then the poll.
\<close>

lemma exit_round:
  assumes qa: "list_all quiet qa" and qb: "list_all quiet qb"
    and u: "undisturbed s0 s"
    and p: "map_option lifecycle (getProcess (supervisor s0) x) = Some (RUNNING, err)"
  shows "workflowStates (fold apply_wf_event (qa @ Supervisor (Exit x c g) # qb) s)
           = workflowStates s0"
    and "timers (supervisor (fold apply_wf_event (qa @ Supervisor (Exit x c g) # qb) s)) = []"
    and "signals (supervisor (fold apply_wf_event (qa @ Supervisor (Exit x c g) # qb) s))
           = signals (supervisor s0)"
    and "maxConcurrent (supervisor (fold apply_wf_event (qa @ Supervisor (Exit x c g) # qb) s))
           = maxConcurrent (supervisor s0)"
    and "length (activeProcesses (supervisor (fold apply_wf_event (qa @ Supervisor (Exit x c g) # qb) s)))
           = length (activeProcesses (supervisor s0))"
    and "now (supervisor (fold apply_wf_event (qa @ Supervisor (Exit x c g) # qb) s))
           = now (supervisor s) + elapsed (qa @ qb)"
    and "map_option lifecycle
           (getProcess (supervisor (fold apply_wf_event (qa @ Supervisor (Exit x c g) # qb) s)) x)
           = Some (if c = Some 0 then (COMPLETED, err) else (ERROR, Some (exitError c g)))"
    and "q \<noteq> x \<Longrightarrow>
         map_option lifecycle
           (getProcess (supervisor (fold apply_wf_event (qa @ Supervisor (Exit x c g) # qb) s)) q)
           = map_option lifecycle (getProcess (supervisor s0) q)"
proof -
  define sa where "sa = fold apply_wf_event qa s"
  define se where "se = sa\<lparr>supervisor := onExit x c g (supervisor sa)\<rparr>"
  define sb where "sb = fold apply_wf_event qb se"
  have run: "fold apply_wf_event (qa @ Supervisor (Exit x c g) # qb) s = sb"
    by (simp add: sa_def se_def sb_def)
  from quiet_fold [OF qa u]
  have ua: "undisturbed s0 sa" and na: "now (supervisor sa) = now (supervisor s) + elapsed qa"
    by (simp_all add: sa_def)
  from ua p have "map_option lifecycle (getProcess (supervisor sa) x) = Some (RUNNING, err)"
    by (simp add: undisturbed_def)
  then obtain i where i: "getProcess (supervisor sa) x = Some i" "state i = RUNNING" "error i = err"
    by (auto simp: lifecycle_def)
  note ex = onExit_present [OF i(1), of c g]
  have sup_se: "supervisor se = onExit x c g (supervisor sa)" by (simp add: se_def)
  have ws_se: "workflowStates se = workflowStates sa" by (simp add: se_def)
  from ua have ta: "timers (supervisor sa) = []" by (simp add: undisturbed_def)
  have "timers (supervisor se) = []" by (simp add: sup_se ex(6) ta)
  then have "undisturbed se se" by (rule undisturbed_self)
  from quiet_fold [OF qb this]
  have ub: "undisturbed se sb" and nb: "now (supervisor sb) = now (supervisor se) + elapsed qb"
    by (simp_all add: sb_def)
  have lx: "map_option lifecycle (getProcess (supervisor se) x)
            = Some (if c = Some 0 then (COMPLETED, err) else (ERROR, Some (exitError c g)))"
    using i(3) by (simp add: sup_se ex(1) lifecycle_def)
  have lo: "map_option lifecycle (getProcess (supervisor se) q)
            = map_option lifecycle (getProcess (supervisor sa) q)" if "q \<noteq> x" for q
    using that by (simp add: sup_se onExit_others)
  show "workflowStates (fold apply_wf_event (qa @ Supervisor (Exit x c g) # qb) s)
           = workflowStates s0"
    unfolding run using ua ub ws_se by (simp add: undisturbed_def)
  show "timers (supervisor (fold apply_wf_event (qa @ Supervisor (Exit x c g) # qb) s)) = []"
    unfolding run using ub by (simp add: undisturbed_def)
  show "signals (supervisor (fold apply_wf_event (qa @ Supervisor (Exit x c g) # qb) s))
           = signals (supervisor s0)"
    unfolding run using ua ub by (simp add: undisturbed_def sup_se ex(4))
  show "maxConcurrent (supervisor (fold apply_wf_event (qa @ Supervisor (Exit x c g) # qb) s))
           = maxConcurrent (supervisor s0)"
    unfolding run using ua ub by (simp add: undisturbed_def sup_se ex(3))
  show "length (activeProcesses (supervisor (fold apply_wf_event (qa @ Supervisor (Exit x c g) # qb) s)))
           = length (activeProcesses (supervisor s0))"
    unfolding run using ua ub by (simp add: undisturbed_def sup_se ex(5))
  show "now (supervisor (fold apply_wf_event (qa @ Supervisor (Exit x c g) # qb) s))
           = now (supervisor s) + elapsed (qa @ qb)"
    unfolding run by (simp add: nb sup_se ex(2) na elapsed_append)
  show "map_option lifecycle
           (getProcess (supervisor (fold apply_wf_event (qa @ Supervisor (Exit x c g) # qb) s)) x)
           = Some (if c = Some 0 then (COMPLETED, err) else (ERROR, Some (exitError c g)))"
    unfolding run using ub lx by (simp add: undisturbed_def)
  show "map_option lifecycle
           (getProcess (supervisor (fold apply_wf_event (qa @ Supervisor (Exit x c g) # qb) s)) q)
           = map_option lifecycle (getProcess (supervisor s0) q)" if "q \<noteq> x"
    unfolding run using ub ua lo [OF that] by (simp add: undisturbed_def)
qed

lemma pollProcess_lifecycle:
  assumes "map_option lifecycle (getProcess (supervisor s) x)
             = Some (if c = Some 0 then (COMPLETED, err) else (ERROR, Some (exitError c g)))"
  shows "pollProcess w x s
           = (if c = Some 0 then Resolved
              else Rejected (''Process '' @ x @ '' failed: '' @ exitError c g))"
proof -
  have ne: "exitError c g \<noteq> []" by (simp add: exitError_def)
  from assms obtain i where i: "getProcess (supervisor s) x = Some i"
    and l: "lifecycle i = (if c = Some 0 then (COMPLETED, err) else (ERROR, Some (exitError c g)))"
    by auto
  show ?thesis
  proof (cases "c = Some 0")
    case True
    with l have "state i = COMPLETED" by (simp add: lifecycle_def)
    from pollProcess_settled(1) [OF i this] True show ?thesis by simp
  next
    case False
    with l have "state i = ERROR" "error i = Some (exitError c g)" by (simp_all add: lifecycle_def)
    from pollProcess_settled(2) [OF i this ne] False show ?thesis by simp
  qed
qed

lemma waitForProcess_settles:
  assumes "pollProcess w x (fold apply_wf_event evs s) = r" and "r \<noteq> Pending"
  shows "waitForProcess w x (evs # rounds) s = (r, fold apply_wf_event evs s)"
  using assms by (cases r) (simp_all add: Let_def)

text \<open>
  A process step from start to settlement: the worker is started, any number of polls
  find it running, and it exits before the next poll.
\<close>

lemma executeProcessStep_run:
  assumes w: "getWorkflow s w = Some wk" and run: "wstate wk = Running"
    and cap: "length (activeProcesses (supervisor s)) < maxConcurrent (supervisor s)"
    and known: "starterMessage t = Some m"
    and calm: "timers (supervisor s) = []"
    and qw: "list_all (list_all quiet) waits"
    and qa: "list_all quiet qa" and qb: "list_all quiet qb"
    and x: "x = newProcessId t (now (supervisor s)) r"
    and env: "env = StepEnv r cp (waits @ (qa @ Supervisor (Exit x c g) # qb) # later)"
  shows "fst (executeProcessStep w t ps env s)
           = (if c = Some 0 then Resolved
              else Rejected (''Process '' @ x @ '' failed: '' @ exitError c g))"
    and "workflowStates (snd (executeProcessStep w t ps env s))
           = workflowStates (setWorkflow w (wk\<lparr>processes := processes wk @ [x]\<rparr>) s)"
    and "timers (supervisor (snd (executeProcessStep w t ps env s))) = []"
    and "signals (supervisor (snd (executeProcessStep w t ps env s))) = signals (supervisor s)"
    and "maxConcurrent (supervisor (snd (executeProcessStep w t ps env s)))
           = maxConcurrent (supervisor s)"
    and "length (activeProcesses (supervisor (snd (executeProcessStep w t ps env s))))
           \<le> Suc (length (activeProcesses (supervisor s)))"
    and "now (supervisor (snd (executeProcessStep w t ps env s)))
           = now (supervisor s) + elapsed (concat waits @ qa @ qb)"
    and "map_option lifecycle (getProcess (supervisor (snd (executeProcessStep w t ps env s))) x)
           = Some (if c = Some 0 then (COMPLETED, None) else (ERROR, Some (exitError c g)))"
    and "q \<noteq> x \<Longrightarrow>
         map_option lifecycle (getProcess (supervisor (snd (executeProcessStep w t ps env s))) q)
           = map_option lifecycle (getProcess (supervisor s) q)"
proof -
  obtain u where sp: "startProcess t ps r cp (supervisor s) = (Inr x, u)"
    using startProcess_ok(1) [OF cap known, where ps = ps and r = r and cp = cp] x
    by (cases "startProcess t ps r cp (supervisor s)") auto
  have u: "snd (startProcess t ps r cp (supervisor s)) = u" by (simp add: sp)
  note ok = startProcess_ok [OF cap known, where ps = ps and r = r and cp = cp, unfolded u, folded x]
  define sc where "sc = setWorkflow w (wk\<lparr>processes := processes wk @ [x]\<rparr>) (s\<lparr>supervisor := u\<rparr>)"
  define lr where "lr = qa @ Supervisor (Exit x c g) # qb"
  define sw where "sw = fold apply_wf_event (concat waits) sc"
  define sf where "sf = fold apply_wf_event lr sw"
  have sup_sc: "supervisor sc = u" by (simp add: sc_def frame)
  have ws_sc: "workflowStates sc
      = workflowStates (setWorkflow w (wk\<lparr>processes := processes wk @ [x]\<rparr>) s)"
    by (simp add: sc_def setWorkflow_def)
  have gw: "getWorkflow sc w = Some (wk\<lparr>processes := processes wk @ [x]\<rparr>)"
    by (simp add: sc_def frame)
  have rw: "wstate (wk\<lparr>processes := processes wk @ [x]\<rparr>) = Running" using run by simp
  have "timers (supervisor sc) = []" by (simp add: sup_sc ok(7) calm)
  then have u0: "undisturbed sc sc" by (rule undisturbed_self)
  have px: "map_option lifecycle (getProcess (supervisor sc) x) = Some (RUNNING, None)"
    by (simp add: sup_sc ok(2) lifecycle_def)
  from quiet_rounds [OF qw u0]
  have uw: "undisturbed sc sw"
    and nw: "now (supervisor sw) = now (supervisor sc) + elapsed (concat waits)"
    by (simp_all add: sw_def)
  note er = exit_round [OF qa qb uw px, where c = c and g = g, folded lr_def, folded sf_def]
  from pollProcess_lifecycle [OF er(7), of w]
  have poll: "pollProcess w x (fold apply_wf_event lr sw)
      = (if c = Some 0 then Resolved
         else Rejected (''Process '' @ x @ '' failed: '' @ exitError c g))"
    by (simp add: sf_def)
  have np: "(if c = Some 0 then Resolved
         else Rejected (''Process '' @ x @ '' failed: '' @ exitError c g)) \<noteq> Pending"
    by simp
  have "executeProcessStep w t ps env s = waitForProcess w x (waits @ lr # later) sc"
    using w
    by (simp add: executeProcessStep_def sp getWorkflow_supervisor_update Let_def env sc_def
        lr_def del: waitForProcess.simps)
  also have "\<dots> = waitForProcess w x (lr # later) sw"
    unfolding sw_def by (rule waitForProcess_quiet [OF qw u0 px gw rw])
  also have "\<dots> = (if c = Some 0 then Resolved
         else Rejected (''Process '' @ x @ '' failed: '' @ exitError c g), sf)"
    unfolding sf_def by (rule waitForProcess_settles [OF poll np])
  finally have res: "executeProcessStep w t ps env s
      = (if c = Some 0 then Resolved
         else Rejected (''Process '' @ x @ '' failed: '' @ exitError c g), sf)" .
  show "fst (executeProcessStep w t ps env s)
           = (if c = Some 0 then Resolved
              else Rejected (''Process '' @ x @ '' failed: '' @ exitError c g))"
    by (simp add: res)
  show "workflowStates (snd (executeProcessStep w t ps env s))
           = workflowStates (setWorkflow w (wk\<lparr>processes := processes wk @ [x]\<rparr>) s)"
    by (simp add: res er(1) ws_sc)
  show "timers (supervisor (snd (executeProcessStep w t ps env s))) = []"
    by (simp add: res er(2))
  show "signals (supervisor (snd (executeProcessStep w t ps env s))) = signals (supervisor s)"
    by (simp add: res er(3) sup_sc ok(5))
  show "maxConcurrent (supervisor (snd (executeProcessStep w t ps env s)))
           = maxConcurrent (supervisor s)"
    by (simp add: res er(4) sup_sc ok(4))
  show "length (activeProcesses (supervisor (snd (executeProcessStep w t ps env s))))
           \<le> Suc (length (activeProcesses (supervisor s)))"
    by (simp add: res er(5) sup_sc ok(6))
  show "now (supervisor (snd (executeProcessStep w t ps env s)))
           = now (supervisor s) + elapsed (concat waits @ qa @ qb)"
    by (simp add: res er(6) nw sup_sc ok(3) elapsed_append)
  show "map_option lifecycle (getProcess (supervisor (snd (executeProcessStep w t ps env s))) x)
           = Some (if c = Some 0 then (COMPLETED, None) else (ERROR, Some (exitError c g)))"
    by (simp add: res er(7))
  show "map_option lifecycle (getProcess (supervisor (snd (executeProcessStep w t ps env s))) q)
           = map_option lifecycle (getProcess (supervisor s) q)" if "q \<noteq> x"
    using er(8) [OF that] ok(8) [OF that] by (simp add: res sup_sc)
qed

subsection \<open>Failing steps\<close>

lemma executeWorkflowStep_rejected:
  assumes "getWorkflow s w = Some wk" and "wstate wk = Running"
    and "0 \<le> currentStep wk" and "currentStep wk < int (length (steps wk))"
    and "executeStep d p w (steps wk ! nat (currentStep wk)) env s = (Rejected e, s1)"
    and "getWorkflow s1 w = Some w1"
  shows "executeWorkflowStep d p w env s =
     (Returned,
      setWorkflow w
        (w1\<lparr>wstate := Failed, werror := Some e, wupdateTime := now (supervisor s1),
            wendTime := Some (now (supervisor s1))\<rparr>) s1)"
  using assms by (simp add: executeWorkflowStep_def)

lemma executeWorkflowStep_resolved:
  assumes "getWorkflow s w = Some wk" and "wstate wk = Running"
    and "0 \<le> currentStep wk" and "currentStep wk < int (length (steps wk))"
    and "executeStep d p w (steps wk ! nat (currentStep wk)) env s = (Resolved, s1)"
    and "getWorkflow s1 w = Some w1"
  shows "executeWorkflowStep d p w env s =
     (Scheduled,
      setWorkflow w
        (w1\<lparr>currentStep := currentStep w1 + 1, wupdateTime := now (supervisor s1)\<rparr>) s1)"
  using assms by (simp add: executeWorkflowStep_def)

text \<open>One call of the step loop on a Process step whose worker runs and then exits.\<close>

lemma executeWorkflowStep_process_run:
  assumes w: "getWorkflow s w = Some wk" and run: "wstate wk = Running"
    and lo: "0 \<le> currentStep wk" and hi: "currentStep wk < int (length (steps wk))"
    and st: "steps wk ! nat (currentStep wk) = ProcessStep n t ps"
    and cap: "length (activeProcesses (supervisor s)) < maxConcurrent (supervisor s)"
    and known: "starterMessage t = Some m"
    and calm: "timers (supervisor s) = []"
    and qw: "list_all (list_all quiet) waits"
    and qa: "list_all quiet qa" and qb: "list_all quiet qb"
    and x: "x = newProcessId t (now (supervisor s)) r"
    and env: "env = StepEnv r cp (waits @ (qa @ Supervisor (Exit x c g) # qb) # later)"
  shows "c = Some 0 \<Longrightarrow> fst (executeWorkflowStep d p w env s) = Scheduled"
    and "c = Some 0 \<Longrightarrow>
         getWorkflow (snd (executeWorkflowStep d p w env s)) w
           = Some (wk\<lparr>processes := processes wk @ [x], currentStep := currentStep wk + 1,
                      wupdateTime := now (supervisor s) + elapsed (concat waits @ qa @ qb)\<rparr>)"
    and "c \<noteq> Some 0 \<Longrightarrow> fst (executeWorkflowStep d p w env s) = Returned"
    and "c \<noteq> Some 0 \<Longrightarrow>
         getWorkflow (snd (executeWorkflowStep d p w env s)) w
           = Some (wk\<lparr>processes := processes wk @ [x], wstate := Failed,
                      werror := Some (''Process '' @ x @ '' failed: '' @ exitError c g),
                      wupdateTime := now (supervisor s) + elapsed (concat waits @ qa @ qb),
                      wendTime := Some (now (supervisor s) + elapsed (concat waits @ qa @ qb))\<rparr>)"
    and "supervisor (snd (executeWorkflowStep d p w env s))
           = supervisor (snd (executeProcessStep w t ps env s))"
proof -
  note ps = executeProcessStep_run [OF w run cap known calm qw qa qb x env, where ps = ps]
  obtain res s1 where r: "executeProcessStep w t ps env s = (res, s1)"
    by (cases "executeProcessStep w t ps env s")
  have res: "res = (if c = Some 0 then Resolved
              else Rejected (''Process '' @ x @ '' failed: '' @ exitError c g))"
    using ps(1) by (simp add: r)
  have "workflowStates s1
      = workflowStates (setWorkflow w (wk\<lparr>processes := processes wk @ [x]\<rparr>) s)"
    using ps(2) by (simp add: r)
  then have g1: "getWorkflow s1 w = Some (wk\<lparr>processes := processes wk @ [x]\<rparr>)"
    by (simp add: getWorkflow_def setWorkflow_def update_Some_unfold)
  have n1: "now (supervisor s1) = now (supervisor s) + elapsed (concat waits @ qa @ qb)"
    using ps(7) by (simp add: r)
  have es: "executeStep d p w (steps wk ! nat (currentStep wk)) env s = (res, s1)"
    by (simp add: st r)
  show "fst (executeWorkflowStep d p w env s) = Scheduled" if "c = Some 0"
    using that res executeWorkflowStep_resolved [OF w run lo hi _ g1, of d p env] es by simp
  show "getWorkflow (snd (executeWorkflowStep d p w env s)) w
           = Some (wk\<lparr>processes := processes wk @ [x], currentStep := currentStep wk + 1,
                      wupdateTime := now (supervisor s) + elapsed (concat waits @ qa @ qb)\<rparr>)"
    if "c = Some 0"
    using that res executeWorkflowStep_resolved [OF w run lo hi _ g1, of d p env] es
    by (simp add: frame n1)
  show "fst (executeWorkflowStep d p w env s) = Returned" if "c \<noteq> Some 0"
    using that res executeWorkflowStep_rejected [OF w run lo hi _ g1, of d p env] es by simp
  show "getWorkflow (snd (executeWorkflowStep d p w env s)) w
           = Some (wk\<lparr>processes := processes wk @ [x], wstate := Failed,
                      werror := Some (''Process '' @ x @ '' failed: '' @ exitError c g),
                      wupdateTime := now (supervisor s) + elapsed (concat waits @ qa @ qb),
                      wendTime := Some (now (supervisor s) + elapsed (concat waits @ qa @ qb))\<rparr>)"
    if "c \<noteq> Some 0"
    using that res executeWorkflowStep_rejected [OF w run lo hi _ g1, of d p env] es
    by (simp add: frame n1)
  show "supervisor (snd (executeWorkflowStep d p w env s))
           = supervisor (snd (executeProcessStep w t ps env s))"
  proof (cases "c = Some 0")
    case True
    with res executeWorkflowStep_resolved [OF w run lo hi _ g1, of d p env] es
    show ?thesis by (simp add: frame r)
  next
    case False
    with res executeWorkflowStep_rejected [OF w run lo hi _ g1, of d p env] es
    show ?thesis by (simp add: frame r)
  qed
qed

text \<open>
  A created workflow of two Process steps, started: each worker runs through any number
  of polls and exits between two polls, the first with code 0 and the second otherwise.
\<close>

lemma two_process_run:
  assumes W: "getWorkflow s w = Some wk" "wstate wk = Created" "currentStep wk = 0"
      "steps wk = [ProcessStep na ta psa, ProcessStep nb tb psb]" "processes wk = []"
    and K: "starterMessage ta = Some ma" "starterMessage tb = Some mb"
    and CAP: "length (activeProcesses (supervisor s)) + 2 \<le> maxConcurrent (supervisor s)"
    and calm: "timers (supervisor s) = []"
    and X: "c \<noteq> Some 0"
    and QA: "list_all (list_all quiet) wa" "list_all quiet ea" "list_all quiet fa"
    and QB: "list_all (list_all quiet) wb" "list_all quiet eb" "list_all quiet fb"
    and ida: "ida = newProcessId ta (now (supervisor s)) ra"
    and idb: "idb = newProcessId tb (now (supervisor s) + elapsed (concat wa @ ea @ fa)) rb"
    and enva: "enva = StepEnv ra pa (wa @ (ea @ Supervisor (Exit ida (Some 0) ga) # fa) # la)"
    and envb: "envb = StepEnv rb pb (wb @ (eb @ Supervisor (Exit idb c gb) # fb) # lb)"
  shows "fst (startWorkflow d p w [enva, envb] s) = Some True"
    and "getWorkflow (snd (startWorkflow d p w [enva, envb] s)) w
           = Some (wk\<lparr>processes := [ida, idb], currentStep := 1, wstate := Failed,
                werror := Some (''Process '' @ idb @ '' failed: '' @ exitError c gb),
                wupdateTime := now (supervisor s) + elapsed (concat wa @ ea @ fa)
                                 + elapsed (concat wb @ eb @ fb),
                wendTime := Some (now (supervisor s) + elapsed (concat wa @ ea @ fa)
                                 + elapsed (concat wb @ eb @ fb))\<rparr>)"
    and "signals (supervisor (snd (startWorkflow d p w [enva, envb] s))) = signals (supervisor s)"
    and "map_option lifecycle (getProcess (supervisor (snd (startWorkflow d p w [enva, envb] s))) idb)
           = Some (ERROR, Some (exitError c gb))"
    and "ida \<noteq> idb \<Longrightarrow>
         map_option lifecycle (getProcess (supervisor (snd (startWorkflow d p w [enva, envb] s))) ida)
           = Some (COMPLETED, None)"
    and "now (supervisor (snd (startWorkflow d p w [enva, envb] s)))
           = now (supervisor s) + elapsed (concat wa @ ea @ fa) + elapsed (concat wb @ eb @ fb)"
    and "timers (supervisor (snd (startWorkflow d p w [enva, envb] s))) = []"
proof -
  define wkr where "wkr = wk\<lparr>wstate := Running, wupdateTime := now (supervisor s)\<rparr>"
  define sr where "sr = setWorkflow w wkr s"
  have gr: "getWorkflow sr w = Some wkr" by (simp add: sr_def frame)
  have sup_sr: "supervisor sr = supervisor s" by (simp add: sr_def frame)
  have rr: "wstate wkr = Running" by (simp add: wkr_def)
  have lo: "0 \<le> currentStep wkr" and hi: "currentStep wkr < int (length (steps wkr))"
    and st: "steps wkr ! nat (currentStep wkr) = ProcessStep na ta psa"
    using W by (simp_all add: wkr_def)
  have cap: "length (activeProcesses (supervisor sr)) < maxConcurrent (supervisor sr)"
    using CAP by (simp add: sup_sr)
  have calm_r: "timers (supervisor sr) = []" by (simp add: sup_sr calm)
  have xa: "ida = newProcessId ta (now (supervisor sr)) ra" by (simp add: sup_sr ida)
  note A = executeWorkflowStep_process_run
             [OF gr rr lo hi st cap K(1) calm_r QA xa enva, where d = d and p = p]
  note PA = executeProcessStep_run [OF gr rr cap K(1) calm_r QA xa enva, where ps = psa]
  define sb where "sb = snd (executeWorkflowStep d p w enva sr)"
  define wkb where "wkb = wkr\<lparr>processes := processes wkr @ [ida],
                      currentStep := currentStep wkr + 1,
                      wupdateTime := now (supervisor sr) + elapsed (concat wa @ ea @ fa)\<rparr>"
  have c1: "executeWorkflowStep d p w enva sr = (Scheduled, sb)"
    using A(1) by (cases "executeWorkflowStep d p w enva sr") (simp add: sb_def)
  have gb: "getWorkflow sb w = Some wkb" using A(2) by (simp add: sb_def wkb_def)
  have sup_sb: "supervisor sb = supervisor (snd (executeProcessStep w ta psa enva sr))"
    using A(5) by (simp add: sb_def)
  have rb: "wstate wkb = Running" by (simp add: wkb_def wkr_def)
  have lob: "0 \<le> currentStep wkb" and hib: "currentStep wkb < int (length (steps wkb))"
    and stb: "steps wkb ! nat (currentStep wkb) = ProcessStep nb tb psb"
    using W by (simp_all add: wkb_def wkr_def)
  have capb: "length (activeProcesses (supervisor sb)) < maxConcurrent (supervisor sb)"
    using PA(5) PA(6) CAP by (simp add: sup_sb sup_sr)
  have calm_b: "timers (supervisor sb) = []" using PA(3) by (simp add: sup_sb)
  have nb: "now (supervisor sb) = now (supervisor s) + elapsed (concat wa @ ea @ fa)"
    using PA(7) by (simp add: sup_sb sup_sr)
  have xb: "idb = newProcessId tb (now (supervisor sb)) rb" by (simp add: nb idb)
  note B = executeWorkflowStep_process_run
             [OF gb rb lob hib stb capb K(2) calm_b QB xb envb, where d = d and p = p]
  note PB = executeProcessStep_run [OF gb rb capb K(2) calm_b QB xb envb, where ps = psb]
  define sf where "sf = snd (executeWorkflowStep d p w envb sb)"
  have c2: "executeWorkflowStep d p w envb sb = (Returned, sf)"
    using B(3) [OF X] by (cases "executeWorkflowStep d p w envb sb") (simp add: sf_def)
  have sup_sf: "supervisor sf = supervisor (snd (executeProcessStep w tb psb envb sb))"
    using B(5) by (simp add: sf_def)
  have start: "startWorkflow d p w [enva, envb] s = (Some True, sf)"
    using W(1,2) by (simp add: startWorkflow_def Let_def wkr_def [symmetric] sr_def [symmetric] c1 c2)
  show "fst (startWorkflow d p w [enva, envb] s) = Some True" by (simp add: start)
  show "getWorkflow (snd (startWorkflow d p w [enva, envb] s)) w
           = Some (wk\<lparr>processes := [ida, idb], currentStep := 1, wstate := Failed,
                werror := Some (''Process '' @ idb @ '' failed: '' @ exitError c gb),
                wupdateTime := now (supervisor s) + elapsed (concat wa @ ea @ fa)
                                 + elapsed (concat wb @ eb @ fb),
                wendTime := Some (now (supervisor s) + elapsed (concat wa @ ea @ fa)
                                 + elapsed (concat wb @ eb @ fb))\<rparr>)"
    using B(4) [OF X] W(3,5) by (simp add: start sf_def wkb_def wkr_def nb)
  show "signals (supervisor (snd (startWorkflow d p w [enva, envb] s))) = signals (supervisor s)"
    using PA(4) PB(4) by (simp add: start sup_sf sup_sb sup_sr)
  show "map_option lifecycle (getProcess (supervisor (snd (startWorkflow d p w [enva, envb] s))) idb)
           = Some (ERROR, Some (exitError c gb))"
    using PB(8) X by (simp add: start sup_sf)
  show "map_option lifecycle (getProcess (supervisor (snd (startWorkflow d p w [enva, envb] s))) ida)
           = Some (COMPLETED, None)" if "ida \<noteq> idb"
    using PB(9) [OF that] PA(8) by (simp add: start sup_sf sup_sb)
  show "now (supervisor (snd (startWorkflow d p w [enva, envb] s)))
           = now (supervisor s) + elapsed (concat wa @ ea @ fa) + elapsed (concat wb @ eb @ fb)"
    using PB(7) by (simp add: start sup_sf nb)
  show "timers (supervisor (snd (startWorkflow d p w [enva, envb] s))) = []"
    using PB(3) by (simp add: start sup_sf)
qed

text \<open>
  Claim C7. When the step a running workflow executes fails with an error, the call of
  the step loop ends with the workflow FAILED and the error message on its record, and
  leaves the supervisor as the failing step left it: no process of the workflow is
  stopped, and the list of process ids and the step index are kept. In particular, take a
  created workflow of two Process steps of known types, started with room for two more
  processes and no removal pending. Each worker is polled any number of times while it
  runs, with time passing and output and progress arriving between the polls, and exits
  between two polls, the first with code 0 and the second with another code (or a
  signal); the second worker's id carries the time at which the first step settled. Then
  the workflow ends FAILED at step index 1 with both process ids on its list and the
  second worker's failure as its error; no signal has been sent and no removal is
  pending, the second process's record is in ERROR and the first's in COMPLETED.
\<close>

theorem step_failure_fails_workflow:
  "(getWorkflow s w = Some wk \<and> wstate wk = Running
      \<and> 0 \<le> currentStep wk \<and> currentStep wk < int (length (steps wk))
      \<and> executeStep d p w (steps wk ! nat (currentStep wk)) env s = (Rejected e, s1)
      \<and> getWorkflow s1 w = Some w1 \<longrightarrow>
        (\<exists>wk'. executeWorkflowStep d p w env s = (Returned, setWorkflow w wk' s1)
           \<and> wstate wk' = Failed \<and> werror wk' = Some e
           \<and> processes wk' = processes w1 \<and> currentStep wk' = currentStep w1)
        \<and> supervisor (snd (executeWorkflowStep d p w env s)) = supervisor s1)
   \<and> (getWorkflow s w = Some wk \<and> wstate wk = Created \<and> currentStep wk = 0
      \<and> steps wk = [ProcessStep na ta psa, ProcessStep nb tb psb] \<and> processes wk = []
      \<and> starterMessage ta \<noteq> None \<and> starterMessage tb \<noteq> None
      \<and> length (activeProcesses (supervisor s)) + 2 \<le> maxConcurrent (supervisor s)
      \<and> timers (supervisor s) = []
      \<and> c \<noteq> Some 0
      \<and> list_all (list_all quiet) wa \<and> list_all quiet ea \<and> list_all quiet fa
      \<and> list_all (list_all quiet) wb \<and> list_all quiet eb \<and> list_all quiet fb
      \<and> ida = newProcessId ta (now (supervisor s)) ra
      \<and> idb = newProcessId tb (now (supervisor s) + elapsed (concat wa @ ea @ fa)) rb
      \<and> final = snd (startWorkflow d p w
                   [StepEnv ra pa (wa @ (ea @ Supervisor (Exit ida (Some 0) ga) # fa) # la),
                    StepEnv rb pb (wb @ (eb @ Supervisor (Exit idb c gb) # fb) # lb)] s) \<longrightarrow>
        map_option wstate (getWorkflow final w) = Some Failed
        \<and> map_option currentStep (getWorkflow final w) = Some 1
        \<and> map_option processes (getWorkflow final w) = Some [ida, idb]
        \<and> map_option (\<lambda>x. length (processes x)) (getWorkflow final w) = Some 2
        \<and> map_option werror (getWorkflow final w)
            = Some (Some (''Process '' @ idb @ '' failed: '' @ exitError c gb))
        \<and> signals (supervisor final) = signals (supervisor s)
        \<and> timers (supervisor final) = []
        \<and> map_option state (getProcess (supervisor final) idb) = Some ERROR
        \<and> (ida \<noteq> idb \<longrightarrow> map_option state (getProcess (supervisor final) ida) = Some COMPLETED))"
proof (intro conjI impI)
  assume a: "getWorkflow s w = Some wk \<and> wstate wk = Running
      \<and> 0 \<le> currentStep wk \<and> currentStep wk < int (length (steps wk))
      \<and> executeStep d p w (steps wk ! nat (currentStep wk)) env s = (Rejected e, s1)
      \<and> getWorkflow s1 w = Some w1"
  then have r: "executeWorkflowStep d p w env s =
     (Returned,
      setWorkflow w
        (w1\<lparr>wstate := Failed, werror := Some e, wupdateTime := now (supervisor s1),
            wendTime := Some (now (supervisor s1))\<rparr>) s1)"
    using executeWorkflowStep_rejected [of s w wk d p env e s1 w1] by blast
  show "\<exists>wk'. executeWorkflowStep d p w env s = (Returned, setWorkflow w wk' s1)
           \<and> wstate wk' = Failed \<and> werror wk' = Some e
           \<and> processes wk' = processes w1 \<and> currentStep wk' = currentStep w1"
    by (rule exI [of _ "w1\<lparr>wstate := Failed, werror := Some e, wupdateTime := now (supervisor s1),
            wendTime := Some (now (supervisor s1))\<rparr>"]) (simp add: r)
  show "supervisor (snd (executeWorkflowStep d p w env s)) = supervisor s1"
    by (simp add: r frame)
next
  assume b: "getWorkflow s w = Some wk \<and> wstate wk = Created \<and> currentStep wk = 0
      \<and> steps wk = [ProcessStep na ta psa, ProcessStep nb tb psb] \<and> processes wk = []
      \<and> starterMessage ta \<noteq> None \<and> starterMessage tb \<noteq> None
      \<and> length (activeProcesses (supervisor s)) + 2 \<le> maxConcurrent (supervisor s)
      \<and> timers (supervisor s) = []
      \<and> c \<noteq> Some 0
      \<and> list_all (list_all quiet) wa \<and> list_all quiet ea \<and> list_all quiet fa
      \<and> list_all (list_all quiet) wb \<and> list_all quiet eb \<and> list_all quiet fb
      \<and> ida = newProcessId ta (now (supervisor s)) ra
      \<and> idb = newProcessId tb (now (supervisor s) + elapsed (concat wa @ ea @ fa)) rb
      \<and> final = snd (startWorkflow d p w
                   [StepEnv ra pa (wa @ (ea @ Supervisor (Exit ida (Some 0) ga) # fa) # la),
                    StepEnv rb pb (wb @ (eb @ Supervisor (Exit idb c gb) # fb) # lb)] s)"
  then obtain ma mb where K: "starterMessage ta = Some ma" "starterMessage tb = Some mb"
    by auto
  from b have W: "getWorkflow s w = Some wk" "wstate wk = Created" "currentStep wk = 0"
      "steps wk = [ProcessStep na ta psa, ProcessStep nb tb psb]" "processes wk = []"
    and CAP: "length (activeProcesses (supervisor s)) + 2 \<le> maxConcurrent (supervisor s)"
    and calm: "timers (supervisor s) = []"
    and X: "c \<noteq> Some 0"
    and QA: "list_all (list_all quiet) wa" "list_all quiet ea" "list_all quiet fa"
    and QB: "list_all (list_all quiet) wb" "list_all quiet eb" "list_all quiet fb"
    and ida: "ida = newProcessId ta (now (supervisor s)) ra"
    and idb: "idb = newProcessId tb (now (supervisor s) + elapsed (concat wa @ ea @ fa)) rb"
    and fin: "final = snd (startWorkflow d p w
                   [StepEnv ra pa (wa @ (ea @ Supervisor (Exit ida (Some 0) ga) # fa) # la),
                    StepEnv rb pb (wb @ (eb @ Supervisor (Exit idb c gb) # fb) # lb)] s)"
    by blast+
  note sc = two_process_run [OF W K CAP calm X QA QB ida idb refl refl,
      where d = d and p = p and pa = pa and ga = ga and la = la
        and pb = pb and gb = gb and lb = lb, folded fin]
  show "map_option wstate (getWorkflow final w) = Some Failed" by (simp add: sc(2))
  show "map_option currentStep (getWorkflow final w) = Some 1" by (simp add: sc(2))
  show "map_option processes (getWorkflow final w) = Some [ida, idb]" by (simp add: sc(2))
  show "map_option (\<lambda>x. length (processes x)) (getWorkflow final w) = Some 2"
    by (simp add: sc(2))
  show "map_option werror (getWorkflow final w)
            = Some (Some (''Process '' @ idb @ '' failed: '' @ exitError c gb))"
    by (simp add: sc(2))
  show "signals (supervisor final) = signals (supervisor s)" by (rule sc(3))
  show "timers (supervisor final) = []" by (rule sc(7))
  have "map_option state (getProcess (supervisor final) idb)
      = map_option fst (map_option lifecycle (getProcess (supervisor final) idb))"
    by (simp add: option.map_comp comp_def lifecycle_def)
  then show "map_option state (getProcess (supervisor final) idb) = Some ERROR"
    by (simp add: sc(4))
  have "map_option state (getProcess (supervisor final) ida)
      = map_option fst (map_option lifecycle (getProcess (supervisor final) ida))"
    by (simp add: option.map_comp comp_def lifecycle_def)
  then show "map_option state (getProcess (supervisor final) ida) = Some COMPLETED"
    if "ida \<noteq> idb"
    using sc(5) [OF that] by simp
qed

text \<open>
  The evidence collection of the fresh orchestrator: the imaging worker is found running
  by two polls and exits with code 0 before the third, the scanner is found running by
  one poll and exits with code 2 before the second. And the evidence collection of the
  orchestrator whose only slot is taken: its first step fails at once and leaves the
  running worker as it is.
\<close>

theorem step_failure_fails_workflow_witness:
  "map_option wstate (getWorkflow example_collection example_collection_id) = Some Created
   \<and> map_option wstate
        (getWorkflow
           (snd (startWorkflow noExecutor noExecutor example_collection_id
                   [example_imaging_env, example_scanner_env] example_collection))
           example_collection_id) = Some Failed
   \<and> map_option currentStep
        (getWorkflow
           (snd (startWorkflow noExecutor noExecutor example_collection_id
                   [example_imaging_env, example_scanner_env] example_collection))
           example_collection_id) = Some 1
   \<and> map_option processes
        (getWorkflow
           (snd (startWorkflow noExecutor noExecutor example_collection_id
                   [example_imaging_env, example_scanner_env] example_collection))
           example_collection_id) = Some [example_imaging_id, example_scanner_id]
   \<and> map_option (\<lambda>x. length (processes x))
        (getWorkflow
           (snd (startWorkflow noExecutor noExecutor example_collection_id
                   [example_imaging_env, example_scanner_env] example_collection))
           example_collection_id) = Some 2
   \<and> map_option state
        (getProcess
           (supervisor
              (snd (startWorkflow noExecutor noExecutor example_collection_id
                      [example_imaging_env, example_scanner_env] example_collection)))
           example_scanner_id) = Some ERROR
   \<and> map_option state
        (getProcess
           (supervisor
              (snd (startWorkflow noExecutor noExecutor example_collection_id
                      [example_imaging_env, example_scanner_env] example_collection)))
           example_imaging_id) = Some COMPLETED
   \<and> map_option wstate (getWorkflow example_busy example_collection_id) = Some Running
   \<and> map_option wstate
        (getWorkflow
           (snd (executeWorkflowStep noExecutor noExecutor example_collection_id
                   (StepEnv ''a1b2c3d4e'' (Some 5001) []) example_busy))
           example_collection_id) = Some Failed
   \<and> map_option werror
        (getWorkflow
           (snd (executeWorkflowStep noExecutor noExecutor example_collection_id
                   (StepEnv ''a1b2c3d4e'' (Some 5001) []) example_busy))
           example_collection_id) = Some (Some CapacityExceeded)
   \<and> supervisor
        (snd (executeWorkflowStep noExecutor noExecutor example_collection_id
                (StepEnv ''a1b2c3d4e'' (Some 5001) []) example_busy)) = example_running"
proof -
  let ?wk = "\<lparr>wid = example_collection_id, wtype = ''evidence-collection'', wparameters = [],
           steps = [ProcessStep ''Image the disk'' ''disk-imaging'' [],
                    ProcessStep ''Scan for malware'' ''malware-scan'' []],
           currentStep = 0, wstate = Created, processes = [],
           wstartTime = 0, wupdateTime = 0, wendTime = None, werror = None\<rparr>"
  let ?wr = "\<lparr>wid = example_collection_id, wtype = ''evidence-collection'', wparameters = [],
           steps = [ProcessStep ''Image the disk'' ''disk-imaging'' [],
                    ProcessStep ''Scan for malware'' ''malware-scan'' []],
           currentStep = 0, wstate = Running, processes = [],
           wstartTime = 0, wupdateTime = 0, wendTime = None, werror = None\<rparr>"
  let ?wa = "[[Supervisor (Tick 1000)],
        [Supervisor (Stdout example_imaging_id ''Progress: 40%'' (Some 40)),
         Supervisor (Tick 1000)]]"
  let ?ea = "[Supervisor (Tick 400)]"
  let ?fa = "[Supervisor (Tick 600)]"
  let ?wb = "[[Supervisor (Stderr example_scanner_id ''signature database is old''),
         Supervisor (Tick 1000)]]"
  let ?eb = "[Supervisor (Tick 250)]"
  let ?fb = "[Supervisor (Tick 750)]"
  let ?lb = "[[Supervisor (Tick 1000)]]"
  let ?final = "snd (startWorkflow noExecutor noExecutor example_collection_id
                   [example_imaging_env, example_scanner_env] example_collection)"
  let ?env = "StepEnv ''a1b2c3d4e'' (Some 5001) []"
  have g: "getWorkflow example_collection example_collection_id = Some ?wk"
    by (simp add: example_collection_eq on_literal)
  have su: "supervisor example_collection = initial None 0"
    by (simp add: example_collection_eq)
  have envs: "[example_imaging_env, example_scanner_env]
      = [StepEnv ''a1b2c3d4e'' (Some 5001)
           (?wa @ (?ea @ Supervisor (Exit example_imaging_id (Some 0) None) # ?fa) # []),
         StepEnv ''f5g6h7i8j'' (Some 5002)
           (?wb @ (?eb @ Supervisor (Exit example_scanner_id (Some 2) None) # ?fb) # ?lb)]"
    by (simp add: example_imaging_env_def example_scanner_env_def)
  have q: "list_all (list_all quiet) ?wa \<and> list_all quiet ?ea \<and> list_all quiet ?fa
      \<and> list_all (list_all quiet) ?wb \<and> list_all quiet ?eb \<and> list_all quiet ?fb"
    by simp
  have ids: "example_imaging_id
           = newProcessId ''disk-imaging'' (now (supervisor example_collection)) ''a1b2c3d4e''
      \<and> example_scanner_id
           = newProcessId ''malware-scan''
               (now (supervisor example_collection) + elapsed (concat ?wa @ ?ea @ ?fa))
               ''f5g6h7i8j''"
    by (simp add: su initial_def newProcessId_def showInt_def on_literal example_imaging_id_def
        example_scanner_id_def)
  have pre: "getWorkflow example_collection example_collection_id = Some ?wk
      \<and> wstate ?wk = Created \<and> currentStep ?wk = 0
      \<and> steps ?wk = [ProcessStep ''Image the disk'' ''disk-imaging'' [],
                     ProcessStep ''Scan for malware'' ''malware-scan'' []]
      \<and> processes ?wk = []
      \<and> starterMessage ''disk-imaging'' \<noteq> None \<and> starterMessage ''malware-scan'' \<noteq> None
      \<and> length (activeProcesses (supervisor example_collection)) + 2
           \<le> maxConcurrent (supervisor example_collection)
      \<and> timers (supervisor example_collection) = []
      \<and> Some (2::int) \<noteq> Some 0"
    by (simp add: g su initial_def configuredMaxConcurrent_def starterMessage_def)
  have B: "getWorkflow example_collection example_collection_id = Some ?wk
      \<and> wstate ?wk = Created \<and> currentStep ?wk = 0
      \<and> steps ?wk = [ProcessStep ''Image the disk'' ''disk-imaging'' [],
                     ProcessStep ''Scan for malware'' ''malware-scan'' []]
      \<and> processes ?wk = []
      \<and> starterMessage ''disk-imaging'' \<noteq> None \<and> starterMessage ''malware-scan'' \<noteq> None
      \<and> length (activeProcesses (supervisor example_collection)) + 2
           \<le> maxConcurrent (supervisor example_collection)
      \<and> timers (supervisor example_collection) = []
      \<and> Some (2::int) \<noteq> Some 0
      \<and> list_all (list_all quiet) ?wa \<and> list_all quiet ?ea \<and> list_all quiet ?fa
      \<and> list_all (list_all quiet) ?wb \<and> list_all quiet ?eb \<and> list_all quiet ?fb
      \<and> example_imaging_id
           = newProcessId ''disk-imaging'' (now (supervisor example_collection)) ''a1b2c3d4e''
      \<and> example_scanner_id
           = newProcessId ''malware-scan''
               (now (supervisor example_collection) + elapsed (concat ?wa @ ?ea @ ?fa))
               ''f5g6h7i8j''
      \<and> ?final = snd (startWorkflow noExecutor noExecutor example_collection_id
           [StepEnv ''a1b2c3d4e'' (Some 5001)
              (?wa @ (?ea @ Supervisor (Exit example_imaging_id (Some 0) None) # ?fa) # []),
            StepEnv ''f5g6h7i8j'' (Some 5002)
              (?wb @ (?eb @ Supervisor (Exit example_scanner_id (Some 2) None) # ?fb) # ?lb)]
           example_collection)"
    using pre q ids by (simp only: envs) blast
  note T = step_failure_fails_workflow [where s = example_collection and w = example_collection_id
      and wk = ?wk and d = noExecutor and p = noExecutor
      and na = "''Image the disk''" and ta = "''disk-imaging''" and psa = "[]"
      and nb = "''Scan for malware''" and tb = "''malware-scan''" and psb = "[]"
      and c = "Some 2" and ida = example_imaging_id
      and idb = example_scanner_id and ra = "''a1b2c3d4e''" and rb = "''f5g6h7i8j''"
      and pa = "Some 5001" and pb = "Some 5002" and ga = None and gb = None
      and wa = ?wa and ea = ?ea and fa = ?fa and la = "[]"
      and wb = ?wb and eb = ?eb and fb = ?fb and lb = ?lb
      and final = ?final, THEN conjunct2, rule_format, OF B]
  have ne: "example_imaging_id \<noteq> example_scanner_id"
    by (simp add: example_imaging_id_def example_scanner_id_def)
  have t1: "map_option wstate (getWorkflow ?final example_collection_id) = Some Failed"
    and t2: "map_option currentStep (getWorkflow ?final example_collection_id) = Some 1"
    and t3: "map_option processes (getWorkflow ?final example_collection_id)
               = Some [example_imaging_id, example_scanner_id]"
    and t4: "map_option (\<lambda>x. length (processes x)) (getWorkflow ?final example_collection_id)
               = Some 2"
    and t8: "map_option state (getProcess (supervisor ?final) example_scanner_id) = Some ERROR"
    and t9: "example_imaging_id \<noteq> example_scanner_id \<longrightarrow>
             map_option state (getProcess (supervisor ?final) example_imaging_id) = Some COMPLETED"
    using T by blast+
  from t9 ne have t10:
    "map_option state (getProcess (supervisor ?final) example_imaging_id) = Some COMPLETED"
    by blast
  have g2: "getWorkflow example_busy example_collection_id = Some ?wr"
    by (simp add: example_busy_eq on_literal)
  have A: "getWorkflow example_busy example_collection_id = Some ?wr \<and> wstate ?wr = Running
      \<and> 0 \<le> currentStep ?wr \<and> currentStep ?wr < int (length (steps ?wr))
      \<and> executeStep noExecutor noExecutor example_collection_id (steps ?wr ! nat (currentStep ?wr))
            ?env example_busy = (Rejected CapacityExceeded, example_busy)
      \<and> getWorkflow example_busy example_collection_id = Some ?wr"
    by (simp add: g2) (simp add: example_busy_eq example_running_eq executeProcessStep_def
        startProcess_def)
  note U = step_failure_fails_workflow [where s = example_busy and w = example_collection_id
      and wk = ?wr and d = noExecutor and p = noExecutor and env = ?env
      and e = CapacityExceeded and ?s1.0 = example_busy and ?w1.0 = ?wr,
      THEN conjunct1, rule_format, OF A]
  from U [THEN conjunct1] obtain wk' where
    r: "executeWorkflowStep noExecutor noExecutor example_collection_id ?env example_busy
          = (Returned, setWorkflow example_collection_id wk' example_busy)"
    and f: "wstate wk' = Failed" "werror wk' = Some CapacityExceeded"
    by blast
  have u1: "map_option wstate (getWorkflow (snd (executeWorkflowStep noExecutor noExecutor
      example_collection_id ?env example_busy)) example_collection_id) = Some Failed"
    and u2: "map_option werror (getWorkflow (snd (executeWorkflowStep noExecutor noExecutor
      example_collection_id ?env example_busy)) example_collection_id) = Some (Some CapacityExceeded)"
    by (simp_all add: r f frame)
  have u3: "supervisor (snd (executeWorkflowStep noExecutor noExecutor example_collection_id
      ?env example_busy)) = example_running"
    using U [THEN conjunct2] by (simp add: example_busy_eq)
  have c0: "map_option wstate (getWorkflow example_collection example_collection_id) = Some Created"
    by (simp add: g)
  have c1: "map_option wstate (getWorkflow example_busy example_collection_id) = Some Running"
    by (simp add: g2)
  show ?thesis
    by (intro conjI c0 c1 u1 u2 u3 t1 t2 t3 t4 t8 t10)
qed

end
